(* ===== verification/Basis.thy ===== *)
theory Basis
  imports Complex_Main "HOL-Library.Multiset" "HOL-Library.Sublist"
begin

text \<open>
  The prelude of the order-sync development: the fact collections the component
  theories share, the list operations that stand for SQL statements over a table
  (a table is the list of its rows), and the two generic interfaces that carry
  the system-level arguments (an inductive invariant, a forward simulation).
\<close>

named_theorems runs_elims \<open>inversion rules for successful runs of a session operation\<close>
named_theorems query_defs \<open>definitions of the SQL statements\<close>
named_theorems repo_defs \<open>definitions of the repository methods\<close>
named_theorems session_simps \<open>evaluation of session operations\<close>

section \<open>Tables as lists of rows\<close>

text \<open>\<open>UPDATE t SET f WHERE P\<close>: the rows that satisfy P are replaced, the others stay.\<close>

definition update_where :: "('a \<Rightarrow> bool) \<Rightarrow> ('a \<Rightarrow> 'a) \<Rightarrow> 'a list \<Rightarrow> 'a list" where
  "update_where P f xs = map (\<lambda>x. if P x then f x else x) xs"

text \<open>The column values of a table: a UNIQUE constraint is \<open>unique_on\<close>.\<close>

definition unique_on :: "('a \<Rightarrow> 'k) \<Rightarrow> 'a list \<Rightarrow> bool" where
  "unique_on k xs \<longleftrightarrow> distinct (map k xs)"

lemma update_where_Nil [simp]: "update_where P f [] = []"
  by (simp add: update_where_def)

lemma update_where_Cons [simp]:
  "update_where P f (x # xs) = (if P x then f x else x) # update_where P f xs"
  by (simp add: update_where_def)

lemma length_update_where [simp]: "length (update_where P f xs) = length xs"
  by (simp add: update_where_def)

lemma set_update_where: "set (update_where P f xs) = (\<lambda>x. if P x then f x else x) ` set xs"
  by (simp add: update_where_def)

lemma ball_update_where:
  "(\<forall>y \<in> set (update_where P f xs). Q y) \<longleftrightarrow> (\<forall>x \<in> set xs. if P x then Q (f x) else Q x)"
  by (auto simp: set_update_where)

lemma bex_update_where:
  "(\<exists>y \<in> set (update_where P f xs). Q y) \<longleftrightarrow> (\<exists>x \<in> set xs. if P x then Q (f x) else Q x)"
  by (auto simp: set_update_where)

lemma map_update_where_same:
  assumes "\<And>x. x \<in> set xs \<Longrightarrow> P x \<Longrightarrow> k (f x) = k x"
  shows "map k (update_where P f xs) = map k xs"
  using assms by (simp add: update_where_def)

lemma update_where_none:
  assumes "\<And>x. x \<in> set xs \<Longrightarrow> \<not> P x"
  shows "update_where P f xs = xs"
  using assms by (induction xs) auto

lemma update_where_cong:
  assumes "\<And>x. x \<in> set xs \<Longrightarrow> P x = Q x" and "\<And>x. x \<in> set xs \<Longrightarrow> Q x \<Longrightarrow> f x = g x"
  shows "update_where P f xs = update_where Q g xs"
  using assms by (induction xs) auto

lemma update_where_snoc_last:
  assumes "\<And>x. x \<in> set xs \<Longrightarrow> \<not> P x" and "P y"
  shows "update_where P f (xs @ [y]) = xs @ [f y]"
  using assms by (induction xs) auto

lemma unique_on_update_where:
  assumes "unique_on k xs" and "\<And>x. x \<in> set xs \<Longrightarrow> P x \<Longrightarrow> k (f x) = k x"
  shows "unique_on k (update_where P f xs)"
  using assms by (simp add: unique_on_def map_update_where_same)

lemma unique_on_Nil [simp]: "unique_on k []"
  by (simp add: unique_on_def)

lemma unique_on_snoc [simp]:
  "unique_on k (xs @ [x]) \<longleftrightarrow> unique_on k xs \<and> (\<forall>y \<in> set xs. k y \<noteq> k x)"
  by (simp add: unique_on_def image_iff) metis

lemma unique_on_Cons [simp]:
  "unique_on k (x # xs) \<longleftrightarrow> (\<forall>y \<in> set xs. k y \<noteq> k x) \<and> unique_on k xs"
  by (simp add: unique_on_def image_iff) metis

lemma unique_onD: "unique_on k xs \<Longrightarrow> x \<in> set xs \<Longrightarrow> y \<in> set xs \<Longrightarrow> k x = k y \<Longrightarrow> x = y"
  by (auto simp: unique_on_def distinct_map dest: inj_onD)

section \<open>Single-row lookups\<close>

text \<open>\<open>SELECT ... WHERE P\<close> read through \<open>QueryRow\<close>: the first matching row, if any.\<close>

lemma find_SomeD: "List.find P xs = Some x \<Longrightarrow> x \<in> set xs \<and> P x"
  by (metis find_Some_iff nth_mem)

lemma find_NoneD: "List.find P xs = None \<Longrightarrow> x \<in> set xs \<Longrightarrow> \<not> P x"
  by (simp add: find_None_iff)

lemma find_unique:
  assumes "unique_on k xs" and "x \<in> set xs"
  shows "List.find (\<lambda>r. k r = k x) xs = Some x"
proof (cases "List.find (\<lambda>r. k r = k x) xs")
  case None
  then show ?thesis using assms(2) by (auto simp: find_None_iff)
next
  case (Some y)
  then have "y \<in> set xs" and "k y = k x" by (auto dest: find_SomeD)
  with assms have "y = x" by (auto dest: unique_onD)
  with Some show ?thesis by simp
qed

lemma find_unique_iff:
  assumes "unique_on k xs"
  shows "List.find (\<lambda>r. k r = a) xs = Some x \<longleftrightarrow> x \<in> set xs \<and> k x = a"
  using assms find_unique [OF assms, of x] by (auto dest: find_SomeD)

lemma find_snoc:
  "List.find P (xs @ [x]) = (case List.find P xs of Some y \<Rightarrow> Some y | None \<Rightarrow> if P x then Some x else None)"
  by (induction xs) (auto split: option.splits)

lemma find_update_where_other:
  assumes "\<And>x. x \<in> set xs \<Longrightarrow> P x \<Longrightarrow> k (f x) = k x" and "\<And>x. x \<in> set xs \<Longrightarrow> k x = a \<Longrightarrow> \<not> P x"
  shows "List.find (\<lambda>r. k r = a) (update_where P f xs) = List.find (\<lambda>r. k r = a) xs"
  using assms by (induction xs) auto

lemma find_update_where_key:
  assumes "\<And>x. k (f x) = k x"
  shows "List.find (\<lambda>r. k r = a) (update_where P f xs)
    = map_option (\<lambda>x. if P x then f x else x) (List.find (\<lambda>r. k r = a) xs)"
  using assms by (induction xs) auto

section \<open>An inductive invariant of a transition system\<close>

text \<open>
  The provider gives an invariant that holds initially and is kept by each step;
  the client may use it in every state of every run.
\<close>

locale invariant_system =
  fixes initial :: "'s \<Rightarrow> bool"
    and step :: "'s \<Rightarrow> 's \<Rightarrow> bool"
    and inv :: "'s \<Rightarrow> bool"
  assumes initial_inv: "initial s \<Longrightarrow> inv s"
    and step_inv: "inv s \<Longrightarrow> step s t \<Longrightarrow> inv t"
begin

lemma run_keeps_inv: "step\<^sup>*\<^sup>* s t \<Longrightarrow> inv s \<Longrightarrow> inv t"
  by (induction rule: rtranclp_induct) (auto intro: step_inv)

lemma reachable_inv: "initial s \<Longrightarrow> step\<^sup>*\<^sup>* s t \<Longrightarrow> inv t"
  by (blast intro: run_keeps_inv initial_inv)

end

section \<open>Forward simulation under an invariant\<close>

text \<open>
  Each concrete step from a state that satisfies the invariant is matched by at
  most one abstract step between the abstractions; runs then refine runs.
\<close>

locale refinement_system = invariant_system initial step inv
  for initial :: "'s \<Rightarrow> bool" and step :: "'s \<Rightarrow> 's \<Rightarrow> bool" and inv :: "'s \<Rightarrow> bool" +
  fixes abs :: "'s \<Rightarrow> 'a"
    and astep :: "'a \<Rightarrow> 'a \<Rightarrow> bool"
  assumes simulate: "inv s \<Longrightarrow> step s t \<Longrightarrow> abs t = abs s \<or> astep (abs s) (abs t)"
begin

lemma run_refines: "step\<^sup>*\<^sup>* s t \<Longrightarrow> inv s \<Longrightarrow> astep\<^sup>*\<^sup>* (abs s) (abs t)"
proof (induction rule: rtranclp_induct)
  case base
  then show ?case by simp
next
  case (step u v)
  then have "inv u" by (blast intro: run_keeps_inv)
  with step.hyps(2) have "abs v = abs u \<or> astep (abs u) (abs v)" by (rule simulate[rotated])
  with step.IH step.prems show ?case by (auto intro: rtranclp.rtrancl_into_rtrancl)
qed

end

end
