(* ===== verification/GoStd.thy ===== *)
theory GoStd
  imports Basis
begin

text \<open>
  The parts of the Go standard library that the program's own logic rests on:
  \<open>strings.TrimSpace\<close>, \<open>strings.ToUpper\<close>, \<open>strconv.ParseInt\<close>/\<open>Atoi\<close> and
  \<open>strconv.Itoa\<close>. A Go string is its list of UTF-8 bytes (\<open>char list\<close>).
\<close>

section \<open>strings.TrimSpace\<close>

text \<open>The UTF-8 encodings of the code points for which \<open>unicode.IsSpace\<close> holds.\<close>

definition space_encodings :: "string list" where
  "space_encodings =
     [[CHR 0x09], [CHR 0x0A], [CHR 0x0B], [CHR 0x0C], [CHR 0x0D], [CHR 0x20],
      [CHR 0xC2, CHR 0x85], [CHR 0xC2, CHR 0xA0], [CHR 0xE1, CHR 0x9A, CHR 0x80],
      [CHR 0xE2, CHR 0x80, CHR 0x80], [CHR 0xE2, CHR 0x80, CHR 0x81],
      [CHR 0xE2, CHR 0x80, CHR 0x82], [CHR 0xE2, CHR 0x80, CHR 0x83],
      [CHR 0xE2, CHR 0x80, CHR 0x84], [CHR 0xE2, CHR 0x80, CHR 0x85],
      [CHR 0xE2, CHR 0x80, CHR 0x86], [CHR 0xE2, CHR 0x80, CHR 0x87],
      [CHR 0xE2, CHR 0x80, CHR 0x88], [CHR 0xE2, CHR 0x80, CHR 0x89],
      [CHR 0xE2, CHR 0x80, CHR 0x8A], [CHR 0xE2, CHR 0x80, CHR 0xA8],
      [CHR 0xE2, CHR 0x80, CHR 0xA9], [CHR 0xE2, CHR 0x80, CHR 0xAF],
      [CHR 0xE2, CHR 0x81, CHR 0x9F], [CHR 0xE3, CHR 0x80, CHR 0x80]]"

text \<open>Remove leading code points from the given set, one encoding at a time.\<close>

function strip :: "string list \<Rightarrow> string \<Rightarrow> string" where
  "strip E s =
     (case List.find (\<lambda>e. e \<noteq> [] \<and> prefix e s) E of
        None \<Rightarrow> s
      | Some e \<Rightarrow> strip E (drop (length e) s))"
  by pat_completeness auto
termination
proof (relation "measure (\<lambda>(E, s). length s)")
  show "wf (measure (\<lambda>(E :: string list, s :: string). length s))" by simp
next
  fix E :: "string list" and s e :: string
  assume "List.find (\<lambda>e. e \<noteq> [] \<and> prefix e s) E = Some e"
  then have "e \<noteq> []" and "prefix e s" by (auto dest: find_SomeD)
  then show "((E, drop (length e) s), (E, s)) \<in> measure (\<lambda>(E, s). length s)"
    by (auto simp: prefix_def)
qed

declare strip.simps [simp del]

definition TrimSpace :: "string \<Rightarrow> string" where
  "TrimSpace s = rev (strip (map rev space_encodings) (rev (strip space_encodings s)))"

lemma strip_suffix: "suffix (strip E s) s"
proof (induction E s rule: strip.induct)
  case (1 E s)
  show ?case
  proof (cases "List.find (\<lambda>e. e \<noteq> [] \<and> prefix e s) E")
    case None
    then show ?thesis by (simp add: strip.simps [of E s])
  next
    case (Some e)
    with 1 have "suffix (strip E (drop (length e) s)) (drop (length e) s)" by blast
    then have "suffix (strip E (drop (length e) s)) s"
      by (rule suffix_order.trans) (rule suffix_drop)
    with Some show ?thesis by (simp add: strip.simps [of E s])
  qed
qed

lemma strip_no_prefix: "e \<in> set E \<Longrightarrow> e \<noteq> [] \<Longrightarrow> \<not> prefix e (strip E s)"
proof (induction E s rule: strip.induct)
  case (1 E s)
  show ?case
  proof (cases "List.find (\<lambda>e. e \<noteq> [] \<and> prefix e s) E")
    case None
    then have "strip E s = s" by (simp add: strip.simps [of E s])
    with 1 None show ?thesis by (auto simp: find_None_iff)
  next
    case (Some e')
    with 1 show ?thesis by (simp add: strip.simps [of E s])
  qed
qed

lemma strip_fixed: "(\<And>e. e \<in> set E \<Longrightarrow> e \<noteq> [] \<Longrightarrow> \<not> prefix e s) \<Longrightarrow> strip E s = s"
  by (subst strip.simps) (auto split: option.splits dest!: find_SomeD)

text \<open>Trimming twice is trimming once.\<close>

lemma TrimSpace_idem [simp]: "TrimSpace (TrimSpace s) = TrimSpace s"
proof -
  let ?u = "strip space_encodings s"
  let ?v = "strip (map rev space_encodings) (rev ?u)"
  have "prefix (rev ?v) ?u"
    using strip_suffix [of "map rev space_encodings" "rev ?u"]
    by (metis rev_rev_ident suffix_to_prefix)
  then have left: "strip space_encodings (rev ?v) = rev ?v"
    by (intro strip_fixed) (meson prefix_order.trans strip_no_prefix)
  have right: "strip (map rev space_encodings) ?v = ?v"
    by (intro strip_fixed) (metis strip_no_prefix)
  show ?thesis by (simp add: TrimSpace_def left right)
qed

lemma TrimSpace_Nil [simp]: "TrimSpace [] = []"
  by (simp add: TrimSpace_def strip_fixed)

section \<open>strings.ToUpper\<close>

text \<open>
  An ASCII string is mapped byte by byte. Otherwise the result is
  \<open>strings.Map(unicode.ToUpper, s)\<close>; the Unicode tables are the argument
  \<open>upper_unicode\<close>.
\<close>

definition is_ascii :: "string \<Rightarrow> bool" where
  "is_ascii s \<longleftrightarrow> list_all (\<lambda>c. (of_char c :: nat) < 128) s"

definition upper_char :: "char \<Rightarrow> char" where
  "upper_char c = (let n = (of_char c :: nat) in if 97 \<le> n \<and> n \<le> 122 then char_of (n - 32) else c)"

definition ToUpper :: "(string \<Rightarrow> string) \<Rightarrow> string \<Rightarrow> string" where
  "ToUpper upper_unicode s = (if is_ascii s then map upper_char s else upper_unicode s)"

lemma upper_char_idem [simp]: "upper_char (upper_char c) = upper_char c"
  by (auto simp: upper_char_def Let_def of_char_of)

lemma upper_char_ascii: "(of_char c :: nat) < 128 \<Longrightarrow> (of_char (upper_char c) :: nat) < 128"
  by (auto simp: upper_char_def Let_def of_char_of)

lemma is_ascii_upper: "is_ascii s \<Longrightarrow> is_ascii (map upper_char s)"
  by (auto simp: is_ascii_def list_all_iff upper_char_ascii)

section \<open>strconv\<close>

definition digit_value :: "char \<Rightarrow> nat option" where
  "digit_value c = (let n = (of_char c :: nat) in if 48 \<le> n \<and> n \<le> 57 then Some (n - 48) else None)"

fun parse_digits :: "nat \<Rightarrow> string \<Rightarrow> nat option" where
  "parse_digits acc [] = Some acc"
| "parse_digits acc (c # cs) =
     (case digit_value c of None \<Rightarrow> None | Some d \<Rightarrow> parse_digits (10 * acc + d) cs)"

definition parse_magnitude :: "string \<Rightarrow> nat option" where
  "parse_magnitude s = (if s = [] then None else parse_digits 0 s)"

text \<open>\<open>strconv.ParseInt(s, 10, 64)\<close> and \<open>strconv.Atoi\<close> on a 64-bit platform: None is the error.\<close>

definition ParseInt :: "string \<Rightarrow> int option" where
  "ParseInt s =
     (let neg = (s \<noteq> [] \<and> hd s = CHR ''-'');
          digits = (if s \<noteq> [] \<and> (hd s = CHR ''-'' \<or> hd s = CHR ''+'') then tl s else s)
      in case parse_magnitude digits of
           None \<Rightarrow> None
         | Some n \<Rightarrow>
             if \<not> neg \<and> int n \<ge> 2 ^ 63 then None
             else if neg \<and> int n > 2 ^ 63 then None
             else Some (if neg then - int n else int n))"

fun show_nat :: "nat \<Rightarrow> string" where
  "show_nat n = (if n < 10 then [char_of (n + 48)] else show_nat (n div 10) @ [char_of (n mod 10 + 48)])"

declare show_nat.simps [simp del]

definition Itoa :: "int \<Rightarrow> string" where
  "Itoa i = (if i < 0 then CHR ''-'' # show_nat (nat (- i)) else show_nat (nat i))"

lemma digit_value_digit: "d < 10 \<Longrightarrow> digit_value (char_of (d + 48)) = Some d"
  by (simp add: digit_value_def of_char_of)

lemma parse_digits_append:
  "parse_digits acc (xs @ ys) = (case parse_digits acc xs of None \<Rightarrow> None | Some a \<Rightarrow> parse_digits a ys)"
  by (induction acc xs rule: parse_digits.induct) (auto split: option.splits)

lemma parse_show_nat: "parse_digits 0 (show_nat n) = Some n"
proof (induction n rule: show_nat.induct)
  case (1 n)
  show ?case
  proof (cases "n < 10")
    case True
    then show ?thesis by (simp add: show_nat.simps [of n] digit_value_digit)
  next
    case False
    with 1 have "parse_digits 0 (show_nat (n div 10)) = Some (n div 10)" by simp
    with False show ?thesis
      by (simp add: show_nat.simps [of n] parse_digits_append digit_value_digit)
  qed
qed

lemma show_nat_nonempty [simp]: "show_nat n \<noteq> []"
  by (subst show_nat.simps) simp

lemma show_nat_digits: "c \<in> set (show_nat n) \<Longrightarrow> 48 \<le> (of_char c :: nat) \<and> (of_char c :: nat) \<le> 57"
proof (induction n rule: show_nat.induct)
  case (1 n)
  then show ?case
    by (cases "n < 10") (auto simp: show_nat.simps [of n] of_char_of)
qed

lemma show_nat_no_sign: "hd (show_nat n) \<noteq> CHR ''-'' \<and> hd (show_nat n) \<noteq> CHR ''+''"
  using show_nat_digits [of "hd (show_nat n)" n] by auto

text \<open>Printing and parsing a 64-bit integer is the identity.\<close>

lemma ParseInt_Itoa: "- (2 ^ 63) \<le> i \<Longrightarrow> i < 2 ^ 63 \<Longrightarrow> ParseInt (Itoa i) = Some i"
  using show_nat_no_sign [of "nat i"]
  by (auto simp: ParseInt_def Itoa_def parse_magnitude_def parse_show_nat Let_def)

lemma ParseInt_range: "ParseInt s = Some i \<Longrightarrow> - (2 ^ 63) \<le> i \<and> i < 2 ^ 63"
  by (auto simp: ParseInt_def Let_def split: option.splits if_splits)

end
