(* ===== verification/Contracts.thy ===== *)
theory Contracts
  imports GoStd
begin

text \<open>
  The shared vocabulary of the services: \<open>internal/contracts/contracts.go\<close>. The
  Go enumerations are string types (\<open>type PaymentStatus string\<close>), and values outside
  the named constants do occur (an unvalidated webhook, \<open>NOT_RECEIVED\<close> in a status
  read), so they stay strings here, with one constant per Go constant. The constants
  are kept folded in proofs and told apart by \<open>status_distinct\<close>.
\<close>

section \<open>Errors\<close>

text \<open>
  Go errors as values: the sentinels of the package, a failed database call, a
  message with its arguments, a wrapped error (\<open>fmt.Errorf("...: %w", ..., err)\<close>), a
  transport error of \<open>net/http\<close> by what \<open>errors.Is\<close>/\<open>errors.As\<close> find in it, and the
  SAP client's \<open>requestError\<close>.
\<close>

datatype sentinel =
    ErrPaymentFinalized
  | ErrOrderPayloadConflict
  | ErrPaymentPayloadConflict
  | ErrDigitalCancellation
  | ErrOrderCannotCancel

datatype db_error =
    CheckViolation string
  | UniqueViolation string
  | ForeignKeyViolation string
  | OutOfRange string
  | InvalidText
  | IndexRowSize
  | NullScan string
  | Connection string

datatype arg = ArgS string | ArgD int

record transport_error =
  is_canceled :: bool
  is_deadline_exceeded :: bool
  is_unexpected_eof :: bool
  is_op_error :: bool
  is_dns_error :: bool
  is_net_error :: bool
  net_timeout :: bool

datatype go_error =
    Sentinel sentinel
  | DbError db_error
  | Errorf string "arg list"
  | Wrapf string "arg list" go_error
  | Transport transport_error
  | RequestError go_error bool int bool

text \<open>\<open>errors.Is(err, sentinel)\<close>: the sentinel is somewhere in the chain of \<open>Unwrap\<close>.\<close>

fun errors_is :: "go_error \<Rightarrow> sentinel \<Rightarrow> bool" where
  "errors_is (Sentinel x) y \<longleftrightarrow> x = y"
| "errors_is (Wrapf f args e) y \<longleftrightarrow> errors_is e y"
| "errors_is (RequestError e r d h) y \<longleftrightarrow> errors_is e y"
| "errors_is (DbError d) y \<longleftrightarrow> False"
| "errors_is (Errorf f args) y \<longleftrightarrow> False"
| "errors_is (Transport t) y \<longleftrightarrow> False"

section \<open>Enumerations\<close>

type_synonym EventType = string
type_synonym PaymentStatus = string
type_synonym SyncStatus = string
type_synonym OrderState = string

definition EventTypeShop :: EventType where "EventTypeShop = ''SHOP''"
definition EventTypePayment :: EventType where "EventTypePayment = ''PAYMENT''"

definition PaymentStatusPending :: PaymentStatus where "PaymentStatusPending = ''PENDING''"
definition PaymentStatusCompleted :: PaymentStatus where "PaymentStatusCompleted = ''COMPLETED''"
definition PaymentStatusFailed :: PaymentStatus where "PaymentStatusFailed = ''FAILED''"
definition PaymentStatusCancelled :: PaymentStatus where "PaymentStatusCancelled = ''CANCELLED''"

definition SyncStatusPending :: SyncStatus where "SyncStatusPending = ''PENDING''"
definition SyncStatusProcessing :: SyncStatus where "SyncStatusProcessing = ''PROCESSING''"
definition SyncStatusSynced :: SyncStatus where "SyncStatusSynced = ''SYNCED''"
definition SyncStatusWaiting :: SyncStatus where "SyncStatusWaiting = ''WAITING''"
definition SyncStatusDead :: SyncStatus where "SyncStatusDead = ''DEAD''"
definition SyncStatusCancelled :: SyncStatus where "SyncStatusCancelled = ''CANCELLED''"

definition OrderStatePending :: OrderState where "OrderStatePending = ''PENDING''"
definition OrderStatePaid :: OrderState where "OrderStatePaid = ''PAID''"
definition OrderStateCancelled :: OrderState where "OrderStateCancelled = ''CANCELLED''"

lemmas event_type_defs = EventTypeShop_def EventTypePayment_def

lemmas payment_status_defs =
  PaymentStatusPending_def PaymentStatusCompleted_def PaymentStatusFailed_def
  PaymentStatusCancelled_def

lemmas sync_status_defs =
  SyncStatusPending_def SyncStatusProcessing_def SyncStatusSynced_def SyncStatusWaiting_def
  SyncStatusDead_def SyncStatusCancelled_def

lemmas order_state_defs = OrderStatePending_def OrderStatePaid_def OrderStateCancelled_def

lemma event_type_distinct [simp]:
  "EventTypeShop \<noteq> EventTypePayment" "EventTypePayment \<noteq> EventTypeShop"
  by (simp_all add: event_type_defs)

lemma payment_status_distinct [simp]:
  "PaymentStatusPending \<noteq> PaymentStatusCompleted" "PaymentStatusCompleted \<noteq> PaymentStatusPending"
  "PaymentStatusPending \<noteq> PaymentStatusFailed" "PaymentStatusFailed \<noteq> PaymentStatusPending"
  "PaymentStatusPending \<noteq> PaymentStatusCancelled" "PaymentStatusCancelled \<noteq> PaymentStatusPending"
  "PaymentStatusCompleted \<noteq> PaymentStatusFailed" "PaymentStatusFailed \<noteq> PaymentStatusCompleted"
  "PaymentStatusCompleted \<noteq> PaymentStatusCancelled" "PaymentStatusCancelled \<noteq> PaymentStatusCompleted"
  "PaymentStatusFailed \<noteq> PaymentStatusCancelled" "PaymentStatusCancelled \<noteq> PaymentStatusFailed"
  by (simp_all add: payment_status_defs)

lemma sync_status_distinct [simp]:
  "SyncStatusPending \<noteq> SyncStatusProcessing" "SyncStatusProcessing \<noteq> SyncStatusPending"
  "SyncStatusPending \<noteq> SyncStatusSynced" "SyncStatusSynced \<noteq> SyncStatusPending"
  "SyncStatusPending \<noteq> SyncStatusWaiting" "SyncStatusWaiting \<noteq> SyncStatusPending"
  "SyncStatusPending \<noteq> SyncStatusDead" "SyncStatusDead \<noteq> SyncStatusPending"
  "SyncStatusPending \<noteq> SyncStatusCancelled" "SyncStatusCancelled \<noteq> SyncStatusPending"
  "SyncStatusProcessing \<noteq> SyncStatusSynced" "SyncStatusSynced \<noteq> SyncStatusProcessing"
  "SyncStatusProcessing \<noteq> SyncStatusWaiting" "SyncStatusWaiting \<noteq> SyncStatusProcessing"
  "SyncStatusProcessing \<noteq> SyncStatusDead" "SyncStatusDead \<noteq> SyncStatusProcessing"
  "SyncStatusProcessing \<noteq> SyncStatusCancelled" "SyncStatusCancelled \<noteq> SyncStatusProcessing"
  "SyncStatusSynced \<noteq> SyncStatusWaiting" "SyncStatusWaiting \<noteq> SyncStatusSynced"
  "SyncStatusSynced \<noteq> SyncStatusDead" "SyncStatusDead \<noteq> SyncStatusSynced"
  "SyncStatusSynced \<noteq> SyncStatusCancelled" "SyncStatusCancelled \<noteq> SyncStatusSynced"
  "SyncStatusWaiting \<noteq> SyncStatusDead" "SyncStatusDead \<noteq> SyncStatusWaiting"
  "SyncStatusWaiting \<noteq> SyncStatusCancelled" "SyncStatusCancelled \<noteq> SyncStatusWaiting"
  "SyncStatusDead \<noteq> SyncStatusCancelled" "SyncStatusCancelled \<noteq> SyncStatusDead"
  by (simp_all add: sync_status_defs)

lemma order_state_distinct [simp]:
  "OrderStatePending \<noteq> OrderStatePaid" "OrderStatePaid \<noteq> OrderStatePending"
  "OrderStatePending \<noteq> OrderStateCancelled" "OrderStateCancelled \<noteq> OrderStatePending"
  "OrderStatePaid \<noteq> OrderStateCancelled" "OrderStateCancelled \<noteq> OrderStatePaid"
  by (simp_all add: order_state_defs)

section \<open>Data\<close>

text \<open>
  A price is a Go \<open>float64\<close> read from JSON, so never NaN or infinite. It is represented
  by the shortest decimal that reads back as that float (as \<open>strconv.FormatFloat(x,
  'f', -1, 64)\<close> prints it), an exact rational; two such floats are equal or ordered
  exactly when their decimals are. Instants (\<open>time.Time\<close>) and durations are integers in
  nanoseconds; the text layouts of \<open>time.Format\<close> are not modelled, a formatted instant
  is the instant.
\<close>

type_synonym time = int

record OrderItem =
  SKU :: string
  Quantity :: int
  Price :: rat
  IsHardware :: "bool option"

record StoredOrder =
  so_ID :: int
  so_CustomerEmail :: string
  so_Items :: "OrderItem list"

record WebhookResult =
  wr_Duplicate :: bool
  wr_Message :: string
  wr_EventID :: string
  wr_OrderID :: string
  wr_PaymentStatus :: PaymentStatus
  wr_OrderStatus :: OrderState
  wr_SyncStatus :: SyncStatus

text \<open>The zero value of the struct with the three fields every result sets.\<close>

definition webhook_result :: "string \<Rightarrow> string \<Rightarrow> string \<Rightarrow> WebhookResult" where
  "webhook_result message eventID orderID =
     \<lparr>wr_Duplicate = False, wr_Message = message, wr_EventID = eventID, wr_OrderID = orderID,
      wr_PaymentStatus = [], wr_OrderStatus = [], wr_SyncStatus = []\<rparr>"

datatype path_element = PathField string | PathIndex nat

record ValidationIssue =
  vi_Code :: string
  vi_Path :: "path_element list"
  vi_Message :: string

record OrderStatus =
  os_OrderID :: string
  os_CustomerEmail :: string
  os_Status :: OrderState
  os_PaymentStatus :: PaymentStatus
  os_PaidAt :: "string option"
  os_SyncStatus :: SyncStatus
  os_DueAt :: "string option"
  os_Attempts :: "int option"
  os_LastError :: "string option"
  os_SAPInternalID :: "string option"

record PaymentState =
  ps_ID :: int
  ps_ReferenceOrderID :: string
  ps_OrderID :: "int option"
  ps_Status :: PaymentStatus
  ps_PaidAt :: "time option"
  ps_CreatedAt :: time
  ps_UpdatedAt :: time

section \<open>The webhook payloads\<close>

text \<open>
  \<open>shop.Webhook\<close> and \<open>payment.Webhook\<close>. They are declared here because the event table
  stores both. The JSONB column keeps a marshalled payload; what the program reads back
  from it is a \<open>payment.Webhook\<close> (\<open>json.Unmarshal\<close>) and the \<open>reference_order_id\<close> key.
  Decoding the marshalled shop payload as a payment payload keeps the shared key
  \<open>event_id\<close> and leaves the others empty.
\<close>

record shop_Webhook =
  sw_EventID :: string
  sw_OrderID :: string
  sw_CustomerEmail :: string
  sw_Items :: "OrderItem list"

record payment_Webhook =
  pw_EventID :: string
  pw_ReferenceOrderID :: string
  pw_PaymentStatus :: PaymentStatus
  pw_Timestamp :: string

datatype event_payload = ShopPayload shop_Webhook | PaymentPayload payment_Webhook

fun unmarshal_payment :: "event_payload \<Rightarrow> payment_Webhook" where
  "unmarshal_payment (PaymentPayload w) = w"
| "unmarshal_payment (ShopPayload w) =
     \<lparr>pw_EventID = sw_EventID w, pw_ReferenceOrderID = [], pw_PaymentStatus = [], pw_Timestamp = []\<rparr>"

fun payload_reference_order_id :: "event_payload \<Rightarrow> string option" where
  "payload_reference_order_id (PaymentPayload w) = Some (pw_ReferenceOrderID w)"
| "payload_reference_order_id (ShopPayload w) = None"

end
