(* ===== verification/Database.thy ===== *)
theory Database
  imports Contracts
begin

text \<open>
  The PostgreSQL schema (\<open>migrations/001_initial.sql\<close>) and the statements of
  \<open>internal/infrastructure/postgres/queries\<close> as functions on the tables. A table is the
  list of its rows in insertion order; a \<open>BIGSERIAL\<close> column draws from a sequence, kept
  beside the tables because a rollback does not give its values back. A statement takes
  \<open>NOW()\<close> and the database and returns an error of the server or a result and the new
  database. Columns that no statement of the program reads (the surrogate key of
  \<open>order_items\<close>, the timestamps of \<open>sku_classifications\<close>) are left out.
\<close>

section \<open>Tables\<close>

record order_row =
  o_id :: int
  o_order_id :: string
  o_customer_email :: string
  o_payment_status :: OrderState
  o_sap_id :: "string option"
  o_paid_at :: "time option"
  o_created_at :: time
  o_updated_at :: time

record item_row =
  i_order_id :: int
  i_sku :: string
  i_quantity :: int
  i_price :: rat
  i_is_hardware :: "bool option"

record event_row =
  e_event_id :: string
  e_event_type :: EventType
  e_payload :: event_payload
  e_processed_at :: "time option"
  e_created_at :: time

record payment_row =
  p_id :: int
  p_reference_order_id :: string
  p_order_id :: "int option"
  p_status :: PaymentStatus
  p_paid_at :: "time option"
  p_created_at :: time
  p_updated_at :: time

record job_row =
  j_id :: int
  j_order_id :: int
  j_status :: SyncStatus
  j_due_at :: time
  j_attempts :: int
  j_locked_at :: "time option"
  j_waiting_since :: "time option"
  j_last_error :: "string option"
  j_sap_internal_id :: "string option"
  j_synced_at :: "time option"
  j_created_at :: time
  j_updated_at :: time

record pg =
  orders :: "order_row list"
  order_items :: "item_row list"
  sku_classifications :: "(string \<times> string) list"
  webhook_events :: "event_row list"
  payments :: "payment_row list"
  sync_jobs :: "job_row list"
  orders_seq :: int
  payments_seq :: int
  sync_jobs_seq :: int

text \<open>The freshly migrated database: empty tables and the seeded SKU catalogue.\<close>

definition seeded_skus :: "(string \<times> string) list" where
  "seeded_skus =
     [(''NUKI-SL3'', ''HARDWARE''), (''NUKI-BRIDGE'', ''HARDWARE''), (''NUKI-SMART-HOSTING'', ''DIGITAL'')]"

definition empty_pg :: pg where
  "empty_pg =
     \<lparr>orders = [], order_items = [], sku_classifications = seeded_skus, webhook_events = [],
      payments = [], sync_jobs = [], orders_seq = 0, payments_seq = 0, sync_jobs_seq = 0\<rparr>"

text \<open>A rollback restores every table; the sequences keep the values they have reached.\<close>

definition rollback :: "pg \<Rightarrow> pg \<Rightarrow> pg" where
  "rollback before after =
     before\<lparr>orders_seq := orders_seq after, payments_seq := payments_seq after,
            sync_jobs_seq := sync_jobs_seq after\<rparr>"

definition same_tables :: "pg \<Rightarrow> pg \<Rightarrow> bool" where
  "same_tables g h \<longleftrightarrow>
     orders g = orders h \<and> order_items g = order_items h \<and>
     sku_classifications g = sku_classifications h \<and> webhook_events g = webhook_events h \<and>
     payments g = payments h \<and> sync_jobs g = sync_jobs h"

lemma same_tables_rollback [simp]: "same_tables (rollback g h) g"
  by (simp add: same_tables_def rollback_def)

lemma same_tables_refl [simp]: "same_tables g g"
  by (simp add: same_tables_def)

section \<open>Column types\<close>

definition nanosecond :: int where "nanosecond = 1"
definition microsecond :: int where "microsecond = 1000"
definition millisecond :: int where "millisecond = 1000000"
definition second :: int where "second = 1000000000"

lemmas duration_defs = nanosecond_def microsecond_def millisecond_def second_def

text \<open>\<open>TIMESTAMPTZ\<close> keeps microseconds.\<close>

definition timestamptz :: "time \<Rightarrow> time" where
  "timestamptz t = t - t mod microsecond"

lemma timestamptz_idem [simp]: "timestamptz (timestamptz t) = timestamptz t"
  by (simp add: timestamptz_def microsecond_def minus_mod_eq_div_mult)

text \<open>
  \<open>NUMERIC(12, 2)\<close> rounds to two fractional digits, ties away from zero, and refuses a
  value whose rounding needs more than ten digits before the point. Read back with
  \<open>::float8\<close>, a value of at most twelve significant digits is the same decimal.
\<close>

definition numeric_12_2 :: "rat \<Rightarrow> rat option" where
  "numeric_12_2 p =
     (let cents = sgn p * of_int \<lfloor>\<bar>p\<bar> * 100 + 1 / 2\<rfloor>
      in if \<bar>cents\<bar> < 10 ^ 12 then Some (cents / 100) else None)"

definition int4_ok :: "int \<Rightarrow> bool" where
  "int4_ok n \<longleftrightarrow> - (2 ^ 31) \<le> n \<and> n < 2 ^ 31"

text \<open>
  \<open>TEXT\<close>, in a UTF-8 database: the bytes must be UTF-8 without the zero byte, and \<open>JSONB\<close> refuses
  the zero character in its strings. The strings of a payload come from the JSON decoder, which
  yields valid UTF-8; a path parameter need not be.
\<close>

definition continuation :: "int \<Rightarrow> bool" where
  "continuation b \<longleftrightarrow> 0x80 \<le> b \<and> b \<le> 0xBF"

fun utf8_ok :: "int list \<Rightarrow> bool" where
  "utf8_ok [] \<longleftrightarrow> True"
| "utf8_ok (a # s) \<longleftrightarrow>
     (if 0x01 \<le> a \<and> a \<le> 0x7F then utf8_ok s
      else case s of
        [] \<Rightarrow> False
      | b # t \<Rightarrow>
          if 0xC2 \<le> a \<and> a \<le> 0xDF then continuation b \<and> utf8_ok t
          else case t of
            [] \<Rightarrow> False
          | c # u \<Rightarrow>
              if 0xE0 \<le> a \<and> a \<le> 0xEF then
                (if a = 0xE0 then 0xA0 \<le> b \<and> b \<le> 0xBF else if a = 0xED then 0x80 \<le> b \<and> b \<le> 0x9F else continuation b) \<and>
                continuation c \<and> utf8_ok u
              else case u of
                [] \<Rightarrow> False
              | d # v \<Rightarrow>
                  0xF0 \<le> a \<and> a \<le> 0xF4 \<and>
                  (if a = 0xF0 then 0x90 \<le> b \<and> b \<le> 0xBF else if a = 0xF4 then 0x80 \<le> b \<and> b \<le> 0x8F else continuation b) \<and>
                  continuation c \<and> continuation d \<and> utf8_ok v)"

definition text_ok :: "string \<Rightarrow> bool" where
  "text_ok s \<longleftrightarrow> utf8_ok (map of_char s)"

text \<open>
  A btree refuses a row that takes more than about 2700 bytes after compression. Which texts that
  concerns is the server's business, so it is an argument: whether it can form the index row of a
  list of texts.
\<close>

type_synonym index_rule = "string list \<Rightarrow> bool"

text \<open>
  \<open>NOW() + (delay * INTERVAL '1 second')\<close>: an interval counts microseconds in 64 bits, and the last
  timestamp is before the year 294277.
\<close>

definition timestamp_end :: time where
  "timestamp_end = 9224318016000 * second"

definition due_ok :: "time \<Rightarrow> int \<Rightarrow> bool" where
  "due_ok now delay \<longleftrightarrow> delay * 10 ^ 6 < 2 ^ 63 \<and> now + delay * second < timestamp_end"

section \<open>Statements\<close>

type_synonym 'a query = "time \<Rightarrow> pg \<Rightarrow> db_error + ('a \<times> pg)"

definition select :: "(pg \<Rightarrow> 'a) \<Rightarrow> 'a query" where
  "select f now g = Inr (f g, g)"

subsection \<open>Webhook events\<close>

text \<open>
  The texts of a payload, and the one of them that has an index of its own (\<open>payload->>'order_id'\<close>,
  \<open>payload->>'reference_order_id'\<close>). \<open>InsertEvent\<close> is the first statement of every webhook
  transaction and sees all of them, so the later statements are not checked for texts that they
  only compare.
\<close>

fun payload_texts :: "event_payload \<Rightarrow> string list" where
  "payload_texts (ShopPayload p) = sw_EventID p # sw_OrderID p # sw_CustomerEmail p # map SKU (sw_Items p)"
| "payload_texts (PaymentPayload p) = [pw_EventID p, pw_ReferenceOrderID p, pw_PaymentStatus p, pw_Timestamp p]"

fun payload_key :: "event_payload \<Rightarrow> string" where
  "payload_key (ShopPayload p) = sw_OrderID p"
| "payload_key (PaymentPayload p) = pw_ReferenceOrderID p"

definition event_text_ok :: "string \<Rightarrow> event_payload \<Rightarrow> bool" where
  "event_text_ok eventID payload \<longleftrightarrow> list_all text_ok (eventID # payload_texts payload)"

definition InsertEvent :: "index_rule \<Rightarrow> string \<Rightarrow> EventType \<Rightarrow> event_payload \<Rightarrow> string option query" where
  "InsertEvent index_row eventID eventType payload now g =
     (if \<not> event_text_ok eventID payload then Inl InvalidText
      else if \<exists>r \<in> set (webhook_events g). e_event_type r = eventType \<and> e_event_id r = eventID
      then Inr (None, g)
      else if \<not> index_row [eventType, eventID] \<or> \<not> index_row [payload_key payload] then Inl IndexRowSize
      else Inr (Some eventID, g\<lparr>webhook_events := webhook_events g @
        [\<lparr>e_event_id = eventID, e_event_type = eventType, e_payload = payload,
          e_processed_at = None, e_created_at = now\<rparr>]\<rparr>))"

definition FindEventPayload :: "EventType \<Rightarrow> string \<Rightarrow> event_payload option query" where
  "FindEventPayload eventType eventID = select (\<lambda>g.
     map_option e_payload
       (List.find (\<lambda>r. e_event_type r = eventType \<and> e_event_id r = eventID) (webhook_events g)))"

definition MarkEventProcessed :: "EventType \<Rightarrow> string \<Rightarrow> unit query" where
  "MarkEventProcessed eventType eventID now g =
     Inr ((), g\<lparr>webhook_events := update_where
       (\<lambda>r. e_event_type r = eventType \<and> e_event_id r = eventID)
       (\<lambda>r. r\<lparr>e_processed_at := Some now\<rparr>) (webhook_events g)\<rparr>)"

definition q_MarkPaymentEventsProcessed :: "string \<Rightarrow> unit query" where
  "q_MarkPaymentEventsProcessed orderID now g =
     Inr ((), g\<lparr>webhook_events := update_where
       (\<lambda>r. e_event_type r = EventTypePayment \<and> payload_reference_order_id (e_payload r) = Some orderID
            \<and> e_processed_at r = None)
       (\<lambda>r. r\<lparr>e_processed_at := Some now\<rparr>) (webhook_events g)\<rparr>)"

subsection \<open>Orders\<close>

definition find_order_row :: "pg \<Rightarrow> string \<Rightarrow> order_row option" where
  "find_order_row g orderID = List.find (\<lambda>r. o_order_id r = orderID) (orders g)"

definition order_exists :: "pg \<Rightarrow> int \<Rightarrow> bool" where
  "order_exists g i \<longleftrightarrow> (\<exists>r \<in> set (orders g). o_id r = i)"

definition InsertOrder :: "index_rule \<Rightarrow> string \<Rightarrow> string \<Rightarrow> int option query" where
  "InsertOrder index_row orderID customerEmail now g =
     (let i = orders_seq g + 1 in
      if \<not> text_ok orderID \<or> \<not> text_ok customerEmail then Inl InvalidText
      else if \<exists>r \<in> set (orders g). o_order_id r = orderID
      then Inr (None, g\<lparr>orders_seq := i\<rparr>)
      else if \<not> index_row [orderID] then Inl IndexRowSize
      else Inr (Some i, g\<lparr>orders_seq := i, orders := orders g @
        [\<lparr>o_id = i, o_order_id = orderID, o_customer_email = customerEmail,
          o_payment_status = OrderStatePending, o_sap_id = None, o_paid_at = None,
          o_created_at = now, o_updated_at = now\<rparr>]\<rparr>))"

definition InsertItem :: "int \<Rightarrow> OrderItem \<Rightarrow> unit query" where
  "InsertItem i item now g =
     (if \<not> text_ok (SKU item) then Inl InvalidText
      else if \<not> int4_ok (Quantity item) then Inl (OutOfRange ''quantity'')
      else case numeric_12_2 (Price item) of
        None \<Rightarrow> Inl (OutOfRange ''price'')
      | Some price \<Rightarrow>
          if Quantity item \<le> 0 then Inl (CheckViolation ''quantity'')
          else if price < 0 then Inl (CheckViolation ''price'')
          else if \<not> order_exists g i then Inl (ForeignKeyViolation ''order_id'')
          else Inr ((), g\<lparr>order_items := order_items g @
            [\<lparr>i_order_id = i, i_sku = SKU item, i_quantity = Quantity item, i_price = price,
              i_is_hardware = IsHardware item\<rparr>]\<rparr>))"

definition FindOrderID :: "string \<Rightarrow> int option query" where
  "FindOrderID orderID = select (\<lambda>g. map_option o_id (find_order_row g orderID))"

definition FindOrder :: "string \<Rightarrow> (int \<times> string) option query" where
  "FindOrder orderID = select (\<lambda>g. map_option (\<lambda>r. (o_id r, o_customer_email r)) (find_order_row g orderID))"

definition item_of_row :: "item_row \<Rightarrow> OrderItem" where
  "item_of_row r = \<lparr>SKU = i_sku r, Quantity = i_quantity r, Price = i_price r, IsHardware = i_is_hardware r\<rparr>"

definition items_of_order :: "pg \<Rightarrow> int \<Rightarrow> OrderItem list" where
  "items_of_order g i = map item_of_row (filter (\<lambda>r. i_order_id r = i) (order_items g))"

definition FindItems :: "int \<Rightarrow> OrderItem list query" where
  "FindItems i = select (\<lambda>g. items_of_order g i)"

text \<open>The two \<open>LEFT JOIN\<close>s: at most one payment and one job carry the order's id.\<close>

definition payment_of_order :: "pg \<Rightarrow> int \<Rightarrow> payment_row option" where
  "payment_of_order g i = List.find (\<lambda>p. p_order_id p = Some i) (payments g)"

definition job_of_order :: "pg \<Rightarrow> int \<Rightarrow> job_row option" where
  "job_of_order g i = List.find (\<lambda>j. j_order_id j = i) (sync_jobs g)"

definition status_of_order :: "pg \<Rightarrow> order_row \<Rightarrow> OrderStatus" where
  "status_of_order g r =
     (let p = payment_of_order g (o_id r); j = job_of_order g (o_id r) in
      \<lparr>os_OrderID = o_order_id r, os_CustomerEmail = o_customer_email r, os_Status = o_payment_status r,
       os_PaymentStatus = (case p of None \<Rightarrow> ''NOT_RECEIVED'' | Some x \<Rightarrow> p_status x),
       os_PaidAt = None,
       os_SyncStatus = (case j of None \<Rightarrow> ''NOT_SCHEDULED'' | Some x \<Rightarrow> j_status x),
       os_DueAt = None, os_Attempts = map_option j_attempts j,
       os_LastError = Option.bind j j_last_error, os_SAPInternalID = o_sap_id r\<rparr>)"

text \<open>
  The two timestamps are scanned apart from the other columns. The order id may come from the path
  of a request as it is.
\<close>

definition FindStatus :: "string \<Rightarrow> (OrderStatus \<times> time option \<times> time option) option query" where
  "FindStatus orderID now g =
     (if \<not> text_ok orderID then Inl InvalidText
      else Inr (map_option (\<lambda>r. (status_of_order g r, o_paid_at r, map_option j_due_at (job_of_order g (o_id r))))
        (find_order_row g orderID), g))"

definition MarkPaid :: "int \<Rightarrow> time \<Rightarrow> unit query" where
  "MarkPaid i paidAt now g =
     Inr ((), g\<lparr>orders := update_where (\<lambda>r. o_id r = i)
       (\<lambda>r. r\<lparr>o_payment_status := OrderStatePaid, o_paid_at := Some (timestamptz paidAt),
              o_updated_at := now\<rparr>) (orders g)\<rparr>)"

definition new_job :: "int \<Rightarrow> int \<Rightarrow> time \<Rightarrow> time \<Rightarrow> job_row" where
  "new_job jid i due now =
     \<lparr>j_id = jid, j_order_id = i, j_status = SyncStatusPending, j_due_at = due, j_attempts = 0,
      j_locked_at = None, j_waiting_since = None, j_last_error = None, j_sap_internal_id = None,
      j_synced_at = None, j_created_at = now, j_updated_at = now\<rparr>"

definition ScheduleSync :: "int \<Rightarrow> int \<Rightarrow> unit query" where
  "ScheduleSync i delay now g =
     (let jid = sync_jobs_seq g + 1; g' = g\<lparr>sync_jobs_seq := jid\<rparr> in
      if \<not> due_ok now delay then Inl (OutOfRange ''due_at'')
      else if \<exists>j \<in> set (sync_jobs g). j_order_id j = i then Inr ((), g')
      else if \<not> order_exists g i then Inl (ForeignKeyViolation ''order_id'')
      else Inr ((), g'\<lparr>sync_jobs := sync_jobs g @ [new_job jid i (now + delay * second) now]\<rparr>))"

definition cancellable :: "SyncStatus \<Rightarrow> bool" where
  "cancellable s \<longleftrightarrow> s = SyncStatusPending \<or> s = SyncStatusWaiting \<or> s = SyncStatusDead"

definition CancelOrder :: "int \<Rightarrow> int option query" where
  "CancelOrder i = select (\<lambda>g.
     if order_exists g i \<and> \<not> (\<exists>j \<in> set (sync_jobs g). j_order_id j = i \<and> \<not> cancellable (j_status j))
     then Some i else None)"

definition MarkCancelledOrder :: "int \<Rightarrow> unit query" where
  "MarkCancelledOrder i now g =
     Inr ((), g\<lparr>orders := update_where (\<lambda>r. o_id r = i)
       (\<lambda>r. r\<lparr>o_payment_status := OrderStateCancelled, o_updated_at := now\<rparr>) (orders g)\<rparr>)"

definition CancelJob :: "int \<Rightarrow> unit query" where
  "CancelJob i now g =
     Inr ((), g\<lparr>sync_jobs := update_where (\<lambda>j. j_order_id j = i \<and> cancellable (j_status j))
       (\<lambda>j. j\<lparr>j_status := SyncStatusCancelled, j_locked_at := None, j_due_at := now,
              j_updated_at := now\<rparr>) (sync_jobs g)\<rparr>)"

subsection \<open>Payments\<close>

definition payment_status_ok :: "PaymentStatus \<Rightarrow> bool" where
  "payment_status_ok s \<longleftrightarrow>
     s = PaymentStatusPending \<or> s = PaymentStatusCompleted \<or> s = PaymentStatusFailed \<or> s = PaymentStatusCancelled"

definition state_of_payment :: "payment_row \<Rightarrow> PaymentState" where
  "state_of_payment r =
     \<lparr>ps_ID = p_id r, ps_ReferenceOrderID = p_reference_order_id r, ps_OrderID = p_order_id r,
      ps_Status = p_status r, ps_PaidAt = p_paid_at r, ps_CreatedAt = p_created_at r,
      ps_UpdatedAt = p_updated_at r\<rparr>"

definition find_payment_row :: "pg \<Rightarrow> string \<Rightarrow> payment_row option" where
  "find_payment_row g ref = List.find (\<lambda>r. p_reference_order_id r = ref) (payments g)"

text \<open>\<open>order_id BIGINT UNIQUE REFERENCES orders(id)\<close> of table \<open>payments\<close>.\<close>

definition check_payment_order :: "pg \<Rightarrow> string \<Rightarrow> int option \<Rightarrow> db_error option" where
  "check_payment_order g ref orderID =
     (case orderID of
        None \<Rightarrow> None
      | Some i \<Rightarrow>
          if \<exists>r \<in> set (payments g). p_reference_order_id r \<noteq> ref \<and> p_order_id r = Some i
          then Some (UniqueViolation ''order_id'')
          else if \<not> order_exists g i then Some (ForeignKeyViolation ''order_id'')
          else None)"

definition finalized :: "PaymentStatus \<Rightarrow> bool" where
  "finalized s \<longleftrightarrow> s = PaymentStatusCompleted \<or> s = PaymentStatusCancelled"

text \<open>
  \<open>INSERT ... ON CONFLICT (reference_order_id) DO UPDATE SET ... WHERE status NOT IN
  ('COMPLETED', 'CANCELLED') RETURNING ...\<close>, shared by the two upserts: \<open>ins\<close> is the
  inserted row (given its id), \<open>upd\<close> the update of the conflicting row. No row is
  returned when the conflicting row is filtered out by the \<open>WHERE\<close> clause. The reference is a
  text with an index.
\<close>

definition upsert_payment_row ::
  "index_rule \<Rightarrow> string \<Rightarrow> (int \<Rightarrow> payment_row) \<Rightarrow> (payment_row \<Rightarrow> payment_row) \<Rightarrow> PaymentState option query" where
  "upsert_payment_row index_row ref ins upd now g =
     (let pid = payments_seq g + 1; g' = g\<lparr>payments_seq := pid\<rparr> in
      if \<not> text_ok ref then Inl InvalidText
      else if \<not> payment_status_ok (p_status (ins pid)) then Inl (CheckViolation ''status'')
      else case find_payment_row g ref of
        None \<Rightarrow>
          (case check_payment_order g ref (p_order_id (ins pid)) of
             Some err \<Rightarrow> Inl err
           | None \<Rightarrow>
               if \<not> index_row [ref] then Inl IndexRowSize
               else Inr (Some (state_of_payment (ins pid)), g'\<lparr>payments := payments g @ [ins pid]\<rparr>))
      | Some r \<Rightarrow>
          if finalized (p_status r) then Inr (None, g')
          else (case check_payment_order g ref (p_order_id (upd r)) of
             Some err \<Rightarrow> Inl err
           | None \<Rightarrow> Inr (Some (state_of_payment (upd r)),
               g'\<lparr>payments := update_where (\<lambda>x. p_reference_order_id x = ref) upd (payments g)\<rparr>)))"

definition coalesce :: "'a option \<Rightarrow> 'a option \<Rightarrow> 'a option" where
  "coalesce a b = (case a of None \<Rightarrow> b | Some x \<Rightarrow> Some x)"

definition new_payment ::
  "string \<Rightarrow> int option \<Rightarrow> PaymentStatus \<Rightarrow> time option \<Rightarrow> time \<Rightarrow> int \<Rightarrow> payment_row" where
  "new_payment ref orderID status paidAt now pid =
     \<lparr>p_id = pid, p_reference_order_id = ref, p_order_id = orderID, p_status = status,
      p_paid_at = map_option timestamptz paidAt, p_created_at = now, p_updated_at = now\<rparr>"

definition UpsertPayment ::
  "index_rule \<Rightarrow> string \<Rightarrow> int option \<Rightarrow> PaymentStatus \<Rightarrow> time option \<Rightarrow> PaymentState option query" where
  "UpsertPayment index_row ref orderID status paidAt now =
     upsert_payment_row index_row ref (new_payment ref orderID status paidAt now)
       (\<lambda>r. r\<lparr>p_order_id := coalesce (p_order_id r) orderID,
              p_status := (if p_status r = PaymentStatusCompleted then p_status r else status),
              p_paid_at := (if p_status r = PaymentStatusCompleted then p_paid_at r
                            else if status = PaymentStatusCompleted then map_option timestamptz paidAt
                            else p_paid_at r),
              p_updated_at := now\<rparr>) now"

definition FindPayment :: "string \<Rightarrow> PaymentState option query" where
  "FindPayment ref = select (\<lambda>g. map_option state_of_payment (find_payment_row g ref))"

definition LinkPaymentOrder :: "string \<Rightarrow> int \<Rightarrow> unit query" where
  "LinkPaymentOrder ref i now g =
     (if \<exists>r \<in> set (payments g). p_reference_order_id r = ref \<and> p_order_id r = None
      then case check_payment_order g ref (Some i) of
        Some err \<Rightarrow> Inl err
      | None \<Rightarrow> Inr ((), g\<lparr>payments := update_where (\<lambda>r. p_reference_order_id r = ref \<and> p_order_id r = None)
          (\<lambda>r. r\<lparr>p_order_id := Some i, p_updated_at := now\<rparr>) (payments g)\<rparr>)
      else Inr ((), g))"

definition CancelPayment :: "index_rule \<Rightarrow> string \<Rightarrow> int option \<Rightarrow> PaymentState option query" where
  "CancelPayment index_row ref orderID now =
     upsert_payment_row index_row ref (new_payment ref orderID PaymentStatusCancelled None now)
       (\<lambda>r. r\<lparr>p_order_id := coalesce (p_order_id r) orderID, p_status := PaymentStatusCancelled,
              p_updated_at := now\<rparr>) now"

subsection \<open>The SKU catalogue\<close>

definition HasHardwareSKU :: "string list \<Rightarrow> bool query" where
  "HasHardwareSKU skus = select (\<lambda>g. \<exists>(sku, category) \<in> set (sku_classifications g).
     category = ''HARDWARE'' \<and> sku \<in> set skus)"

subsection \<open>Synchronization jobs\<close>

definition stale_after :: int where "stale_after = 2 * 60 * second"

definition order_not_cancelled :: "pg \<Rightarrow> job_row \<Rightarrow> bool" where
  "order_not_cancelled g j \<longleftrightarrow>
     (\<exists>r \<in> set (orders g). o_id r = j_order_id j \<and> o_payment_status r \<noteq> OrderStateCancelled)"

definition scheduled :: "job_row \<Rightarrow> bool" where
  "scheduled j \<longleftrightarrow> j_status j = SyncStatusPending \<or> j_status j = SyncStatusWaiting"

definition claimable :: "time \<Rightarrow> pg \<Rightarrow> job_row \<Rightarrow> bool" where
  "claimable now g j \<longleftrightarrow>
     order_not_cancelled g j \<and>
     ((scheduled j \<and> j_due_at j \<le> now) \<or>
      (j_status j = SyncStatusProcessing \<and>
       (case j_locked_at j of None \<Rightarrow> False | Some l \<Rightarrow> l \<le> now - stale_after)))"

definition claim_key :: "job_row \<Rightarrow> time" where
  "claim_key j = (if scheduled j then j_due_at j
                  else case j_locked_at j of None \<Rightarrow> 0 | Some l \<Rightarrow> l + stale_after)"

text \<open>\<open>ORDER BY key LIMIT 1\<close>; rows with the same key come in table order.\<close>

fun first_min :: "('a \<Rightarrow> int) \<Rightarrow> 'a list \<Rightarrow> 'a option" where
  "first_min k [] = None"
| "first_min k (x # xs) =
     (case first_min k xs of None \<Rightarrow> Some x | Some y \<Rightarrow> if k y < k x then Some y else Some x)"

text \<open>\<open>FOR UPDATE OF j SKIP LOCKED\<close>: rows another transaction has locked are passed over.\<close>

definition claim_candidate :: "int list \<Rightarrow> time \<Rightarrow> pg \<Rightarrow> job_row option" where
  "claim_candidate locked now g =
     first_min claim_key (filter (\<lambda>j. claimable now g j \<and> j_id j \<notin> set locked) (sync_jobs g))"

definition ClaimJob :: "int list \<Rightarrow> (job_row \<times> order_row) option query" where
  "ClaimJob locked now = select (\<lambda>g.
     Option.bind (claim_candidate locked now g)
       (\<lambda>j. map_option (Pair j) (List.find (\<lambda>r. o_id r = j_order_id j) (orders g)))) now"

definition job_wake :: "job_row \<Rightarrow> time option" where
  "job_wake j = (if scheduled j then Some (j_due_at j)
                 else if j_status j = SyncStatusProcessing then map_option (\<lambda>l. l + stale_after) (j_locked_at j)
                 else None)"

definition NextWake :: "time option query" where
  "NextWake = select (\<lambda>g.
     first_min id (List.map_filter job_wake (filter (order_not_cancelled g) (sync_jobs g))))"

definition lock_row :: "time \<Rightarrow> job_row \<Rightarrow> job_row" where
  "lock_row now j = j\<lparr>j_status := SyncStatusProcessing, j_locked_at := Some now,
     j_attempts := j_attempts j + 1, j_updated_at := now\<rparr>"

definition LockJob :: "int \<Rightarrow> unit query" where
  "LockJob jid now g =
     Inr ((), g\<lparr>sync_jobs := update_where (\<lambda>j. j_id j = jid) (lock_row now) (sync_jobs g)\<rparr>)"

definition JobItems :: "int \<Rightarrow> OrderItem list query" where
  "JobItems jid = select (\<lambda>g.
     case List.find (\<lambda>j. j_id j = jid) (sync_jobs g) of
       None \<Rightarrow> []
     | Some j \<Rightarrow> items_of_order g (j_order_id j))"

definition synced_row :: "string \<Rightarrow> time \<Rightarrow> job_row \<Rightarrow> job_row" where
  "synced_row sapID now j = j\<lparr>j_status := SyncStatusSynced, j_sap_internal_id := Some sapID,
     j_synced_at := Some now, j_locked_at := None, j_waiting_since := None, j_last_error := None,
     j_updated_at := now\<rparr>"

definition q_MarkSynced :: "int \<Rightarrow> string \<Rightarrow> unit query" where
  "q_MarkSynced jid sapID now g =
     Inr ((), g\<lparr>sync_jobs := update_where (\<lambda>j. j_id j = jid) (synced_row sapID now) (sync_jobs g),
       orders := update_where (\<lambda>r. \<exists>j \<in> set (sync_jobs g). j_id j = jid \<and> j_order_id j = o_id r)
         (\<lambda>r. r\<lparr>o_sap_id := Some sapID, o_updated_at := now\<rparr>) (orders g)\<rparr>)"

definition sync_status_ok :: "SyncStatus \<Rightarrow> bool" where
  "sync_status_ok s \<longleftrightarrow> s \<in> {SyncStatusPending, SyncStatusProcessing, SyncStatusSynced,
     SyncStatusWaiting, SyncStatusDead, SyncStatusCancelled}"

definition failed_row :: "SyncStatus \<Rightarrow> time \<Rightarrow> string \<Rightarrow> time \<Rightarrow> job_row \<Rightarrow> job_row" where
  "failed_row status dueAt message now j =
     j\<lparr>j_status := status, j_due_at := timestamptz dueAt, j_locked_at := None,
       j_waiting_since :=
         (if status = SyncStatusWaiting \<and> j_waiting_since j = None then Some now
          else if status = SyncStatusWaiting then j_waiting_since j else None),
       j_last_error := Some message, j_updated_at := now\<rparr>"

definition q_MarkFailed :: "int \<Rightarrow> SyncStatus \<Rightarrow> time \<Rightarrow> string \<Rightarrow> unit query" where
  "q_MarkFailed jid status dueAt message now g =
     (if \<not> sync_status_ok status \<and> (\<exists>j \<in> set (sync_jobs g). j_id j = jid)
      then Inl (CheckViolation ''status'')
      else Inr ((), g\<lparr>sync_jobs :=
        update_where (\<lambda>j. j_id j = jid) (failed_row status dueAt message now) (sync_jobs g)\<rparr>))"

lemmas event_query_defs [query_defs] =
  InsertEvent_def FindEventPayload_def MarkEventProcessed_def q_MarkPaymentEventsProcessed_def

lemmas order_query_defs [query_defs] =
  InsertOrder_def InsertItem_def FindOrderID_def FindOrder_def FindItems_def FindStatus_def
  MarkPaid_def ScheduleSync_def CancelOrder_def MarkCancelledOrder_def CancelJob_def

lemmas payment_query_defs [query_defs] =
  UpsertPayment_def FindPayment_def LinkPaymentOrder_def CancelPayment_def

lemmas job_query_defs [query_defs] =
  HasHardwareSKU_def ClaimJob_def NextWake_def LockJob_def JobItems_def q_MarkSynced_def q_MarkFailed_def

lemmas select_query [query_defs] = select_def

section \<open>Facts about the statements\<close>

lemma lock_row_simps [simp]:
  "j_id (lock_row t j) = j_id j" "j_order_id (lock_row t j) = j_order_id j"
  "j_attempts (lock_row t j) = j_attempts j + 1" "j_status (lock_row t j) = SyncStatusProcessing"
  "j_locked_at (lock_row t j) = Some t" "j_waiting_since (lock_row t j) = j_waiting_since j"
  "j_due_at (lock_row t j) = j_due_at j" "j_sap_internal_id (lock_row t j) = j_sap_internal_id j"
  by (simp_all add: lock_row_def)

lemma synced_row_simps [simp]:
  "j_id (synced_row x t j) = j_id j" "j_order_id (synced_row x t j) = j_order_id j"
  "j_attempts (synced_row x t j) = j_attempts j" "j_status (synced_row x t j) = SyncStatusSynced"
  "j_locked_at (synced_row x t j) = None" "j_waiting_since (synced_row x t j) = None"
  "j_due_at (synced_row x t j) = j_due_at j" "j_sap_internal_id (synced_row x t j) = Some x"
  by (simp_all add: synced_row_def)

lemma failed_row_simps [simp]:
  "j_id (failed_row st d m t j) = j_id j" "j_order_id (failed_row st d m t j) = j_order_id j"
  "j_attempts (failed_row st d m t j) = j_attempts j" "j_status (failed_row st d m t j) = st"
  "j_locked_at (failed_row st d m t j) = None" "j_due_at (failed_row st d m t j) = timestamptz d"
  "j_sap_internal_id (failed_row st d m t j) = j_sap_internal_id j"
  "j_last_error (failed_row st d m t j) = Some m"
  by (simp_all add: failed_row_def)

lemma first_min_None [simp]: "first_min k xs = None \<longleftrightarrow> xs = []"
  by (cases xs) (auto split: option.splits)

lemma first_min_Some: "first_min k xs = Some x \<Longrightarrow> x \<in> set xs \<and> (\<forall>y \<in> set xs. k x \<le> k y)"
proof (induction xs arbitrary: x)
  case Nil
  then show ?case by simp
next
  case (Cons a xs)
  show ?case
  proof (cases "first_min k xs")
    case None
    with Cons.prems show ?thesis by auto
  next
    case (Some y)
    with Cons.IH have y: "y \<in> set xs" "\<forall>z \<in> set xs. k y \<le> k z" by auto
    show ?thesis
    proof (cases "k y < k a")
      case True
      with Cons.prems Some y show ?thesis by auto
    next
      case False
      with Cons.prems Some have "x = a" by simp
      with False y show ?thesis by (auto intro: order_trans)
    qed
  qed
qed

lemma first_min_total: "xs \<noteq> [] \<Longrightarrow> \<exists>x. first_min k xs = Some x"
  using first_min_None [of k xs] by (cases "first_min k xs") auto

text \<open>Prices with at most two fractional digits and ten integral ones are stored unchanged.\<close>

lemma numeric_12_2_cents:
  assumes "p = of_int c / 100" and "\<bar>c\<bar> < 10 ^ 12"
  shows "numeric_12_2 p = Some p"
proof -
  have floor: "\<lfloor>\<bar>p\<bar> * 100 + 1 / 2\<rfloor> = \<bar>c\<bar>"
  proof -
    have "\<bar>p\<bar> * 100 = of_int \<bar>c\<bar>" using assms(1) by (simp add: abs_if)
    then have "\<bar>p\<bar> * 100 + 1 / 2 = of_int \<bar>c\<bar> + (1 / 2 :: rat)" by simp
    then show ?thesis by linarith
  qed
  have "sgn p = of_int (sgn c)" using assms(1) by (simp add: sgn_if)
  then have cents: "sgn p * of_int \<lfloor>\<bar>p\<bar> * 100 + 1 / 2\<rfloor> = of_int c"
    unfolding floor by (metis of_int_mult mult_sgn_abs)
  have "\<bar>of_int c :: rat\<bar> < 10 ^ 12"
    using assms(2) by (metis of_int_abs of_int_less_iff of_int_numeral of_int_power)
  then show ?thesis using assms(1) by (simp add: numeric_12_2_def Let_def cents)
qed

text \<open>A stored price is a fixed point of the column type: reading and storing it again keeps it.\<close>

lemma numeric_12_2_stored: "numeric_12_2 p = Some q \<Longrightarrow> numeric_12_2 q = Some q"
proof -
  assume stored: "numeric_12_2 p = Some q"
  define c where "c = sgn p * of_int \<lfloor>\<bar>p\<bar> * 100 + 1 / 2\<rfloor>"
  have "c = of_int (\<lfloor>sgn p\<rfloor> * \<lfloor>\<bar>p\<bar> * 100 + 1 / 2\<rfloor>)"
    by (simp add: c_def sgn_if)
  then obtain i where i: "c = of_int i" by blast
  from stored have q: "q = c / 100" and "\<bar>c\<bar> < 10 ^ 12"
    by (auto simp: numeric_12_2_def c_def Let_def split: if_splits)
  then have "\<bar>i\<bar> < 10 ^ 12"
    by (metis i of_int_abs of_int_less_iff of_int_numeral of_int_power)
  with q i show ?thesis by (intro numeric_12_2_cents [of q i]) simp_all
qed

end
