(* ===== verification/Session.thy ===== *)
theory Session
  imports Database
begin

text \<open>
  Database sessions. An operation reads the environment of its session (\<open>NOW()\<close>, which is
  fixed while a transaction runs, the job rows other transactions have locked, the texts the
  server can put into an index row, and how the process prints a scanned time with
  \<open>Format(time.RFC3339Nano)\<close> in its time zone) and
  passes the database and the fault schedule through; its result is a Go error or a
  value. The fault schedule decides, statement by statement, whether the call succeeds,
  fails before it takes effect, or takes effect and loses its reply; an exhausted
  schedule means no further fault. Every theorem about an arbitrary schedule therefore
  covers every error branch \<open>if err != nil\<close> of the code.
\<close>

datatype fault = Okay | Fail string | Lost string

record env =
  env_now :: time
  env_locked :: "int list"
  env_index_row :: index_rule
  env_rfc3339nano :: "time \<Rightarrow> string"

type_synonym sess = "pg \<times> fault list"
type_synonym 'a op = "env \<Rightarrow> sess \<Rightarrow> (go_error + 'a) \<times> sess"

definition ret :: "'a \<Rightarrow> 'a op" where
  "ret x e s = (Inr x, s)"

definition reader :: "(env \<Rightarrow> 'a) \<Rightarrow> 'a op" where
  "reader f e s = (Inr (f e), s)"

definition throw :: "go_error \<Rightarrow> 'a op" where
  "throw err e s = (Inl err, s)"

text \<open>\<open>x, err := m; if err != nil \<open>{ return err }\<close>; f(x)\<close>\<close>

definition bind_op :: "'a op \<Rightarrow> ('a \<Rightarrow> 'b op) \<Rightarrow> 'b op" where
  "bind_op m f e s = (case m e s of (Inl err, s') \<Rightarrow> (Inl err, s') | (Inr x, s') \<Rightarrow> f x e s')"

text \<open>\<open>fmt.Errorf("...: %w", args, err)\<close> on the error of \<open>m\<close>.\<close>

definition wrapf :: "string \<Rightarrow> arg list \<Rightarrow> 'a op \<Rightarrow> 'a op" where
  "wrapf fmt args m e s = (case m e s of (Inl err, s') \<Rightarrow> (Inl (Wrapf fmt args err), s') | (Inr x, s') \<Rightarrow> (Inr x, s'))"

fun next_fault :: "fault list \<Rightarrow> fault" where
  "next_fault [] = Okay"
| "next_fault (f # fs) = f"

text \<open>One statement sent to the server.\<close>

definition statement :: "'a query \<Rightarrow> 'a op" where
  "statement q e s =
     (case s of (g, fs) \<Rightarrow>
       (case next_fault fs of
          Fail msg \<Rightarrow> (Inl (DbError (Connection msg)), (g, tl fs))
        | Okay \<Rightarrow>
            (case q (env_now e) g of
               Inl err \<Rightarrow> (Inl (DbError err), (g, tl fs))
             | Inr (x, g') \<Rightarrow> (Inr x, (g', tl fs)))
        | Lost msg \<Rightarrow>
            (case q (env_now e) g of
               Inl err \<Rightarrow> (Inl (DbError err), (g, tl fs))
             | Inr (x, g') \<Rightarrow> (Inl (DbError (Connection msg)), (g', tl fs)))))"

text \<open>A statement whose outcome depends on the server's index rule.\<close>

definition indexed_statement :: "(index_rule \<Rightarrow> 'a query) \<Rightarrow> 'a op" where
  "indexed_statement q e s = statement (q (env_index_row e)) e s"

text \<open>
  \<open>BEGIN\<close>, the work, \<open>COMMIT\<close>, with the deferred \<open>Rollback\<close>. An error of the work or of the
  commit rolls the tables back, unless the commit took effect and only its reply was
  lost. \<open>commit_err\<close> is the text the caller wraps a commit error in.
\<close>

definition in_transaction :: "string \<Rightarrow> ('a \<Rightarrow> string \<times> arg list) \<Rightarrow> 'a op \<Rightarrow> 'a op" where
  "in_transaction begin_err commit_err work e s =
     (case s of (g, fs) \<Rightarrow>
       (case next_fault fs of
          Fail msg \<Rightarrow> (Inl (Wrapf begin_err [] (DbError (Connection msg))), (g, tl fs))
        | Lost msg \<Rightarrow> (Inl (Wrapf begin_err [] (DbError (Connection msg))), (g, tl fs))
        | Okay \<Rightarrow>
            (case work e (g, tl fs) of
               (Inl err, (g', fs')) \<Rightarrow> (Inl err, (rollback g g', fs'))
             | (Inr x, (g', fs')) \<Rightarrow>
                 (case next_fault fs' of
                    Okay \<Rightarrow> (Inr x, (g', tl fs'))
                  | Fail msg \<Rightarrow> (Inl (Wrapf (fst (commit_err x)) (snd (commit_err x)) (DbError (Connection msg))),
                                (rollback g g', tl fs'))
                  | Lost msg \<Rightarrow> (Inl (Wrapf (fst (commit_err x)) (snd (commit_err x)) (DbError (Connection msg))),
                                (g', tl fs'))))))"

section \<open>Successful runs\<close>

text \<open>
  \<open>runs m e g x g'\<close>: under some fault schedule the operation returns \<open>x\<close> and takes the
  database from \<open>g\<close> to \<open>g'\<close>. A successful run met no fault, so it is decomposed into the
  runs of its statements (\<open>runs_elims\<close>).
\<close>

definition runs :: "'a op \<Rightarrow> env \<Rightarrow> pg \<Rightarrow> 'a \<Rightarrow> pg \<Rightarrow> bool" where
  "runs m e g x g' \<longleftrightarrow> (\<exists>fs fs'. m e (g, fs) = (Inr x, (g', fs')))"

lemma runsI: "m e (g, fs) = (Inr x, (g', fs')) \<Longrightarrow> runs m e g x g'"
  by (auto simp: runs_def)

lemma runs_ret [simp]: "runs (ret x) e g y g' \<longleftrightarrow> y = x \<and> g' = g"
  by (auto simp: runs_def ret_def)

lemma runs_reader [simp]: "runs (reader f) e g y g' \<longleftrightarrow> y = f e \<and> g' = g"
  by (auto simp: runs_def reader_def)

lemma runs_throw [simp]: "\<not> runs (throw err) e g y g'"
  by (simp add: runs_def throw_def)

lemma runs_wrapf [simp]: "runs (wrapf fmt args m) e g x g' \<longleftrightarrow> runs m e g x g'"
proof -
  have "wrapf fmt args m e (g, fs) = (Inr x, (g', fs')) \<longleftrightarrow> m e (g, fs) = (Inr x, (g', fs'))" for fs fs'
    by (auto simp: wrapf_def split: prod.splits sum.splits)
  then show ?thesis by (simp add: runs_def)
qed

lemma runs_bind_op [runs_elims]:
  assumes "runs (bind_op m f) e g y g''"
  obtains x g' where "runs m e g x g'" and "runs (f x) e g' y g''"
proof -
  from assms obtain fs fs'' where "bind_op m f e (g, fs) = (Inr y, (g'', fs''))"
    by (auto simp: runs_def)
  then obtain x g' fs' where "m e (g, fs) = (Inr x, (g', fs'))" and "f x e (g', fs') = (Inr y, (g'', fs''))"
    by (auto simp: bind_op_def split: prod.splits sum.splits)
  then show thesis by (intro that) (auto intro: runsI)
qed

lemma runs_statement [simp]: "runs (statement q) e g x g' \<longleftrightarrow> q (env_now e) g = Inr (x, g')"
proof
  assume "runs (statement q) e g x g'"
  then obtain fs fs' where "statement q e (g, fs) = (Inr x, (g', fs'))" by (auto simp: runs_def)
  then show "q (env_now e) g = Inr (x, g')"
    by (cases "next_fault fs") (auto simp: statement_def split: sum.splits)
next
  assume "q (env_now e) g = Inr (x, g')"
  then have "statement q e (g, []) = (Inr x, (g', []))" by (simp add: statement_def)
  then show "runs (statement q) e g x g'" by (rule runsI)
qed

lemma runs_indexed_statement [simp]:
  "runs (indexed_statement q) e g x g' \<longleftrightarrow> q (env_index_row e) (env_now e) g = Inr (x, g')"
  using runs_statement [of "q (env_index_row e)" e g x g'] by (simp add: runs_def indexed_statement_def)

text \<open>The three ways a transaction ends.\<close>

lemma in_transaction_cases:
  assumes "in_transaction b c work e (g, fs) = (r, (g', fs'))"
  obtains (failed) err where "r = Inl err" and "same_tables g' g"
    | (lost) err x where "r = Inl err" and "runs work e g x g'"
    | (committed) x where "r = Inr x" and "runs work e g x g'"
proof (cases "next_fault fs")
  case Okay
  obtain r1 g1 fs1 where work: "work e (g, tl fs) = (r1, (g1, fs1))" by (metis surj_pair)
  show thesis
  proof (cases r1)
    case (Inl err)
    with assms Okay work show thesis by (auto simp: in_transaction_def intro: failed)
  next
    case (Inr x)
    with work have "runs work e g x g1" by (blast intro: runsI)
    with assms Okay work Inr show thesis
      by (cases "next_fault fs1") (auto simp: in_transaction_def intro: failed lost committed)
  qed
qed (use assms in \<open>auto simp: in_transaction_def intro: failed\<close>)

section \<open>Fault-free evaluation\<close>

lemma ret_eval [session_simps]: "ret x e s = (Inr x, s)"
  by (simp add: ret_def)

lemma reader_eval [session_simps]: "reader f e s = (Inr (f e), s)"
  by (simp add: reader_def)

lemma throw_eval [session_simps]: "throw err e s = (Inl err, s)"
  by (simp add: throw_def)

lemma bind_op_eval_Inr [session_simps]: "m e s = (Inr x, s') \<Longrightarrow> bind_op m f e s = f x e s'"
  by (simp add: bind_op_def)

lemma bind_op_eval_Inl [session_simps]: "m e s = (Inl err, s') \<Longrightarrow> bind_op m f e s = (Inl err, s')"
  by (simp add: bind_op_def)

lemma wrapf_eval_Inr [session_simps]: "m e s = (Inr x, s') \<Longrightarrow> wrapf fmt args m e s = (Inr x, s')"
  by (simp add: wrapf_def)

lemma wrapf_eval_Inl [session_simps]:
  "m e s = (Inl err, s') \<Longrightarrow> wrapf fmt args m e s = (Inl (Wrapf fmt args err), s')"
  by (simp add: wrapf_def)

lemma statement_eval [session_simps]:
  "statement q e (g, []) =
     (case q (env_now e) g of Inl err \<Rightarrow> (Inl (DbError err), (g, [])) | Inr (x, g') \<Rightarrow> (Inr x, (g', [])))"
  by (simp add: statement_def split: sum.split)

lemma indexed_statement_eval [session_simps]:
  "indexed_statement q e (g, []) =
     (case q (env_index_row e) (env_now e) g of Inl err \<Rightarrow> (Inl (DbError err), (g, [])) | Inr (x, g') \<Rightarrow> (Inr x, (g', [])))"
  by (simp add: indexed_statement_def statement_eval)

lemma in_transaction_eval [session_simps]:
  "in_transaction b c work e (g, []) =
     (case work e (g, []) of
        (Inl err, (g', fs')) \<Rightarrow> (Inl err, (rollback g g', fs'))
      | (Inr x, (g', fs')) \<Rightarrow>
          (case next_fault fs' of
             Okay \<Rightarrow> (Inr x, (g', tl fs'))
           | Fail msg \<Rightarrow> (Inl (Wrapf (fst (c x)) (snd (c x)) (DbError (Connection msg))), (rollback g g', tl fs'))
           | Lost msg \<Rightarrow> (Inl (Wrapf (fst (c x)) (snd (c x)) (DbError (Connection msg))), (g', tl fs'))))"
  by (simp add: in_transaction_def)

section \<open>Atomicity\<close>

text \<open>
  Whatever faults occur, a transaction that does not reach its commit leaves every table
  as it was; otherwise the tables are those of a complete successful run of the work.
\<close>

lemma in_transaction_atomic:
  assumes "in_transaction b c work e (g, fs) = (r, (g', fs'))"
  shows "same_tables g' g \<or> (\<exists>x. runs work e g x g')"
  using assms by (cases rule: in_transaction_cases) auto

lemma in_transaction_Inr:
  assumes "in_transaction b c work e (g, fs) = (Inr x, (g', fs'))"
  shows "runs work e g x g'"
  using assms by (cases rule: in_transaction_cases) auto

end
