(* ===== verification/Ports.thy ===== *)
theory Ports
  imports Session
begin

text \<open>
  The interfaces of \<open>internal/contracts/ports.go\<close> and \<open>internal/sync/ports.go\<close>, as the
  contracts their clients rely on. Each locale fixes the successful runs of an
  interface's operations (\<open>op args s result s'\<close>) and what the client observes of a
  state, assumes the laws the provider promises, and proves what a client may conclude
  for any sequence of operations. The PostgreSQL repositories interpret them.
\<close>

section \<open>Data of the synchronization ports\<close>

record OrderDetails =
  od_OrderID :: string
  od_CustomerEmail :: string
  od_PaidAt :: string
  od_Items :: "OrderItem list"

record Job =
  job_ID :: int
  job_Status :: SyncStatus
  job_Attempts :: int
  job_DueAt :: "time option"
  job_WaitingSince :: "time option"
  job_Details :: OrderDetails

section \<open>EventRepository: type-scoped deduplication\<close>

locale event_store =
  fixes stored :: "'s \<Rightarrow> EventType \<Rightarrow> string \<Rightarrow> event_payload option"
    and record_run :: "string \<Rightarrow> EventType \<Rightarrow> event_payload \<Rightarrow> 's \<Rightarrow> bool \<Rightarrow> 's \<Rightarrow> bool"
    and mark_run :: "EventType \<Rightarrow> string \<Rightarrow> 's \<Rightarrow> 's \<Rightarrow> bool"
    and mark_reference_run :: "string \<Rightarrow> 's \<Rightarrow> 's \<Rightarrow> bool"
  assumes record_fresh: "record_run i t p s b s' \<Longrightarrow> b \<longleftrightarrow> stored s t i = None"
    and record_stores: "record_run i t p s b s' \<Longrightarrow>
      stored s' t' i' = (if b \<and> t' = t \<and> i' = i then Some p else stored s t' i')"
    and mark_stored: "mark_run t i s s' \<Longrightarrow> stored s' = stored s"
    and mark_reference_stored: "mark_reference_run r s s' \<Longrightarrow> stored s' = stored s"
begin

definition event_step :: "'s \<Rightarrow> 's \<Rightarrow> bool" where
  "event_step s s' \<longleftrightarrow>
     (\<exists>i t p b. record_run i t p s b s') \<or> (\<exists>t i. mark_run t i s s') \<or> (\<exists>r. mark_reference_run r s s')"

lemma event_step_keeps: "event_step s s' \<Longrightarrow> stored s t i = Some p \<Longrightarrow> stored s' t i = Some p"
  unfolding event_step_def
proof (elim disjE exE)
  fix i' t' p' b
  assume "stored s t i = Some p" and "record_run i' t' p' s b s'"
  then show "stored s' t i = Some p"
    using record_fresh [of i' t' p' s b s'] record_stores [of i' t' p' s b s' t i] by auto
qed (auto simp: mark_stored mark_reference_stored)

lemma event_steps_keep: "event_step\<^sup>*\<^sup>* s s' \<Longrightarrow> stored s t i = Some p \<Longrightarrow> stored s' t i = Some p"
  by (induction rule: rtranclp_induct) (auto intro: event_step_keeps)

text \<open>The first payload recorded under an event id stays; a later record reports a duplicate.\<close>

lemma first_payload_wins:
  assumes "record_run i t p s b s1" and "event_step\<^sup>*\<^sup>* s1 s2" and "record_run i t p' s2 b' s3"
  shows "\<not> b' \<and> stored s3 t i = stored s1 t i"
proof -
  from assms(1) have "stored s1 t i \<noteq> None"
    by (cases b) (auto simp: record_stores dest: record_fresh)
  then obtain q where q: "stored s1 t i = Some q" by blast
  with assms(2) have "stored s2 t i = Some q" by (rule event_steps_keep)
  with assms(3) q show ?thesis by (auto simp: record_stores dest: record_fresh)
qed

end

section \<open>PaymentRepository: final statuses are final\<close>

locale payment_store =
  fixes status :: "'s \<Rightarrow> string \<Rightarrow> PaymentStatus option"
    and upsert_run :: "string \<Rightarrow> PaymentStatus \<Rightarrow> int option \<Rightarrow> time option \<Rightarrow> 's \<Rightarrow> PaymentState \<Rightarrow> 's \<Rightarrow> bool"
    and cancel_run :: "string \<Rightarrow> int option \<Rightarrow> 's \<Rightarrow> PaymentState \<Rightarrow> 's \<Rightarrow> bool"
    and link_run :: "string \<Rightarrow> int \<Rightarrow> 's \<Rightarrow> 's \<Rightarrow> bool"
  assumes upsert_open: "upsert_run r st i t s x s' \<Longrightarrow> status s r = Some f \<Longrightarrow> \<not> finalized f"
    and upsert_status: "upsert_run r st i t s x s' \<Longrightarrow> status s' = (status s)(r \<mapsto> st) \<and> ps_Status x = st"
    and cancel_open: "cancel_run r i s x s' \<Longrightarrow> status s r = Some f \<Longrightarrow> \<not> finalized f"
    and cancel_status: "cancel_run r i s x s' \<Longrightarrow>
      status s' = (status s)(r \<mapsto> PaymentStatusCancelled) \<and> ps_Status x = PaymentStatusCancelled"
    and link_status: "link_run r n s s' \<Longrightarrow> status s' = status s"
begin

definition payment_step :: "'s \<Rightarrow> 's \<Rightarrow> bool" where
  "payment_step s s' \<longleftrightarrow>
     (\<exists>r st i t x. upsert_run r st i t s x s') \<or> (\<exists>r i x. cancel_run r i s x s') \<or> (\<exists>r i. link_run r i s s')"

lemma final_status_step:
  assumes "payment_step s s'" and "status s r = Some f" and "finalized f"
  shows "status s' r = Some f"
  using assms unfolding payment_step_def
proof (elim disjE exE)
  fix q st i t x
  assume "upsert_run q st i t s x s'"
  with assms(2,3) show ?thesis
    using upsert_open [of q st i t s x s'] upsert_status [of q st i t s x s'] by (cases "q = r") auto
next
  fix q i x
  assume "cancel_run q i s x s'"
  with assms(2,3) show ?thesis
    using cancel_open [of q i s x s'] cancel_status [of q i s x s'] by (cases "q = r") auto
qed (simp add: link_status)

lemma final_status_stable:
  "payment_step\<^sup>*\<^sup>* s s' \<Longrightarrow> status s r = Some f \<Longrightarrow> finalized f \<Longrightarrow> status s' r = Some f"
  by (induction rule: rtranclp_induct) (auto intro: final_status_step)

end

section \<open>OrderRepository: an order is stored once\<close>

locale order_store =
  fixes good :: "'s \<Rightarrow> bool"
    and order_of :: "'s \<Rightarrow> string \<Rightarrow> (int \<times> string) option"
    and items_of :: "'s \<Rightarrow> int \<Rightarrow> OrderItem list"
    and stored_item :: "OrderItem \<Rightarrow> OrderItem option"
    and create_run :: "string \<Rightarrow> string \<Rightarrow> 's \<Rightarrow> int \<Rightarrow> 's \<Rightarrow> bool"
    and add_items_run :: "int \<Rightarrow> OrderItem list \<Rightarrow> 's \<Rightarrow> 's \<Rightarrow> bool"
    and find_run :: "string \<Rightarrow> 's \<Rightarrow> StoredOrder option \<Rightarrow> 's \<Rightarrow> bool"
  assumes create_good: "good s \<Longrightarrow> create_run r e s i s' \<Longrightarrow> good s'"
    and create_zero: "good s \<Longrightarrow> create_run r e s i s' \<Longrightarrow> i = 0 \<longleftrightarrow> order_of s r \<noteq> None"
    and create_order: "good s \<Longrightarrow> create_run r e s i s' \<Longrightarrow>
      order_of s' = (if i = 0 then order_of s else (order_of s)(r \<mapsto> (i, e)))"
    and create_items: "good s \<Longrightarrow> create_run r e s i s' \<Longrightarrow> i \<noteq> 0 \<Longrightarrow> items_of s' i = []"
    and add_items: "add_items_run i xs s s' \<Longrightarrow>
      order_of s' = order_of s \<and>
      (\<exists>ys. map stored_item xs = map Some ys \<and> items_of s' i = items_of s i @ ys)"
    and find_result: "find_run r s x s' \<Longrightarrow>
      s' = s \<and> x = map_option (\<lambda>(i, e). \<lparr>so_ID = i, so_CustomerEmail = e, so_Items = items_of s i\<rparr>) (order_of s r)"
begin

text \<open>Creating a new order and adding its items stores what a later \<open>Find\<close> returns.\<close>

lemma create_find:
  assumes "good s" and "create_run r e s i s1" and "i \<noteq> 0" and "add_items_run i xs s1 s2"
    and "find_run r s2 x s3"
  shows "\<exists>ys. map stored_item xs = map Some ys \<and> x = Some \<lparr>so_ID = i, so_CustomerEmail = e, so_Items = ys\<rparr>"
proof -
  from assms(1-3) have "order_of s1 r = Some (i, e)" and "items_of s1 i = []"
    by (simp_all add: create_order create_items)
  with add_items [OF assms(4)] find_result [OF assms(5)] show ?thesis by auto
qed

text \<open>A second create for the same order reports it as existing and changes no order.\<close>

lemma create_twice:
  assumes "good s" and "create_run r e s i s1" and "create_run r e' s1 i' s2"
  shows "i' = 0 \<and> order_of s2 = order_of s1"
proof -
  from assms(1,2) have "good s1" by (rule create_good)
  moreover from assms(1,2) have "order_of s1 r \<noteq> None"
    using create_zero [OF assms(1,2)] create_order [OF assms(1,2)] by auto
  ultimately show ?thesis using assms(3) by (metis create_zero create_order)
qed

end

section \<open>JobRepository: one claimant at a time\<close>

locale job_queue =
  fixes good :: "'s \<Rightarrow> bool"
    and eligible :: "time \<Rightarrow> 's \<Rightarrow> int \<Rightarrow> bool"
    and attempts :: "'s \<Rightarrow> int \<Rightarrow> int"
    and claim_run :: "time \<Rightarrow> 's \<Rightarrow> Job option \<Rightarrow> 's \<Rightarrow> bool"
  assumes claim_good: "good s \<Longrightarrow> claim_run t s x s' \<Longrightarrow> good s'"
    and claim_eligible: "good s \<Longrightarrow> claim_run t s (Some j) s' \<Longrightarrow> eligible t s (job_ID j)"
    and claim_locks: "good s \<Longrightarrow> claim_run t s (Some j) s' \<Longrightarrow> t' < t + stale_after \<Longrightarrow> \<not> eligible t' s' (job_ID j)"
    and claim_others: "good s \<Longrightarrow> claim_run t s (Some j) s' \<Longrightarrow> i \<noteq> job_ID j \<Longrightarrow> eligible t' s' i = eligible t' s i"
    and claim_attempts: "good s \<Longrightarrow> claim_run t s (Some j) s' \<Longrightarrow>
      job_Attempts j = attempts s (job_ID j) + 1 \<and> attempts s' = (attempts s)(job_ID j := job_Attempts j)"
    and claim_none: "claim_run t s None s' \<Longrightarrow> s' = s"
begin

text \<open>Inductively: claims made within the stale period of a claim never return its job.\<close>

lemma not_claimed_again:
  assumes "good s" and "claim_run t s (Some j) s'" and "t' < t + stale_after" and "claim_run t' s' (Some k) s''"
  shows "job_ID k \<noteq> job_ID j"
  using assms claim_good claim_eligible claim_locks by metis

lemma lock_survives_claims:
  assumes "good s" and "\<not> eligible t' s i" and "claim_run t s x s'" and "t \<le> t'" and "t' < t + stale_after"
  shows "\<not> eligible t' s' i"
proof (cases x)
  case None
  with assms claim_none show ?thesis by metis
next
  case (Some j)
  with assms claim_locks claim_others show ?thesis by metis
qed

end

end
