(* ===== verification/Repositories.thy ===== *)
theory Repositories
  imports Ports
begin

text \<open>
  The PostgreSQL repositories (\<open>internal/infrastructure/postgres/repositories\<close>): one
  definition per method, the statement it sends, the way it treats \<open>pgx.ErrNoRows\<close> and
  the text it wraps an error in. A result set read with \<open>rows.Next\<close>/\<open>Scan\<close> is one
  statement whose fault stands for a failure of the query or of the iteration.
\<close>

section \<open>WebhookEventRepository\<close>

definition EventRepository_Record :: "string \<Rightarrow> EventType \<Rightarrow> event_payload \<Rightarrow> bool op" where
  "EventRepository_Record eventID eventType payload =
     bind_op (wrapf ''insert webhook event %q: %w'' [ArgS eventID] (indexed_statement (\<lambda>index_row. InsertEvent index_row eventID eventType payload)))
       (\<lambda>row. ret (row \<noteq> None))"

definition EventRepository_FindPayload :: "EventType \<Rightarrow> string \<Rightarrow> event_payload option op" where
  "EventRepository_FindPayload eventType eventID =
     wrapf ''find webhook event payload %q: %w'' [ArgS eventID] (statement (FindEventPayload eventType eventID))"

definition EventRepository_MarkProcessed :: "EventType \<Rightarrow> string \<Rightarrow> unit op" where
  "EventRepository_MarkProcessed eventType eventID =
     wrapf ''mark webhook event %q processed: %w'' [ArgS eventID] (statement (MarkEventProcessed eventType eventID))"

definition EventRepository_MarkPaymentEventsProcessed :: "string \<Rightarrow> unit op" where
  "EventRepository_MarkPaymentEventsProcessed orderID =
     wrapf ''mark payment events for order %q processed: %w'' [ArgS orderID]
       (statement (q_MarkPaymentEventsProcessed orderID))"

section \<open>OrderRepository\<close>

definition OrderRepository_Create :: "string \<Rightarrow> string \<Rightarrow> int op" where
  "OrderRepository_Create orderID customerEmail =
     bind_op (wrapf ''create order %q: %w'' [ArgS orderID] (indexed_statement (\<lambda>index_row. InsertOrder index_row orderID customerEmail)))
       (\<lambda>row. ret (case row of None \<Rightarrow> 0 | Some i \<Rightarrow> i))"

definition OrderRepository_FindID :: "string \<Rightarrow> int op" where
  "OrderRepository_FindID orderID =
     bind_op (wrapf ''find order %q: %w'' [ArgS orderID] (statement (FindOrderID orderID)))
       (\<lambda>row. ret (case row of None \<Rightarrow> 0 | Some i \<Rightarrow> i))"

definition OrderRepository_ListItems :: "int \<Rightarrow> OrderItem list op" where
  "OrderRepository_ListItems i = wrapf ''list items for order %d: %w'' [ArgD i] (statement (FindItems i))"

definition OrderRepository_Find :: "string \<Rightarrow> StoredOrder option op" where
  "OrderRepository_Find orderID =
     bind_op (wrapf ''find order %q: %w'' [ArgS orderID] (statement (FindOrder orderID)))
       (\<lambda>row. case row of
          None \<Rightarrow> ret None
        | Some (i, email) \<Rightarrow>
            bind_op (OrderRepository_ListItems i)
              (\<lambda>items. ret (Some \<lparr>so_ID = i, so_CustomerEmail = email, so_Items = items\<rparr>)))"

definition formatTime :: "env \<Rightarrow> time option \<Rightarrow> string option" where
  "formatTime e value = map_option (env_rfc3339nano e) value"

definition format_status :: "env \<Rightarrow> OrderStatus \<times> time option \<times> time option \<Rightarrow> OrderStatus" where
  "format_status e row =
     (fst row)\<lparr>os_PaidAt := formatTime e (fst (snd row)), os_DueAt := formatTime e (snd (snd row))\<rparr>"

definition OrderRepository_FindStatus :: "string \<Rightarrow> OrderStatus option op" where
  "OrderRepository_FindStatus orderID =
     bind_op (wrapf ''find status for order %q: %w'' [ArgS orderID] (statement (FindStatus orderID)))
       (\<lambda>row. reader (\<lambda>e. map_option (format_status e) row))"

definition OrderRepository_MarkPaid :: "int \<Rightarrow> time \<Rightarrow> unit op" where
  "OrderRepository_MarkPaid i paidAt = wrapf ''mark order %d paid: %w'' [ArgD i] (statement (MarkPaid i paidAt))"

fun OrderRepository_AddItems :: "int \<Rightarrow> OrderItem list \<Rightarrow> unit op" where
  "OrderRepository_AddItems i [] = ret ()"
| "OrderRepository_AddItems i (item # items) =
     bind_op (wrapf ''insert item %q for order %d: %w'' [ArgS (SKU item), ArgD i] (statement (InsertItem i item)))
       (\<lambda>_. OrderRepository_AddItems i items)"

definition OrderRepository_ScheduleSync :: "int \<Rightarrow> int \<Rightarrow> unit op" where
  "OrderRepository_ScheduleSync i delay =
     wrapf ''schedule SAP sync for order %d: %w'' [ArgD i] (statement (ScheduleSync i delay))"

definition OrderRepository_Cancel :: "int \<Rightarrow> unit op" where
  "OrderRepository_Cancel i =
     bind_op (wrapf ''cancel order %d: %w'' [ArgD i] (statement (CancelOrder i)))
       (\<lambda>row. case row of
          None \<Rightarrow> throw (Sentinel ErrOrderCannotCancel)
        | Some _ \<Rightarrow>
            bind_op (wrapf ''cancel order %d: %w'' [ArgD i] (statement (MarkCancelledOrder i)))
              (\<lambda>_. wrapf ''cancel SAP job for order %d: %w'' [ArgD i] (statement (CancelJob i))))"

section \<open>PaymentRepository\<close>

definition PaymentRepository_Upsert ::
  "string \<Rightarrow> PaymentStatus \<Rightarrow> int option \<Rightarrow> time option \<Rightarrow> PaymentState op" where
  "PaymentRepository_Upsert ref status orderID paidAt =
     bind_op (wrapf ''upsert payment %q: %w'' [ArgS ref] (indexed_statement (\<lambda>index_row. UpsertPayment index_row ref orderID status paidAt)))
       (\<lambda>row. case row of None \<Rightarrow> throw (Sentinel ErrPaymentFinalized) | Some state \<Rightarrow> ret state)"

definition PaymentRepository_Cancel :: "string \<Rightarrow> int option \<Rightarrow> PaymentState op" where
  "PaymentRepository_Cancel ref orderID =
     bind_op (wrapf ''cancel payment %q: %w'' [ArgS ref] (indexed_statement (\<lambda>index_row. CancelPayment index_row ref orderID)))
       (\<lambda>row. case row of None \<Rightarrow> throw (Sentinel ErrPaymentFinalized) | Some state \<Rightarrow> ret state)"

definition PaymentRepository_Find :: "string \<Rightarrow> PaymentState option op" where
  "PaymentRepository_Find ref = wrapf ''find payment %q: %w'' [ArgS ref] (statement (FindPayment ref))"

definition PaymentRepository_LinkOrder :: "string \<Rightarrow> int \<Rightarrow> unit op" where
  "PaymentRepository_LinkOrder ref i =
     wrapf ''link payment %q to order %d: %w'' [ArgS ref, ArgD i] (statement (LinkPaymentOrder ref i))"

section \<open>SKUClassifier\<close>

definition SKUClassifier_HasHardware :: "string list \<Rightarrow> bool op" where
  "SKUClassifier_HasHardware skus =
     (if skus = [] then ret False
      else wrapf ''classify SKUs: %w'' [] (statement (HasHardwareSKU skus)))"

section \<open>SyncJobRepository\<close>

definition loadJobItems :: "int \<Rightarrow> OrderItem list op" where
  "loadJobItems jid = wrapf ''query items for SAP job %d: %w'' [ArgD jid] (statement (JobItems jid))"

definition claim_query :: "(job_row \<times> order_row) option op" where
  "claim_query e = statement (ClaimJob (env_locked e)) e"

text \<open>The job claim scans \<open>o.paid_at\<close> into a non-pointer: a NULL is a scan error.\<close>

definition claim_work :: "Job option op" where
  "claim_work =
     bind_op (wrapf ''claim due SAP job: %w'' [] claim_query)
       (\<lambda>row. case row of
          None \<Rightarrow> ret None
        | Some (j, r) \<Rightarrow>
            (case o_paid_at r of
               None \<Rightarrow> throw (Wrapf ''claim due SAP job: %w'' [] (DbError (NullScan ''paid_at'')))
             | Some paidAt \<Rightarrow>
                 bind_op (wrapf ''lock SAP job %d: %w'' [ArgD (j_id j)] (statement (LockJob (j_id j))))
                   (\<lambda>_. bind_op (wrapf ''load items for SAP job %d: %w'' [ArgD (j_id j)] (loadJobItems (j_id j)))
                     (\<lambda>items. reader (\<lambda>e. Some
                        \<lparr>job_ID = j_id j, job_Status = j_status j, job_Attempts = j_attempts j + 1,
                         job_DueAt = Some (j_due_at j), job_WaitingSince = j_waiting_since j,
                         job_Details = \<lparr>od_OrderID = o_order_id r, od_CustomerEmail = o_customer_email r,
                                        od_PaidAt = env_rfc3339nano e paidAt, od_Items = items\<rparr>\<rparr>)))))"

definition ClaimDue :: "Job option op" where
  "ClaimDue =
     in_transaction ''begin SAP job claim transaction: %w''
       (\<lambda>job. case job of
          None \<Rightarrow> (''commit empty SAP job claim: %w'', [])
        | Some j \<Rightarrow> (''commit SAP job %d claim: %w'', [ArgD (job_ID j)]))
       claim_work"

definition SyncJobRepository_NextWake :: "time option op" where
  "SyncJobRepository_NextWake = wrapf ''find next SAP job wake-up: %w'' [] (statement NextWake)"

definition MarkSynced :: "int \<Rightarrow> string \<Rightarrow> unit op" where
  "MarkSynced jid sapID = wrapf ''mark SAP job %d synced: %w'' [ArgD jid] (statement (q_MarkSynced jid sapID))"

definition MarkFailed :: "int \<Rightarrow> SyncStatus \<Rightarrow> time \<Rightarrow> string \<Rightarrow> unit op" where
  "MarkFailed jid status dueAt message =
     wrapf ''mark SAP job %d %s: %w'' [ArgD jid, ArgS status] (statement (q_MarkFailed jid status dueAt message))"

lemmas event_repo_defs [repo_defs] =
  EventRepository_Record_def EventRepository_FindPayload_def EventRepository_MarkProcessed_def
  EventRepository_MarkPaymentEventsProcessed_def

lemmas order_repo_defs [repo_defs] =
  OrderRepository_Create_def OrderRepository_FindID_def OrderRepository_ListItems_def
  OrderRepository_Find_def OrderRepository_FindStatus_def OrderRepository_MarkPaid_def
  OrderRepository_ScheduleSync_def OrderRepository_Cancel_def

lemmas payment_repo_defs [repo_defs] =
  PaymentRepository_Upsert_def PaymentRepository_Cancel_def PaymentRepository_Find_def
  PaymentRepository_LinkOrder_def

lemmas job_repo_defs [repo_defs] =
  SKUClassifier_HasHardware_def loadJobItems_def claim_work_def SyncJobRepository_NextWake_def
  MarkSynced_def MarkFailed_def

section \<open>Events: runs and the deduplication contract\<close>

definition stored_event :: "pg \<Rightarrow> EventType \<Rightarrow> string \<Rightarrow> event_payload option" where
  "stored_event g t i =
     map_option e_payload (List.find (\<lambda>r. e_event_type r = t \<and> e_event_id r = i) (webhook_events g))"

lemma runs_Record:
  "runs (EventRepository_Record i t p) e g b g' \<Longrightarrow>
     \<exists>row. InsertEvent (env_index_row e) i t p (env_now e) g = Inr (row, g') \<and> b = (row \<noteq> None)"
  by (auto simp: EventRepository_Record_def elim!: runs_bind_op)

lemma stored_event_None:
  "stored_event g t i = None \<longleftrightarrow> (\<forall>r \<in> set (webhook_events g). \<not> (e_event_type r = t \<and> e_event_id r = i))"
  by (auto simp: stored_event_def find_None_iff)

text \<open>What the event table asks of an event: texts it can store and, for a new event, index rows it can form.\<close>

definition recordable :: "env \<Rightarrow> pg \<Rightarrow> string \<Rightarrow> EventType \<Rightarrow> event_payload \<Rightarrow> bool" where
  "recordable e g i t p \<longleftrightarrow>
     event_text_ok i p \<and> (stored_event g t i = None \<longrightarrow> env_index_row e [t, i] \<and> env_index_row e [payload_key p])"

lemma recordable_stored: "event_text_ok i p \<Longrightarrow> stored_event g t i \<noteq> None \<Longrightarrow> recordable e g i t p"
  by (auto simp: recordable_def)

lemma InsertEvent_total:
  "(\<exists>x. InsertEvent (env_index_row e) i t p now g = Inr x) \<longleftrightarrow> recordable e g i t p"
  by (auto simp: InsertEvent_def recordable_def stored_event_None)

text \<open>A webhook that the tables can hold as far as its texts go, now and at any later time.\<close>

definition shop_storable :: "env \<Rightarrow> shop_Webhook \<Rightarrow> bool" where
  "shop_storable e p \<longleftrightarrow>
     event_text_ok (sw_EventID p) (ShopPayload p) \<and>
     env_index_row e [EventTypeShop, sw_EventID p] \<and> env_index_row e [sw_OrderID p]"

definition payment_storable :: "env \<Rightarrow> payment_Webhook \<Rightarrow> bool" where
  "payment_storable e p \<longleftrightarrow>
     event_text_ok (pw_EventID p) (PaymentPayload p) \<and>
     env_index_row e [EventTypePayment, pw_EventID p] \<and> env_index_row e [pw_ReferenceOrderID p]"

lemma storable_recordable:
  "shop_storable e p \<Longrightarrow> recordable e g (sw_EventID p) EventTypeShop (ShopPayload p)"
  "payment_storable e q \<Longrightarrow> recordable e g (pw_EventID q) EventTypePayment (PaymentPayload q)"
  by (simp_all add: shop_storable_def payment_storable_def recordable_def)

lemma event_texts:
  "event_text_ok i (ShopPayload p) \<Longrightarrow> text_ok (sw_OrderID p) \<and> text_ok (sw_CustomerEmail p)"
  "event_text_ok i (PaymentPayload q) \<Longrightarrow> text_ok (pw_ReferenceOrderID q)"
  by (simp_all add: event_text_ok_def)

lemma recordable_texts:
  "recordable e g i t (ShopPayload p) \<Longrightarrow> text_ok (sw_OrderID p) \<and> text_ok (sw_CustomerEmail p)"
  "recordable e g i t (PaymentPayload q) \<Longrightarrow> text_ok (pw_ReferenceOrderID q)"
  unfolding recordable_def by (blast dest: event_texts)+

lemma recorded_texts: "runs (EventRepository_Record i t p) e g b g' \<Longrightarrow> event_text_ok i p"
  by (auto simp: InsertEvent_def dest!: runs_Record split: if_splits)

lemma InsertEvent_stored:
  assumes "InsertEvent index_row i t p now g = Inr (row, g')"
  shows "stored_event g' t' i' = (if row \<noteq> None \<and> t' = t \<and> i' = i then Some p else stored_event g t' i')"
    and "row \<noteq> None \<longleftrightarrow> stored_event g t i = None"
  using assms
  by (auto simp: InsertEvent_def stored_event_None split: if_splits)
    (auto simp: stored_event_def find_snoc find_None_iff split: option.splits dest!: find_SomeD)

lemma find_event_update_where:
  assumes "\<And>r. e_event_type (f r) = e_event_type r \<and> e_event_id (f r) = e_event_id r \<and> e_payload (f r) = e_payload r"
  shows "map_option e_payload (List.find (\<lambda>r. e_event_type r = t \<and> e_event_id r = i) (update_where P f rs))
    = map_option e_payload (List.find (\<lambda>r. e_event_type r = t \<and> e_event_id r = i) rs)"
  using assms by (induction rs) auto

lemma MarkEventProcessed_stored: "MarkEventProcessed t i now g = Inr (x, g') \<Longrightarrow> stored_event g' = stored_event g"
  by (auto simp: MarkEventProcessed_def stored_event_def find_event_update_where fun_eq_iff)

lemma MarkPaymentEventsProcessed_stored:
  "q_MarkPaymentEventsProcessed r now g = Inr (x, g') \<Longrightarrow> stored_event g' = stored_event g"
  by (auto simp: q_MarkPaymentEventsProcessed_def stored_event_def find_event_update_where fun_eq_iff)

interpretation events: event_store stored_event
  "\<lambda>i t p g b g'. runs (EventRepository_Record i t p) e g b g'"
  "\<lambda>t i g g'. runs (EventRepository_MarkProcessed t i) e g () g'"
  "\<lambda>r g g'. runs (EventRepository_MarkPaymentEventsProcessed r) e g () g'"
  for e
proof unfold_locales
  fix i t p s b s' t' i'
  assume "runs (EventRepository_Record i t p) e s b s'"
  then obtain row where row: "InsertEvent (env_index_row e) i t p (env_now e) s = Inr (row, s')" and b: "b = (row \<noteq> None)"
    by (auto dest: runs_Record)
  from InsertEvent_stored [OF row] b show "b \<longleftrightarrow> stored_event s t i = None"
    and "stored_event s' t' i' = (if b \<and> t' = t \<and> i' = i then Some p else stored_event s t' i')"
    by auto
qed (auto simp: EventRepository_MarkProcessed_def EventRepository_MarkPaymentEventsProcessed_def
      dest: MarkEventProcessed_stored MarkPaymentEventsProcessed_stored)

section \<open>Payments: runs and the finality contract\<close>

definition payment_status :: "pg \<Rightarrow> string \<Rightarrow> PaymentStatus option" where
  "payment_status g r = map_option p_status (find_payment_row g r)"

lemma runs_Upsert:
  "runs (PaymentRepository_Upsert ref status orderID paidAt) e g x g' \<Longrightarrow>
     UpsertPayment (env_index_row e) ref orderID status paidAt (env_now e) g = Inr (Some x, g')"
  by (auto simp: PaymentRepository_Upsert_def elim!: runs_bind_op split: option.splits)

lemma runs_Cancel_payment:
  "runs (PaymentRepository_Cancel ref orderID) e g x g' \<Longrightarrow>
     CancelPayment (env_index_row e) ref orderID (env_now e) g = Inr (Some x, g')"
  by (auto simp: PaymentRepository_Cancel_def elim!: runs_bind_op split: option.splits)

text \<open>What a successful upsert did: a fresh row, or the update of a row that was still open.\<close>

lemma upsert_payment_row_cases:
  assumes "upsert_payment_row index_row ref ins upd now g = Inr (Some x, g')"
  obtains (inserted) "find_payment_row g ref = None"
      "check_payment_order g ref (p_order_id (ins (payments_seq g + 1))) = None"
      "payment_status_ok (p_status (ins (payments_seq g + 1)))"
      "x = state_of_payment (ins (payments_seq g + 1))"
      "g' = g\<lparr>payments_seq := payments_seq g + 1, payments := payments g @ [ins (payments_seq g + 1)]\<rparr>"
    | (updated) r where "find_payment_row g ref = Some r" "\<not> finalized (p_status r)"
      "check_payment_order g ref (p_order_id (upd r)) = None"
      "x = state_of_payment (upd r)"
      "g' = g\<lparr>payments_seq := payments_seq g + 1,
        payments := update_where (\<lambda>y. p_reference_order_id y = ref) upd (payments g)\<rparr>"
  using assms by (auto simp: upsert_payment_row_def Let_def split: if_splits option.splits)

lemma find_payment_row_snoc:
  "find_payment_row (g\<lparr>payments_seq := k, payments := payments g @ [p]\<rparr>) r =
     (case find_payment_row g r of Some y \<Rightarrow> Some y | None \<Rightarrow> if p_reference_order_id p = r then Some p else None)"
  by (simp add: find_payment_row_def find_snoc)

lemma find_payment_row_update:
  assumes "\<And>y. p_reference_order_id (upd y) = p_reference_order_id y"
  shows "find_payment_row (g\<lparr>payments_seq := k, payments := update_where (\<lambda>y. p_reference_order_id y = ref) upd (payments g)\<rparr>) r
    = (if r = ref then map_option upd (find_payment_row g r) else find_payment_row g r)"
proof (cases "find_payment_row g r")
  case None
  then show ?thesis by (auto simp: find_payment_row_def find_update_where_key [where k = p_reference_order_id, OF assms])
next
  case (Some y)
  then have "p_reference_order_id y = r" by (auto simp: find_payment_row_def dest: find_SomeD)
  with Some show ?thesis by (auto simp: find_payment_row_def find_update_where_key [where k = p_reference_order_id, OF assms])
qed

lemma upsert_payment_row_status:
  assumes "upsert_payment_row index_row ref ins upd now g = Inr (Some x, g')"
    and "\<And>k. p_reference_order_id (ins k) = ref" and "\<And>k. p_status (ins k) = st"
    and "\<And>y. p_reference_order_id (upd y) = p_reference_order_id y"
    and "\<And>y. \<not> finalized (p_status y) \<Longrightarrow> p_status (upd y) = st"
  shows "payment_status g' = (payment_status g)(ref \<mapsto> st) \<and> ps_Status x = st \<and>
    (\<forall>f. payment_status g ref = Some f \<longrightarrow> \<not> finalized f)"
  using assms(1)
proof (cases rule: upsert_payment_row_cases)
  case inserted
  with assms(2,3) show ?thesis
    by (auto simp: payment_status_def find_payment_row_snoc state_of_payment_def fun_eq_iff split: option.splits)
next
  case (updated r)
  with assms(4,5) show ?thesis
    by (auto simp: payment_status_def find_payment_row_update state_of_payment_def fun_eq_iff)
qed

lemma UpsertPayment_status:
  assumes "UpsertPayment index_row ref orderID st paidAt now g = Inr (Some x, g')"
  shows "payment_status g' = (payment_status g)(ref \<mapsto> st) \<and> ps_Status x = st \<and>
    (\<forall>f. payment_status g ref = Some f \<longrightarrow> \<not> finalized f)"
  using assms [unfolded UpsertPayment_def]
  by (rule upsert_payment_row_status) (simp_all add: new_payment_def finalized_def)

lemma CancelPayment_status:
  assumes "CancelPayment index_row ref orderID now g = Inr (Some x, g')"
  shows "payment_status g' = (payment_status g)(ref \<mapsto> PaymentStatusCancelled) \<and>
    ps_Status x = PaymentStatusCancelled \<and> (\<forall>f. payment_status g ref = Some f \<longrightarrow> \<not> finalized f)"
  using assms [unfolded CancelPayment_def]
  by (rule upsert_payment_row_status) (simp_all add: new_payment_def)

lemma LinkPaymentOrder_status:
  assumes "LinkPaymentOrder ref i now g = Inr (x, g')"
  shows "payment_status g' = payment_status g"
proof -
  have "map_option p_status (List.find (\<lambda>r. p_reference_order_id r = a)
      (update_where P (\<lambda>r. r\<lparr>p_order_id := Some i, p_updated_at := now\<rparr>) rs))
    = map_option p_status (List.find (\<lambda>r. p_reference_order_id r = a) rs)" for a P rs
    by (induction rs) auto
  with assms show ?thesis
    by (auto simp: LinkPaymentOrder_def payment_status_def find_payment_row_def fun_eq_iff
        split: if_splits option.splits)
qed

interpretation payments: payment_store payment_status
  "\<lambda>r st i t g x g'. runs (PaymentRepository_Upsert r st i t) e g x g'"
  "\<lambda>r i g x g'. runs (PaymentRepository_Cancel r i) e g x g'"
  "\<lambda>r i g g'. runs (PaymentRepository_LinkOrder r i) e g () g'"
  for e
  by unfold_locales
    (auto simp: PaymentRepository_LinkOrder_def LinkPaymentOrder_status
      dest!: runs_Upsert runs_Cancel_payment dest: UpsertPayment_status CancelPayment_status)

section \<open>Orders: runs and the storage contract\<close>

text \<open>The keys of \<open>orders\<close>: unique, positive and not beyond the sequence; items refer to drawn ids.\<close>

definition orders_wf :: "pg \<Rightarrow> bool" where
  "orders_wf g \<longleftrightarrow>
     unique_on o_id (orders g) \<and> unique_on o_order_id (orders g) \<and> 0 \<le> orders_seq g \<and>
     (\<forall>r \<in> set (orders g). 0 < o_id r \<and> o_id r \<le> orders_seq g) \<and>
     (\<forall>x \<in> set (order_items g). i_order_id x \<le> orders_seq g)"

definition order_of :: "pg \<Rightarrow> string \<Rightarrow> (int \<times> string) option" where
  "order_of g r = map_option (\<lambda>x. (o_id x, o_customer_email x)) (find_order_row g r)"

text \<open>What the item columns keep of an item, if they accept it.\<close>

definition stored_item :: "OrderItem \<Rightarrow> OrderItem option" where
  "stored_item item =
     (case numeric_12_2 (Price item) of
        None \<Rightarrow> None
      | Some price \<Rightarrow>
          if text_ok (SKU item) \<and> int4_ok (Quantity item) \<and> 0 < Quantity item \<and> 0 \<le> price then Some (item\<lparr>Price := price\<rparr>) else None)"

lemma runs_Create:
  assumes "runs (OrderRepository_Create r m) e g i g'"
  obtains (existing) "i = 0" "find_order_row g r \<noteq> None" "g' = g\<lparr>orders_seq := orders_seq g + 1\<rparr>"
    | (fresh) "i = orders_seq g + 1" "find_order_row g r = None"
      "g' = g\<lparr>orders_seq := i, orders := orders g @
        [\<lparr>o_id = i, o_order_id = r, o_customer_email = m, o_payment_status = OrderStatePending,
          o_sap_id = None, o_paid_at = None, o_created_at = env_now e, o_updated_at = env_now e\<rparr>]\<rparr>"
proof -
  from assms obtain row where row: "InsertOrder (env_index_row e) r m (env_now e) g = Inr (row, g')" "i = (case row of None \<Rightarrow> 0 | Some k \<Rightarrow> k)"
    by (auto simp: OrderRepository_Create_def elim!: runs_bind_op)
  show thesis
  proof (cases "find_order_row g r")
    case None
    then have "\<not> (\<exists>x \<in> set (orders g). o_order_id x = r)" by (auto simp: find_order_row_def find_None_iff)
    with row None show thesis by (intro fresh) (auto simp: InsertOrder_def Let_def split: if_splits)
  next
    case (Some x)
    then have "\<exists>x \<in> set (orders g). o_order_id x = r" by (auto simp: find_order_row_def dest: find_SomeD)
    with row Some show thesis by (intro existing) (auto simp: InsertOrder_def Let_def split: if_splits)
  qed
qed

lemma InsertItem_stored:
  assumes "InsertItem i x now g = Inr (u, g')"
  obtains y row where "stored_item x = Some y" and "order_exists g i" and "item_of_row row = y" and "i_order_id row = i"
    and "g' = g\<lparr>order_items := order_items g @ [row]\<rparr>"
proof -
  from assms obtain p where p: "text_ok (SKU x)" "numeric_12_2 (Price x) = Some p" "int4_ok (Quantity x)" "\<not> Quantity x \<le> 0" "\<not> p < 0"
    and "order_exists g i"
    and "g' = g\<lparr>order_items := order_items g @ [\<lparr>i_order_id = i, i_sku = SKU x, i_quantity = Quantity x,
      i_price = p, i_is_hardware = IsHardware x\<rparr>]\<rparr>"
    by (auto simp: InsertItem_def split: if_splits option.splits)
  moreover from p have "stored_item x = Some (x\<lparr>Price := p\<rparr>)" by (simp add: stored_item_def)
  ultimately show thesis by (intro that) (auto simp: item_of_row_def)
qed

lemma runs_AddItems:
  "runs (OrderRepository_AddItems i xs) e g u g' \<Longrightarrow>
     \<exists>rows. map stored_item xs = map (\<lambda>r. Some (item_of_row r)) rows \<and> (\<forall>r \<in> set rows. i_order_id r = i) \<and>
       (rows = [] \<or> order_exists g i) \<and> g' = g\<lparr>order_items := order_items g @ rows\<rparr>"
proof (induction xs arbitrary: g)
  case Nil
  then show ?case by simp
next
  case (Cons x xs)
  from Cons.prems obtain g1 where x: "InsertItem i x (env_now e) g = Inr ((), g1)"
    and xs: "runs (OrderRepository_AddItems i xs) e g1 u g'"
    by (auto elim!: runs_bind_op)
  from x obtain row where row: "stored_item x = Some (item_of_row row)" "i_order_id row = i" "order_exists g i"
    and g1: "g1 = g\<lparr>order_items := order_items g @ [row]\<rparr>"
    by (auto elim!: InsertItem_stored)
  from Cons.IH [OF xs] obtain rows where
    "map stored_item xs = map (\<lambda>r. Some (item_of_row r)) rows" "\<forall>r \<in> set rows. i_order_id r = i"
    "g' = g1\<lparr>order_items := order_items g1 @ rows\<rparr>" by auto
  with row g1 show ?case by (intro exI [of _ "row # rows"]) simp
qed

lemma runs_Find:
  "runs (OrderRepository_Find r) e g x g' \<Longrightarrow>
     g' = g \<and> x = map_option (\<lambda>w. \<lparr>so_ID = o_id w, so_CustomerEmail = o_customer_email w,
       so_Items = items_of_order g (o_id w)\<rparr>) (find_order_row g r)"
  by (auto simp: OrderRepository_Find_def OrderRepository_ListItems_def FindOrder_def FindItems_def select_def
      elim!: runs_bind_op split: option.splits)

lemma runs_Find_Some:
  assumes "runs (OrderRepository_Find r) e g (Some x) g'"
  shows "g' = g \<and> (\<exists>w. find_order_row g r = Some w \<and>
    x = \<lparr>so_ID = o_id w, so_CustomerEmail = o_customer_email w, so_Items = items_of_order g (o_id w)\<rparr>)"
  using runs_Find [OF assms] by (cases "find_order_row g r") auto

interpretation orders: order_store orders_wf order_of items_of_order stored_item
  "\<lambda>r m g i g'. runs (OrderRepository_Create r m) e g i g'"
  "\<lambda>i xs g g'. runs (OrderRepository_AddItems i xs) e g () g'"
  "\<lambda>r g x g'. runs (OrderRepository_Find r) e g x g'"
  for e
proof unfold_locales
  fix s r m i s'
  assume wf: "orders_wf s" and run: "runs (OrderRepository_Create r m) e s i s'"
  from run wf show "orders_wf s'"
    by (cases rule: runs_Create) (auto simp: orders_wf_def find_order_row_def find_None_iff)
  from run wf show "i = 0 \<longleftrightarrow> order_of s r \<noteq> None"
    by (cases rule: runs_Create) (auto simp: orders_wf_def order_of_def)
  from run wf show "order_of s' = (if i = 0 then order_of s else (order_of s)(r \<mapsto> (i, m)))"
    by (cases rule: runs_Create)
      (auto simp: orders_wf_def order_of_def find_order_row_def find_snoc fun_eq_iff split: option.splits)
  {
    assume "i \<noteq> 0"
    with run wf show "items_of_order s' i = []"
      by (cases rule: runs_Create) (auto simp: orders_wf_def items_of_order_def filter_empty_conv)
  }
next
  fix i xs s s'
  assume "runs (OrderRepository_AddItems i xs) e s () s'"
  then obtain rows where rows: "map stored_item xs = map (\<lambda>r. Some (item_of_row r)) rows"
    "\<forall>r \<in> set rows. i_order_id r = i" "s' = s\<lparr>order_items := order_items s @ rows\<rparr>"
    by (auto dest: runs_AddItems)
  then have "order_of s' = order_of s" and "items_of_order s' i = items_of_order s i @ map item_of_row rows"
    by (auto simp: order_of_def find_order_row_def items_of_order_def fun_eq_iff)
  with rows(1) show "order_of s' = order_of s \<and>
      (\<exists>ys. map stored_item xs = map Some ys \<and> items_of_order s' i = items_of_order s i @ ys)"
    by (intro conjI exI [of _ "map item_of_row rows"]) simp_all
next
  fix r s x s'
  assume "runs (OrderRepository_Find r) e s x s'"
  then show "s' = s \<and> x = map_option (\<lambda>(i, e). \<lparr>so_ID = i, so_CustomerEmail = e, so_Items = items_of_order s i\<rparr>)
      (order_of s r)"
    by (auto simp: order_of_def option.map_comp comp_def dest!: runs_Find)
qed

section \<open>Jobs: runs and the claim contract\<close>

definition jobs_wf :: "pg \<Rightarrow> bool" where
  "jobs_wf g \<longleftrightarrow> unique_on j_id (sync_jobs g)"

definition eligible :: "time \<Rightarrow> pg \<Rightarrow> int \<Rightarrow> bool" where
  "eligible t g i \<longleftrightarrow> (\<exists>j \<in> set (sync_jobs g). j_id j = i \<and> claimable t g j)"

definition job_attempts :: "pg \<Rightarrow> int \<Rightarrow> int" where
  "job_attempts g i = (case List.find (\<lambda>j. j_id j = i) (sync_jobs g) of None \<Rightarrow> 0 | Some j \<Rightarrow> j_attempts j)"

lemma claim_candidate_Some:
  "claim_candidate L t g = Some j \<Longrightarrow>
     j \<in> set (sync_jobs g) \<and> claimable t g j \<and> j_id j \<notin> set L \<and>
     (\<forall>k \<in> set (sync_jobs g). claimable t g k \<and> j_id k \<notin> set L \<longrightarrow> claim_key j \<le> claim_key k)"
  by (auto simp: claim_candidate_def dest!: first_min_Some)

lemma runs_claim_query [simp]:
  "runs claim_query e g x g' \<longleftrightarrow> ClaimJob (env_locked e) (env_now e) g = Inr (x, g')"
proof -
  have "runs claim_query e g x g' \<longleftrightarrow> runs (statement (ClaimJob (env_locked e))) e g x g'"
    by (simp add: runs_def claim_query_def)
  then show ?thesis by simp
qed

text \<open>A successful claim: nothing to do, or the earliest candidate is locked and handed out.\<close>

lemma runs_claim_work:
  assumes "runs claim_work e g x g'"
  obtains (none) "x = None" "g' = g"
      "claim_candidate (env_locked e) (env_now e) g = None \<or>
       (\<exists>j. claim_candidate (env_locked e) (env_now e) g = Some j \<and> \<not> order_exists g (j_order_id j))"
    | (claimed) j r t where "claim_candidate (env_locked e) (env_now e) g = Some j"
      "List.find (\<lambda>r. o_id r = j_order_id j) (orders g) = Some r" "o_paid_at r = Some t"
      "g' = g\<lparr>sync_jobs := update_where (\<lambda>k. j_id k = j_id j) (lock_row (env_now e)) (sync_jobs g)\<rparr>"
      "\<exists>items. JobItems (j_id j) (env_now e) g' = Inr (items, g') \<and>
        x = Some \<lparr>job_ID = j_id j, job_Status = j_status j, job_Attempts = j_attempts j + 1,
          job_DueAt = Some (j_due_at j), job_WaitingSince = j_waiting_since j,
          job_Details = \<lparr>od_OrderID = o_order_id r, od_CustomerEmail = o_customer_email r,
            od_PaidAt = env_rfc3339nano e t, od_Items = items\<rparr>\<rparr>"
proof -
  from assms obtain row where row: "ClaimJob (env_locked e) (env_now e) g = Inr (row, g)"
    and rest: "case row of None \<Rightarrow> x = None \<and> g' = g
      | Some (j, r) \<Rightarrow> (\<exists>t g1 items. o_paid_at r = Some t \<and> LockJob (j_id j) (env_now e) g = Inr ((), g1) \<and>
          JobItems (j_id j) (env_now e) g1 = Inr (items, g') \<and>
          x = Some \<lparr>job_ID = j_id j, job_Status = j_status j, job_Attempts = j_attempts j + 1,
            job_DueAt = Some (j_due_at j), job_WaitingSince = j_waiting_since j,
            job_Details = \<lparr>od_OrderID = o_order_id r, od_CustomerEmail = o_customer_email r,
              od_PaidAt = env_rfc3339nano e t, od_Items = items\<rparr>\<rparr>)"
    unfolding claim_work_def loadJobItems_def
    by (auto simp: runs_claim_query ClaimJob_def select_def elim!: runs_bind_op split: option.splits prod.splits)
  show thesis
  proof (cases row)
    case None
    with row rest show thesis
      by (intro none) (auto simp: ClaimJob_def select_def order_exists_def find_None_iff split: option.splits bind_splits)
  next
    case (Some p)
    with row rest show thesis
      by (cases p) (auto simp: ClaimJob_def select_def LockJob_def JobItems_def lock_row_def bind_eq_Some_conv intro!: claimed)
  qed
qed

lemma claimable_lock_row:
  "t' < t + stale_after \<Longrightarrow> \<not> claimable t' g (lock_row t j)"
  by (auto simp: claimable_def scheduled_def)

lemma claimable_same_orders: "orders g' = orders g \<Longrightarrow> claimable t g' j = claimable t g j"
  by (simp add: claimable_def order_not_cancelled_def)

lemma job_attempts_lock:
  "job_attempts (g\<lparr>sync_jobs := update_where (\<lambda>k. j_id k = i) (lock_row t) (sync_jobs g)\<rparr>) k =
     (if k = i \<and> (\<exists>j \<in> set (sync_jobs g). j_id j = i) then job_attempts g k + 1 else job_attempts g k)"
proof (cases "List.find (\<lambda>j. j_id j = k) (sync_jobs g)")
  case None
  then show ?thesis
    by (auto simp: job_attempts_def find_update_where_key [where k = j_id] dest: find_NoneD)
next
  case (Some j)
  then have "j \<in> set (sync_jobs g)" and "j_id j = k" by (auto dest: find_SomeD)
  with Some show ?thesis by (auto simp: job_attempts_def find_update_where_key [where k = j_id])
qed

lemma ClaimDue_runs: "runs ClaimDue e g x g' \<Longrightarrow> runs claim_work e g x g'"
  unfolding ClaimDue_def runs_def by (blast dest: in_transaction_Inr [unfolded runs_def])

interpretation jobs: job_queue jobs_wf eligible job_attempts
  "\<lambda>t g x g'. \<exists>L X F. runs ClaimDue \<lparr>env_now = t, env_locked = L, env_index_row = X, env_rfc3339nano = F\<rparr> g x g'"
proof unfold_locales
  fix s s' :: pg and t x
  assume wf: "jobs_wf s" and "\<exists>L X F. runs ClaimDue \<lparr>env_now = t, env_locked = L, env_index_row = X, env_rfc3339nano = F\<rparr> s x s'"
  then obtain L X F where "runs claim_work \<lparr>env_now = t, env_locked = L, env_index_row = X, env_rfc3339nano = F\<rparr> s x s'" by (auto dest: ClaimDue_runs)
  then show "jobs_wf s'"
    using wf by (cases rule: runs_claim_work) (auto simp: jobs_wf_def intro: unique_on_update_where)
next
  fix s s' :: pg and t j
  assume wf: "jobs_wf s" and "\<exists>L X F. runs ClaimDue \<lparr>env_now = t, env_locked = L, env_index_row = X, env_rfc3339nano = F\<rparr> s (Some j) s'"
  then obtain L X F where run: "runs claim_work \<lparr>env_now = t, env_locked = L, env_index_row = X, env_rfc3339nano = F\<rparr> s (Some j) s'"
    by (auto dest: ClaimDue_runs)
  from run obtain k where k: "claim_candidate L t s = Some k" "job_ID j = j_id k" "job_Attempts j = j_attempts k + 1"
    and s': "s' = s\<lparr>sync_jobs := update_where (\<lambda>y. j_id y = j_id k) (lock_row t) (sync_jobs s)\<rparr>"
    by (cases rule: runs_claim_work) auto
  then have mem: "k \<in> set (sync_jobs s)" "claimable t s k" by (auto dest: claim_candidate_Some)
  then show "eligible t s (job_ID j)" using k by (auto simp: eligible_def)
  {
    fix t' assume "t' < t + stale_after"
    then show "\<not> eligible t' s' (job_ID j)"
      using s' k by (auto simp: eligible_def set_update_where claimable_lock_row)
  next
    fix i t' assume "i \<noteq> job_ID j"
    have "claimable t' s' y = claimable t' s y" for y
      using s' by (intro claimable_same_orders) simp
    moreover have "sync_jobs s' = update_where (\<lambda>y. j_id y = j_id k) (lock_row t) (sync_jobs s)"
      using s' by simp
    ultimately show "eligible t' s' i = eligible t' s i"
      using \<open>i \<noteq> job_ID j\<close> k(2) unfolding eligible_def by (simp add: bex_update_where) metis
  }
  have "job_attempts s (j_id k) = j_attempts k"
    using wf mem by (simp add: job_attempts_def jobs_wf_def find_unique)
  with k s' mem show "job_Attempts j = job_attempts s (job_ID j) + 1 \<and>
      job_attempts s' = (job_attempts s)(job_ID j := job_Attempts j)"
    by (auto simp: fun_eq_iff job_attempts_lock)
next
  fix s s' :: pg and t
  assume "\<exists>L X F. runs ClaimDue \<lparr>env_now = t, env_locked = L, env_index_row = X, env_rfc3339nano = F\<rparr> s None s'"
  then obtain L X F where "runs claim_work \<lparr>env_now = t, env_locked = L, env_index_row = X, env_rfc3339nano = F\<rparr> s None s'" by (auto dest: ClaimDue_runs)
  then show "s' = s" by (cases rule: runs_claim_work) auto
qed

end
