(* ===== verification/Transaction.thy ===== *)
theory Transaction
  imports Repositories
begin

text \<open>
  \<open>internal/db\<close>: the transaction runner the services execute in, and the embedded
  migration. The schema part of the migration is \<open>CREATE ... IF NOT EXISTS\<close>, so on a
  database that has the tables its effect is the seeding of the SKU catalogue.
\<close>

definition Run :: "WebhookResult op \<Rightarrow> WebhookResult op" where
  "Run work =
     in_transaction ''begin transaction: %w'' (\<lambda>_. (''commit transaction: %w'', []))
       (wrapf ''run transaction work: %w'' [] work)"

lemma Run_cases:
  assumes "Run work e (g, fs) = (r, (g', fs'))"
  obtains (failed) err where "r = Inl err" and "same_tables g' g"
    | (lost) err x where "r = Inl err" and "runs work e g x g'"
    | (committed) x where "r = Inr x" and "runs work e g x g'"
  using assms unfolding Run_def by (cases rule: in_transaction_cases) auto

lemma Run_eval_Inl [session_simps]:
  assumes "work e (g, []) = (Inl err, (g', fs'))"
  shows "Run work e (g, []) = (Inl (Wrapf ''run transaction work: %w'' [] err), (rollback g g', fs'))"
  using assms by (simp add: Run_def session_simps)

lemma Run_eval_Inr [session_simps]:
  assumes "work e (g, []) = (Inr x, (g', []))"
  shows "Run work e (g, []) = (Inr x, (g', []))"
  using assms by (simp add: Run_def session_simps)

section \<open>Migration\<close>

text \<open>\<open>INSERT INTO sku_classifications ... ON CONFLICT (sku) DO NOTHING\<close>\<close>

definition seed_sku :: "(string \<times> string) \<Rightarrow> (string \<times> string) list \<Rightarrow> (string \<times> string) list" where
  "seed_sku row rows = (if fst row \<in> fst ` set rows then rows else rows @ [row])"

definition migration_sql :: "unit query" where
  "migration_sql now g = Inr ((), g\<lparr>sku_classifications := fold seed_sku seeded_skus (sku_classifications g)\<rparr>)"

definition Migrate :: "unit op" where
  "Migrate = wrapf ''execute schema migration: %w'' [] (statement migration_sql)"

lemma seed_sku_keys: "fst ` set (seed_sku row rows) = insert (fst row) (fst ` set rows)"
  by (auto simp: seed_sku_def)

lemma fold_seed_keys: "fst ` set (fold seed_sku seeds rows) = fst ` set seeds \<union> fst ` set rows"
  by (induction seeds arbitrary: rows) (simp_all add: seed_sku_keys)

lemma fold_seed_noop: "(\<And>row. row \<in> set seeds \<Longrightarrow> fst row \<in> fst ` set rows) \<Longrightarrow> fold seed_sku seeds rows = rows"
  by (induction seeds) (auto simp: seed_sku_def)

end
