(* ===== verification/Config.thy ===== *)
theory Config
  imports Contracts
begin

text \<open>
  \<open>internal/config/config.go\<close>: the configuration record and \<open>Load\<close>. The process
  environment is the function \<open>getenv\<close> (the empty string for an unset variable, as
  \<open>os.Getenv\<close>); \<open>net/url.ParseRequestURI\<close> is the argument \<open>parse_uri\<close>, which returns
  scheme and host, or None on error.
\<close>

definition DefaultSAPMaxAttempts :: int where "DefaultSAPMaxAttempts = 3"
definition DefaultSAPMaxTotalAttempts :: int where "DefaultSAPMaxTotalAttempts = 5"
definition DefaultSAPRecoveryWindowSeconds :: int where "DefaultSAPRecoveryWindowSeconds = 15 * 60"
definition DefaultSAPListenerReconnectMaxMS :: int where "DefaultSAPListenerReconnectMaxMS = 1000"

record Config =
  Port :: int
  DatabaseURL :: string
  SAPAPIURL :: string
  HardwareSyncDelaySeconds :: int
  SAPTimeoutMS :: int
  SAPMaxAttempts :: int
  SAPMaxTotalAttempts :: int
  SAPRecoveryWindowSeconds :: int
  SAPListenerReconnectMaxMS :: int
  WebhookSecret :: string

definition intEnv :: "(string \<Rightarrow> string) \<Rightarrow> string \<Rightarrow> int \<Rightarrow> go_error + int" where
  "intEnv getenv name fallback =
     (let value = getenv name in
      if value = [] then Inr fallback
      else case ParseInt value of
             None \<Rightarrow> Inl (Wrapf ''numeric configuration values are invalid: %s must be an integer: %w'' [ArgS name]
                       (Errorf ''strconv.Atoi: parsing %q'' [ArgS value]))
           | Some parsed \<Rightarrow> Inr parsed)"

definition Load :: "(string \<Rightarrow> (string \<times> string) option) \<Rightarrow> (string \<Rightarrow> string) \<Rightarrow> go_error + Config" where
  "Load parse_uri getenv =
     (case intEnv getenv ''PORT'' 3000 of Inl err \<Rightarrow> Inl err | Inr port \<Rightarrow>
     (case intEnv getenv ''HARDWARE_SYNC_DELAY_SECONDS'' 30 of Inl err \<Rightarrow> Inl err | Inr hardwareDelay \<Rightarrow>
     (case intEnv getenv ''SAP_TIMEOUT_MS'' 3000 of Inl err \<Rightarrow> Inl err | Inr sapTimeout \<Rightarrow>
     (case intEnv getenv ''SAP_ATTEMPTS_BEFORE_WAITING'' DefaultSAPMaxAttempts of Inl err \<Rightarrow> Inl err | Inr maxAttempts \<Rightarrow>
     (case intEnv getenv ''SAP_MAX_ATTEMPTS'' DefaultSAPMaxTotalAttempts of Inl err \<Rightarrow> Inl err | Inr maxTotalAttempts \<Rightarrow>
     (case intEnv getenv ''SAP_RECOVERY_WINDOW_SECONDS'' DefaultSAPRecoveryWindowSeconds of Inl err \<Rightarrow> Inl err | Inr recoveryWindow \<Rightarrow>
     (case intEnv getenv ''SAP_LISTENER_RECONNECT_MAX_MS'' DefaultSAPListenerReconnectMaxMS of Inl err \<Rightarrow> Inl err | Inr reconnectMax \<Rightarrow>
       let c = \<lparr>Port = port, DatabaseURL = getenv ''DATABASE_URL'', SAPAPIURL = getenv ''SAP_API_URL'',
                HardwareSyncDelaySeconds = hardwareDelay, SAPTimeoutMS = sapTimeout,
                SAPMaxAttempts = maxAttempts, SAPMaxTotalAttempts = maxTotalAttempts,
                SAPRecoveryWindowSeconds = recoveryWindow, SAPListenerReconnectMaxMS = reconnectMax,
                WebhookSecret = getenv ''WEBHOOK_SECRET''\<rparr> in
       if DatabaseURL c = [] then Inl (Errorf ''DATABASE_URL is required'' [])
       else if SAPAPIURL c = [] then Inl (Errorf ''SAP_API_URL is required'' [])
       else if (case parse_uri (SAPAPIURL c) of None \<Rightarrow> True | Some (scheme, host) \<Rightarrow> scheme = [] \<or> host = [])
         then Inl (Errorf ''SAP_API_URL must be a valid URL'' [])
       else if Port c \<le> 0 \<or> HardwareSyncDelaySeconds c < 0 \<or> SAPTimeoutMS c \<le> 0 \<or> SAPMaxAttempts c \<le> 0
           \<or> SAPMaxTotalAttempts c \<le> 0 \<or> SAPRecoveryWindowSeconds c \<le> 0 \<or> SAPListenerReconnectMaxMS c \<le> 0
         then Inl (Errorf ''numeric configuration values are invalid'' [])
       else Inr c)))))))"

section \<open>What a loaded configuration guarantees\<close>

definition valid_config :: "Config \<Rightarrow> bool" where
  "valid_config c \<longleftrightarrow>
     DatabaseURL c \<noteq> [] \<and> SAPAPIURL c \<noteq> [] \<and> 0 < Port c \<and> 0 \<le> HardwareSyncDelaySeconds c \<and>
     0 < SAPTimeoutMS c \<and> 0 < SAPMaxAttempts c \<and> 0 < SAPMaxTotalAttempts c \<and>
     0 < SAPRecoveryWindowSeconds c \<and> 0 < SAPListenerReconnectMaxMS c"

lemma Load_valid: "Load parse_uri getenv = Inr c \<Longrightarrow> valid_config c"
  by (auto simp: Load_def valid_config_def Let_def split: sum.splits if_splits)

lemma intEnv_cases:
  "intEnv getenv name d = Inr v \<longleftrightarrow>
     (getenv name = [] \<and> v = d) \<or> (getenv name \<noteq> [] \<and> ParseInt (getenv name) = Some v)"
  by (auto simp: intEnv_def Let_def split: option.splits)

section \<open>Writing a configuration\<close>

text \<open>The environment that spells out a configuration.\<close>

definition env_of :: "Config \<Rightarrow> string \<Rightarrow> string" where
  "env_of c name =
     (if name = ''PORT'' then Itoa (Port c) else if name = ''DATABASE_URL'' then DatabaseURL c
      else if name = ''SAP_API_URL'' then SAPAPIURL c else if name = ''WEBHOOK_SECRET'' then WebhookSecret c
      else if name = ''HARDWARE_SYNC_DELAY_SECONDS'' then Itoa (HardwareSyncDelaySeconds c)
      else if name = ''SAP_TIMEOUT_MS'' then Itoa (SAPTimeoutMS c)
      else if name = ''SAP_ATTEMPTS_BEFORE_WAITING'' then Itoa (SAPMaxAttempts c)
      else if name = ''SAP_MAX_ATTEMPTS'' then Itoa (SAPMaxTotalAttempts c)
      else if name = ''SAP_RECOVERY_WINDOW_SECONDS'' then Itoa (SAPRecoveryWindowSeconds c)
      else if name = ''SAP_LISTENER_RECONNECT_MAX_MS'' then Itoa (SAPListenerReconnectMaxMS c) else [])"

definition int64_config :: "Config \<Rightarrow> bool" where
  "int64_config c \<longleftrightarrow> (\<forall>i \<in> {Port c, HardwareSyncDelaySeconds c, SAPTimeoutMS c, SAPMaxAttempts c, SAPMaxTotalAttempts c,
     SAPRecoveryWindowSeconds c, SAPListenerReconnectMaxMS c}. - (2 ^ 63) \<le> i \<and> i < 2 ^ 63)"

lemma intEnv_Itoa:
  assumes "getenv name = Itoa i" and "- (2 ^ 63) \<le> i" and "i < 2 ^ 63"
  shows "intEnv getenv name d = Inr i"
proof -
  have p: "ParseInt (getenv name) = Some i" using assms by (simp add: ParseInt_Itoa)
  moreover have "ParseInt [] = None" by code_simp
  ultimately show ?thesis by (auto simp: intEnv_cases)
qed

definition uri_ok :: "(string \<Rightarrow> (string \<times> string) option) \<Rightarrow> string \<Rightarrow> bool" where
  "uri_ok parse_uri s \<longleftrightarrow> (case parse_uri s of None \<Rightarrow> False | Some (scheme, host) \<Rightarrow> scheme \<noteq> [] \<and> host \<noteq> [])"

lemma Load_env_of:
  assumes "int64_config c"
  shows "Load parse_uri (env_of c) = Inr c' \<longleftrightarrow> c' = c \<and> valid_config c \<and> uri_ok parse_uri (SAPAPIURL c)"
proof -
  have ints: "intEnv (env_of c) ''PORT'' d = Inr (Port c)" "intEnv (env_of c) ''HARDWARE_SYNC_DELAY_SECONDS'' d = Inr (HardwareSyncDelaySeconds c)"
    "intEnv (env_of c) ''SAP_TIMEOUT_MS'' d = Inr (SAPTimeoutMS c)" "intEnv (env_of c) ''SAP_ATTEMPTS_BEFORE_WAITING'' d = Inr (SAPMaxAttempts c)"
    "intEnv (env_of c) ''SAP_MAX_ATTEMPTS'' d = Inr (SAPMaxTotalAttempts c)"
    "intEnv (env_of c) ''SAP_RECOVERY_WINDOW_SECONDS'' d = Inr (SAPRecoveryWindowSeconds c)"
    "intEnv (env_of c) ''SAP_LISTENER_RECONNECT_MAX_MS'' d = Inr (SAPListenerReconnectMaxMS c)" for d
    using assms by (simp_all add: intEnv_Itoa env_of_def int64_config_def)
  have texts: "env_of c ''DATABASE_URL'' = DatabaseURL c" "env_of c ''SAP_API_URL'' = SAPAPIURL c" "env_of c ''WEBHOOK_SECRET'' = WebhookSecret c"
    by (simp_all add: env_of_def)
  show ?thesis
    unfolding Load_def ints texts sum.case by (auto simp: Let_def valid_config_def uri_ok_def split: option.split)
qed

end
