(* ===== verification/Orders.thy ===== *)
theory Orders
  imports Transaction Config
begin

text \<open>
  \<open>internal/orders/service.go\<close>: reading an order's status, and marking an order paid and
  scheduling its synchronization job with the delay that depends on hardware items.
\<close>

definition GetOrderStatus :: "string \<Rightarrow> OrderStatus option op" where
  "GetOrderStatus orderID = OrderRepository_FindStatus orderID"

fun itemSKUs :: "OrderItem list \<Rightarrow> string list" where
  "itemSKUs [] = []"
| "itemSKUs (item # items) = (if IsHardware item = None then SKU item # itemSKUs items else itemSKUs items)"

text \<open>The loop over the items that sets \<open>hasHardware\<close> on an explicit override.\<close>

fun override_hardware :: "OrderItem list \<Rightarrow> bool \<Rightarrow> bool" where
  "override_hardware [] hasHardware = hasHardware"
| "override_hardware (item # items) hasHardware =
     (if IsHardware item = Some True then True else override_hardware items hasHardware)"

definition MarkPaidAndSchedule :: "Config \<Rightarrow> int \<Rightarrow> OrderItem list \<Rightarrow> time \<Rightarrow> unit op" where
  "MarkPaidAndSchedule cfg i items paidAt =
     bind_op (if itemSKUs items \<noteq> [] then SKUClassifier_HasHardware (itemSKUs items) else ret False)
       (\<lambda>classifiedHardware.
          let hasHardware = override_hardware items classifiedHardware in
          bind_op (OrderRepository_MarkPaid i paidAt)
            (\<lambda>_. OrderRepository_ScheduleSync i (if hasHardware then HardwareSyncDelaySeconds cfg else 0)))"

section \<open>Hardware orders\<close>

text \<open>
  What the code computes: an item is hardware when its override says so or, without an
  override, when the catalogue lists its SKU as hardware.
\<close>

definition hardware_sku :: "pg \<Rightarrow> string \<Rightarrow> bool" where
  "hardware_sku g sku \<longleftrightarrow> (sku, ''HARDWARE'') \<in> set (sku_classifications g)"

definition hardware_item :: "pg \<Rightarrow> OrderItem \<Rightarrow> bool" where
  "hardware_item g item = (case IsHardware item of Some b \<Rightarrow> b | None \<Rightarrow> hardware_sku g (SKU item))"

definition hardware_order :: "pg \<Rightarrow> OrderItem list \<Rightarrow> bool" where
  "hardware_order g items \<longleftrightarrow> (\<exists>item \<in> set items. hardware_item g item)"

lemma hardware_item_iff:
  "hardware_item g item \<longleftrightarrow> IsHardware item = Some True \<or> IsHardware item = None \<and> hardware_sku g (SKU item)"
  by (cases "IsHardware item") (auto simp: hardware_item_def)

lemma set_itemSKUs: "set (itemSKUs items) = SKU ` {item \<in> set items. IsHardware item = None}"
  by (induction items) auto

lemma override_hardware_iff:
  "override_hardware items h \<longleftrightarrow> h \<or> (\<exists>item \<in> set items. IsHardware item = Some True)"
  by (induction items) auto

lemma HasHardware_result:
  "runs (SKUClassifier_HasHardware skus) e g b g' \<Longrightarrow> g' = g \<and> b = (\<exists>sku \<in> set skus. hardware_sku g sku)"
  by (auto simp: SKUClassifier_HasHardware_def HasHardwareSKU_def select_def hardware_sku_def split: if_splits)

lemma classify_items:
  "override_hardware items (\<exists>sku \<in> set (itemSKUs items). hardware_sku g sku) = hardware_order g items"
  by (auto simp: override_hardware_iff set_itemSKUs hardware_order_def hardware_item_iff)

definition sync_delay :: "Config \<Rightarrow> pg \<Rightarrow> OrderItem list \<Rightarrow> int" where
  "sync_delay cfg g items = (if hardware_order g items then HardwareSyncDelaySeconds cfg else 0)"

text \<open>A successful call marks the order paid and then schedules with the delay its items call for.\<close>

lemma runs_MarkPaidAndSchedule:
  assumes "runs (MarkPaidAndSchedule cfg i items paidAt) e g u g'"
  obtains g1 where "MarkPaid i paidAt (env_now e) g = Inr ((), g1)"
    and "ScheduleSync i (sync_delay cfg g items) (env_now e) g1 = Inr ((), g')"
proof -
  from assms obtain b g0 where
    b: "runs (if itemSKUs items \<noteq> [] then SKUClassifier_HasHardware (itemSKUs items) else ret False) e g b g0"
    and rest: "runs (let hasHardware = override_hardware items b in
          bind_op (OrderRepository_MarkPaid i paidAt)
            (\<lambda>_. OrderRepository_ScheduleSync i (if hasHardware then HardwareSyncDelaySeconds cfg else 0))) e g0 u g'"
    unfolding MarkPaidAndSchedule_def by (elim runs_bind_op)
  from b have "g0 = g" and "b = (\<exists>sku \<in> set (itemSKUs items). hardware_sku g sku)"
    by (auto split: if_splits dest: HasHardware_result)
  with rest show thesis
    by (auto simp: Let_def OrderRepository_MarkPaid_def OrderRepository_ScheduleSync_def classify_items
        sync_delay_def elim!: runs_bind_op intro!: that)
qed

end
