(* ===== verification/Shop.thy ===== *)
theory Shop
  imports Orders
begin

text \<open>
  \<open>internal/shop\<close>: normalization and validation of the shop webhook, and its processing:
  deduplicate the event, create the order once, and reconcile it with a payment that
  arrived first. \<open>net/mail.ParseAddress\<close> is the argument \<open>parse_address\<close>, which returns the
  address part of a parsed string.
\<close>

section \<open>webhook.go\<close>

definition NormalizeShopWebhook :: "shop_Webhook \<Rightarrow> shop_Webhook" where
  "NormalizeShopWebhook p =
     p\<lparr>sw_EventID := TrimSpace (sw_EventID p), sw_OrderID := TrimSpace (sw_OrderID p),
       sw_CustomerEmail := TrimSpace (sw_CustomerEmail p),
       sw_Items := map (\<lambda>item. item\<lparr>SKU := TrimSpace (SKU item)\<rparr>) (sw_Items p)\<rparr>"

definition issuePath :: "path_element list \<Rightarrow> string \<Rightarrow> ValidationIssue" where
  "issuePath path message = \<lparr>vi_Code = ''invalid_value'', vi_Path = path, vi_Message = message\<rparr>"

definition shop_issue :: "string \<Rightarrow> string \<Rightarrow> ValidationIssue" where
  "shop_issue field message = issuePath [PathField field] message"

fun item_issues :: "nat \<Rightarrow> OrderItem list \<Rightarrow> ValidationIssue list" where
  "item_issues i [] = []"
| "item_issues i (item # items) =
     (if SKU item = [] then [issuePath [PathField ''items'', PathIndex i, PathField ''sku''] ''Required''] else [])
     @ (if Quantity item \<le> 0
        then [issuePath [PathField ''items'', PathIndex i, PathField ''quantity''] ''Must be a positive integer''] else [])
     @ (if Price item < 0
        then [issuePath [PathField ''items'', PathIndex i, PathField ''price''] ''Must be non-negative''] else [])
     @ item_issues (Suc i) items"

definition ValidateShopWebhook :: "(string \<Rightarrow> string option) \<Rightarrow> shop_Webhook \<Rightarrow> ValidationIssue list" where
  "ValidateShopWebhook parse_address p =
     (if sw_EventID p = [] then [shop_issue ''event_id'' ''Required''] else [])
     @ (if sw_OrderID p = [] then [shop_issue ''order_id'' ''Required''] else [])
     @ (if sw_CustomerEmail p = [] then [shop_issue ''customer_email'' ''Required'']
        else if parse_address (sw_CustomerEmail p) \<noteq> Some (sw_CustomerEmail p)
        then [shop_issue ''customer_email'' ''Invalid email address''] else [])
     @ (if sw_Items p = [] then [shop_issue ''items'' ''At least one item is required''] else [])
     @ item_issues 0 (sw_Items p)"

section \<open>service.go\<close>

definition sameHardwareOverride :: "bool option \<Rightarrow> bool option \<Rightarrow> bool" where
  "sameHardwareOverride left right \<longleftrightarrow>
     (left = None \<and> right = None) \<or> (\<exists>l r. left = Some l \<and> right = Some r \<and> l = r)"

definition same_item :: "OrderItem \<Rightarrow> OrderItem \<Rightarrow> bool" where
  "same_item item incoming \<longleftrightarrow>
     SKU item = SKU incoming \<and> Quantity item = Quantity incoming \<and> Price item = Price incoming \<and>
     sameHardwareOverride (IsHardware item) (IsHardware incoming)"

text \<open>The inner loop: mark the first incoming item not yet matched that equals \<open>item\<close>.\<close>

fun match_item :: "OrderItem \<Rightarrow> OrderItem list \<Rightarrow> bool list \<Rightarrow> bool list option" where
  "match_item item (incoming # items) (m # matched) =
     (if \<not> m \<and> same_item item incoming then Some (True # matched)
      else map_option ((#) m) (match_item item items matched))"
| "match_item item items matched = None"

fun match_items :: "OrderItem list \<Rightarrow> OrderItem list \<Rightarrow> bool list \<Rightarrow> bool" where
  "match_items [] items matched = True"
| "match_items (item # existing) items matched =
     (case match_item item items matched of
        None \<Rightarrow> False
      | Some matched' \<Rightarrow> match_items existing items matched')"

definition sameOrderPayload :: "StoredOrder \<Rightarrow> shop_Webhook \<Rightarrow> bool" where
  "sameOrderPayload existing payload =
     (if so_CustomerEmail existing \<noteq> sw_CustomerEmail payload \<or> length (so_Items existing) \<noteq> length (sw_Items payload)
      then False
      else match_items (so_Items existing) (sw_Items payload) (replicate (length (sw_Items payload)) False))"

definition shopResult :: "string \<Rightarrow> string \<Rightarrow> string \<Rightarrow> WebhookResult op" where
  "shopResult eventID orderID message =
     bind_op (wrapf ''load order status for %q: %w'' [ArgS orderID] (OrderRepository_FindStatus orderID))
       (\<lambda>status. ret (case status of
          None \<Rightarrow> webhook_result message eventID orderID
        | Some st \<Rightarrow> (webhook_result message eventID orderID)
            \<lparr>wr_PaymentStatus := os_PaymentStatus st, wr_OrderStatus := os_Status st, wr_SyncStatus := os_SyncStatus st\<rparr>))"

text \<open>\<open>reconcilePayment\<close> after the link: what the status of the earlier payment asks for.\<close>

definition settle_order :: "shop_Webhook \<Rightarrow> int \<Rightarrow> Config \<Rightarrow> PaymentState \<Rightarrow> unit op" where
  "settle_order payload i cfg paymentState =
     (if ps_Status paymentState = PaymentStatusCancelled
      then bind_op (OrderRepository_Cancel i)
        (\<lambda>_. wrapf ''mark payment events for order %q processed: %w'' [ArgS (sw_OrderID payload)]
               (EventRepository_MarkPaymentEventsProcessed (sw_OrderID payload)))
      else if ps_Status paymentState \<noteq> PaymentStatusCompleted then ret ()
      else case ps_PaidAt paymentState of
        None \<Rightarrow> throw (Errorf ''completed payment %s has no paid_at'' [ArgS (sw_OrderID payload)])
      | Some paidAt \<Rightarrow>
          bind_op (wrapf ''mark order %d paid: %w'' [ArgD i] (MarkPaidAndSchedule cfg i (sw_Items payload) paidAt))
            (\<lambda>_. wrapf ''mark payment events for order %q processed: %w'' [ArgS (sw_OrderID payload)]
                   (EventRepository_MarkPaymentEventsProcessed (sw_OrderID payload))))"

definition reconcilePayment :: "shop_Webhook \<Rightarrow> int \<Rightarrow> Config \<Rightarrow> unit op" where
  "reconcilePayment payload i cfg =
     bind_op (wrapf ''find payment for order %q: %w'' [ArgS (sw_OrderID payload)] (PaymentRepository_Find (sw_OrderID payload)))
       (\<lambda>found. case found of
          None \<Rightarrow> ret ()
        | Some paymentState \<Rightarrow>
            bind_op (if ps_OrderID paymentState = None
                then wrapf ''link payment to order %d: %w'' [ArgD i] (PaymentRepository_LinkOrder (sw_OrderID payload) i)
                else ret ())
              (\<lambda>_. settle_order payload i cfg paymentState))"

text \<open>The branch of a repeated event id.\<close>

definition replayed_shop_event :: "shop_Webhook \<Rightarrow> WebhookResult op" where
  "replayed_shop_event payload =
     bind_op (wrapf ''load existing order %q: %w'' [ArgS (sw_OrderID payload)] (OrderRepository_Find (sw_OrderID payload)))
       (\<lambda>existing. case existing of
          None \<Rightarrow> throw (Sentinel ErrOrderPayloadConflict)
        | Some order \<Rightarrow>
            if \<not> sameOrderPayload order payload then throw (Sentinel ErrOrderPayloadConflict)
            else bind_op (shopResult (sw_EventID payload) (sw_OrderID payload) ''Shop event already processed'')
              (\<lambda>result. ret (result\<lparr>wr_Duplicate := True\<rparr>)))"

text \<open>The branch of a new event for an order that is already stored.\<close>

definition existing_shop_order :: "shop_Webhook \<Rightarrow> WebhookResult op" where
  "existing_shop_order payload =
     bind_op (wrapf ''load existing order %q: %w'' [ArgS (sw_OrderID payload)] (OrderRepository_Find (sw_OrderID payload)))
       (\<lambda>existing. case existing of
          None \<Rightarrow> throw (Sentinel ErrOrderPayloadConflict)
        | Some order \<Rightarrow>
            if \<not> sameOrderPayload order payload then throw (Sentinel ErrOrderPayloadConflict)
            else
              bind_op (wrapf ''mark shop event %q processed: %w'' [ArgS (sw_EventID payload)]
                  (EventRepository_MarkProcessed EventTypeShop (sw_EventID payload)))
                (\<lambda>_. bind_op (shopResult (sw_EventID payload) (sw_OrderID payload) ''Shop order already stored'')
                  (\<lambda>result. ret (result\<lparr>wr_Duplicate := True\<rparr>))))"

text \<open>The branch of a new order.\<close>

definition store_shop_order :: "shop_Webhook \<Rightarrow> int \<Rightarrow> Config \<Rightarrow> WebhookResult op" where
  "store_shop_order payload i cfg =
     bind_op (wrapf ''store items for order %d: %w'' [ArgD i] (OrderRepository_AddItems i (sw_Items payload)))
       (\<lambda>_. bind_op (reconcilePayment payload i cfg)
         (\<lambda>_. bind_op (wrapf ''mark shop event %q processed: %w'' [ArgS (sw_EventID payload)]
             (EventRepository_MarkProcessed EventTypeShop (sw_EventID payload)))
           (\<lambda>_. shopResult (sw_EventID payload) (sw_OrderID payload) ''Order stored'')))"

definition processShop :: "shop_Webhook \<Rightarrow> Config \<Rightarrow> WebhookResult op" where
  "processShop payload cfg =
     bind_op (wrapf ''record shop event: %w'' []
         (EventRepository_Record (sw_EventID payload) EventTypeShop (ShopPayload payload)))
       (\<lambda>newEvent.
         if \<not> newEvent then replayed_shop_event payload
         else
           bind_op (wrapf ''create order %q: %w'' [ArgS (sw_OrderID payload)]
               (OrderRepository_Create (sw_OrderID payload) (sw_CustomerEmail payload)))
             (\<lambda>i. if i = 0 then existing_shop_order payload else store_shop_order payload i cfg))"

definition shop_Process :: "Config \<Rightarrow> shop_Webhook \<Rightarrow> WebhookResult op" where
  "shop_Process cfg payload = Run (processShop (NormalizeShopWebhook payload) cfg)"

section \<open>Normalization and validation\<close>

lemma NormalizeShopWebhook_idem [simp]: "NormalizeShopWebhook (NormalizeShopWebhook p) = NormalizeShopWebhook p"
  by (simp add: NormalizeShopWebhook_def comp_def)

definition valid_item :: "OrderItem \<Rightarrow> bool" where
  "valid_item item \<longleftrightarrow> SKU item \<noteq> [] \<and> 0 < Quantity item \<and> 0 \<le> Price item"

lemma item_issues_Nil: "item_issues i items = [] \<longleftrightarrow> (\<forall>item \<in> set items. valid_item item)"
  by (induction items arbitrary: i) (auto simp: valid_item_def)

section \<open>Comparing payloads\<close>

lemma sameHardwareOverride_iff: "sameHardwareOverride l r \<longleftrightarrow> l = r"
  by (cases l; cases r) (auto simp: sameHardwareOverride_def)

lemma same_item_iff: "same_item x y \<longleftrightarrow> x = y"
  by (auto simp: same_item_def sameHardwareOverride_iff)

text \<open>The incoming items not matched so far.\<close>

fun unmatched :: "OrderItem list \<Rightarrow> bool list \<Rightarrow> OrderItem multiset" where
  "unmatched (x # xs) (m # ms) = (if m then {#} else {#x#}) + unmatched xs ms"
| "unmatched xs ms = {#}"

lemma unmatched_replicate: "unmatched xs (replicate (length xs) False) = mset xs"
  by (induction xs) auto

lemma match_item_None: "length ms = length xs \<Longrightarrow> match_item x xs ms = None \<longleftrightarrow> x \<notin># unmatched xs ms"
  by (induction x xs ms rule: match_item.induct) (auto simp: same_item_iff)

lemma match_item_Some:
  "match_item x xs ms = Some ms' \<Longrightarrow>
     length ms' = length ms \<and> unmatched xs ms = add_mset x (unmatched xs ms')"
  by (induction x xs ms arbitrary: ms' rule: match_item.induct) (auto simp: same_item_iff split: if_splits)

lemma match_items_iff: "length ms = length ys \<Longrightarrow> match_items xs ys ms \<longleftrightarrow> mset xs \<subseteq># unmatched ys ms"
proof (induction xs arbitrary: ms)
  case Nil
  then show ?case by simp
next
  case (Cons x xs)
  show ?case
  proof (cases "match_item x ys ms")
    case None
    with Cons.prems have "x \<notin># unmatched ys ms" by (simp add: match_item_None)
    with None show ?thesis by (auto dest: mset_subset_eqD)
  next
    case (Some ms')
    then have "unmatched ys ms = add_mset x (unmatched ys ms')" and "length ms' = length ys"
      using Cons.prems by (auto dest: match_item_Some)
    with Some Cons.IH show ?thesis by simp
  qed
qed

text \<open>The nested loop with its flags decides equality of the item multisets.\<close>

lemma sameOrderPayload_iff:
  "sameOrderPayload existing payload \<longleftrightarrow>
     so_CustomerEmail existing = sw_CustomerEmail payload \<and> mset (so_Items existing) = mset (sw_Items payload)"
proof -
  have "mset xs \<subseteq># mset ys \<longleftrightarrow> mset xs = mset ys" if "length xs = length ys" for xs ys :: "OrderItem list"
    using that by (metis mset_subset_size size_mset subset_mset.le_less less_irrefl order_refl subset_mset.order_refl)
  then show ?thesis
    by (auto simp: sameOrderPayload_def match_items_iff unmatched_replicate dest: mset_eq_length)
qed

end
