(* ===== verification/Payment.thy ===== *)
theory Payment
  imports Shop
begin

text \<open>
  \<open>internal/payment\<close>: normalization and validation of the payment webhook, and its
  processing: deduplicate the event, keep the latest status until a final one, and carry
  a completed or cancelled payment over to its order. \<open>time.Parse(time.RFC3339, s)\<close> is the
  argument \<open>parse_time\<close> and the Unicode tables of \<open>strings.ToUpper\<close> are \<open>upper\<close>.
\<close>

section \<open>webhook.go\<close>

definition NormalizePaymentWebhook :: "(string \<Rightarrow> string) \<Rightarrow> payment_Webhook \<Rightarrow> payment_Webhook" where
  "NormalizePaymentWebhook upper p =
     p\<lparr>pw_EventID := TrimSpace (pw_EventID p), pw_ReferenceOrderID := TrimSpace (pw_ReferenceOrderID p),
       pw_PaymentStatus := ToUpper upper (TrimSpace (pw_PaymentStatus p)),
       pw_Timestamp := TrimSpace (pw_Timestamp p)\<rparr>"

definition payment_issue :: "string \<Rightarrow> string \<Rightarrow> ValidationIssue" where
  "payment_issue field message = \<lparr>vi_Code = ''invalid_value'', vi_Path = [PathField field], vi_Message = message\<rparr>"

definition ValidatePaymentWebhook :: "(string \<Rightarrow> time option) \<Rightarrow> payment_Webhook \<Rightarrow> ValidationIssue list" where
  "ValidatePaymentWebhook parse_time p =
     (if pw_EventID p = [] then [payment_issue ''event_id'' ''Required''] else [])
     @ (if pw_ReferenceOrderID p = [] then [payment_issue ''reference_order_id'' ''Required''] else [])
     @ (if pw_PaymentStatus p = [] then [payment_issue ''payment_status'' ''Required''] else [])
     @ (if pw_PaymentStatus p \<noteq> [] \<and> pw_PaymentStatus p \<noteq> PaymentStatusPending
          \<and> pw_PaymentStatus p \<noteq> PaymentStatusCompleted \<and> pw_PaymentStatus p \<noteq> PaymentStatusFailed
          \<and> pw_PaymentStatus p \<noteq> PaymentStatusCancelled
        then [payment_issue ''payment_status'' ''Unsupported status''] else [])
     @ (if parse_time (pw_Timestamp p) = None then [payment_issue ''timestamp'' ''Invalid ISO datetime''] else [])"

section \<open>service.go\<close>

definition MessagePaymentRecorded :: string where
  "MessagePaymentRecorded = ''Payment status recorded; order remains unpaid''"
definition MessageAwaitingShopOrder :: string where
  "MessageAwaitingShopOrder = ''Payment stored and awaiting shop order''"
definition MessageOrderMarkedPaid :: string where
  "MessageOrderMarkedPaid = ''Order marked paid and SAP sync scheduled''"
definition MessageOrderCancelled :: string where
  "MessageOrderCancelled = ''Order cancelled''"

definition samePaymentPayload :: "payment_Webhook \<Rightarrow> payment_Webhook \<Rightarrow> bool" where
  "samePaymentPayload left right \<longleftrightarrow>
     pw_ReferenceOrderID left = pw_ReferenceOrderID right \<and> pw_PaymentStatus left = pw_PaymentStatus right \<and>
     pw_Timestamp left = pw_Timestamp right"

definition isTerminal :: "PaymentStatus \<Rightarrow> bool" where
  "isTerminal status \<longleftrightarrow> status = PaymentStatusCompleted \<or> status = PaymentStatusCancelled"

definition paymentResult :: "string \<Rightarrow> string \<Rightarrow> string \<Rightarrow> int option \<Rightarrow> WebhookResult op" where
  "paymentResult eventID orderID message internalOrderID =
     (if internalOrderID = None then ret (webhook_result message eventID orderID)
      else bind_op (wrapf ''load order status for %q: %w'' [ArgS orderID] (OrderRepository_FindStatus orderID))
        (\<lambda>status. ret (case status of
           None \<Rightarrow> webhook_result message eventID orderID
         | Some st \<Rightarrow> (webhook_result message eventID orderID)
             \<lparr>wr_PaymentStatus := os_PaymentStatus st, wr_OrderStatus := os_Status st, wr_SyncStatus := os_SyncStatus st\<rparr>)))"

fun paymentItemSKUs :: "OrderItem list \<Rightarrow> string list" where
  "paymentItemSKUs [] = []"
| "paymentItemSKUs (item # items) =
     (if IsHardware item = None then SKU item # paymentItemSKUs items else paymentItemSKUs items)"

text \<open>The loop of \<open>cancelPayment\<close> over the items; it has no \<open>break\<close>.\<close>

fun cancel_hardware :: "OrderItem list \<Rightarrow> bool \<Rightarrow> bool" where
  "cancel_hardware [] hardware = hardware"
| "cancel_hardware (item # items) hardware =
     cancel_hardware items (if IsHardware item = Some True then True else hardware)"

definition findOrderID :: "string \<Rightarrow> int option op" where
  "findOrderID ref =
     bind_op (wrapf ''find order %q: %w'' [ArgS ref] (OrderRepository_FindID ref))
       (\<lambda>i. ret (if i = 0 then None else Some i))"

definition cancelPayment :: "payment_Webhook \<Rightarrow> int option \<Rightarrow> WebhookResult op" where
  "cancelPayment payload orderID =
     bind_op (case orderID of
         None \<Rightarrow> ret ()
       | Some i \<Rightarrow>
           bind_op (wrapf ''load items for order %d: %w'' [ArgD i] (OrderRepository_ListItems i))
             (\<lambda>items. bind_op (wrapf ''classify order %d: %w'' [ArgD i] (SKUClassifier_HasHardware (paymentItemSKUs items)))
               (\<lambda>hardware. if \<not> cancel_hardware items hardware then throw (Sentinel ErrDigitalCancellation) else ret ())))
       (\<lambda>_. bind_op (PaymentRepository_Cancel (pw_ReferenceOrderID payload) orderID)
         (\<lambda>_. case orderID of
            None \<Rightarrow>
              bind_op (wrapf ''mark payment event %q processed: %w'' [ArgS (pw_EventID payload)]
                  (EventRepository_MarkProcessed EventTypePayment (pw_EventID payload)))
                (\<lambda>_. ret ((webhook_result MessagePaymentRecorded (pw_EventID payload) (pw_ReferenceOrderID payload))
                   \<lparr>wr_PaymentStatus := PaymentStatusCancelled\<rparr>))
          | Some i \<Rightarrow>
              bind_op (OrderRepository_Cancel i)
                (\<lambda>_. bind_op (wrapf ''mark payment event %q processed: %w'' [ArgS (pw_EventID payload)]
                    (EventRepository_MarkProcessed EventTypePayment (pw_EventID payload)))
                  (\<lambda>_. paymentResult (pw_EventID payload) (pw_ReferenceOrderID payload) MessageOrderCancelled orderID))))"

definition completePayment :: "payment_Webhook \<Rightarrow> PaymentState \<Rightarrow> int \<Rightarrow> Config \<Rightarrow> string op" where
  "completePayment payload state i cfg =
     bind_op (wrapf ''load items for order %d: %w'' [ArgD i] (OrderRepository_ListItems i))
       (\<lambda>items. case ps_PaidAt state of
          None \<Rightarrow> throw (Errorf ''completed payment %s has no paid_at'' [ArgS (pw_ReferenceOrderID payload)])
        | Some paidAt \<Rightarrow>
            bind_op (wrapf ''mark order %d paid: %w'' [ArgD i] (MarkPaidAndSchedule cfg i items paidAt))
              (\<lambda>_. bind_op (wrapf ''mark payment event %q processed: %w'' [ArgS (pw_EventID payload)]
                  (EventRepository_MarkProcessed EventTypePayment (pw_EventID payload)))
                (\<lambda>_. ret MessageOrderMarkedPaid)))"

definition replayed_payment_event :: "(string \<Rightarrow> string) \<Rightarrow> payment_Webhook \<Rightarrow> WebhookResult op" where
  "replayed_payment_event upper payload =
     bind_op (wrapf ''load payment event %q: %w'' [ArgS (pw_EventID payload)]
         (EventRepository_FindPayload EventTypePayment (pw_EventID payload)))
       (\<lambda>storedPayload.
         case storedPayload of
           None \<Rightarrow> throw (Sentinel ErrPaymentPayloadConflict)
         | Some p \<Rightarrow>
             if \<not> samePaymentPayload (NormalizePaymentWebhook upper (unmarshal_payment p)) payload
             then throw (Sentinel ErrPaymentPayloadConflict)
             else
               bind_op (wrapf ''find payment %q: %w'' [ArgS (pw_ReferenceOrderID payload)]
                   (PaymentRepository_Find (pw_ReferenceOrderID payload)))
                 (\<lambda>existing. case existing of
                    None \<Rightarrow> throw (Errorf ''load payment %q for duplicate event: payment not found'' [ArgS (pw_ReferenceOrderID payload)])
                  | Some st \<Rightarrow>
                      bind_op (paymentResult (pw_EventID payload) (pw_ReferenceOrderID payload)
                          ''Payment event already processed'' (ps_OrderID st))
                        (\<lambda>result. ret (result\<lparr>wr_Duplicate := True, wr_PaymentStatus := ps_Status st\<rparr>))))"

definition finalized_payment :: "payment_Webhook \<Rightarrow> PaymentState \<Rightarrow> WebhookResult op" where
  "finalized_payment payload existing =
     (if ps_Status existing \<noteq> pw_PaymentStatus payload then throw (Sentinel ErrPaymentFinalized)
      else
        bind_op (wrapf ''mark payment event %q processed: %w'' [ArgS (pw_EventID payload)]
            (EventRepository_MarkProcessed EventTypePayment (pw_EventID payload)))
          (\<lambda>_. bind_op (paymentResult (pw_EventID payload) (pw_ReferenceOrderID payload)
              ''Payment already finalized'' (ps_OrderID existing))
            (\<lambda>result. ret (result\<lparr>wr_Duplicate := True, wr_PaymentStatus := ps_Status existing\<rparr>))))"

definition apply_payment :: "(string \<Rightarrow> time option) \<Rightarrow> payment_Webhook \<Rightarrow> Config \<Rightarrow> WebhookResult op" where
  "apply_payment parse_time payload cfg =
     (case parse_time (pw_Timestamp payload) of
        None \<Rightarrow> throw (Wrapf ''parse payment timestamp: %w'' [] (Errorf ''parsing time %q'' [ArgS (pw_Timestamp payload)]))
      | Some timestamp \<Rightarrow>
          bind_op (findOrderID (pw_ReferenceOrderID payload))
            (\<lambda>orderID.
              if pw_PaymentStatus payload = PaymentStatusCancelled then cancelPayment payload orderID
              else
                bind_op (wrapf ''upsert payment %q: %w'' [ArgS (pw_ReferenceOrderID payload)]
                    (PaymentRepository_Upsert (pw_ReferenceOrderID payload) (pw_PaymentStatus payload) orderID
                      (if pw_PaymentStatus payload = PaymentStatusCompleted then Some timestamp else None)))
                  (\<lambda>state.
                    if pw_PaymentStatus payload \<noteq> PaymentStatusCompleted then
                      bind_op (wrapf ''mark payment event %q processed: %w'' [ArgS (pw_EventID payload)]
                          (EventRepository_MarkProcessed EventTypePayment (pw_EventID payload)))
                        (\<lambda>_. paymentResult (pw_EventID payload) (pw_ReferenceOrderID payload) MessagePaymentRecorded orderID)
                    else case orderID of
                      None \<Rightarrow>
                        bind_op (wrapf ''mark payment event %q processed: %w'' [ArgS (pw_EventID payload)]
                            (EventRepository_MarkProcessed EventTypePayment (pw_EventID payload)))
                          (\<lambda>_. ret ((webhook_result MessageAwaitingShopOrder (pw_EventID payload) (pw_ReferenceOrderID payload))
                             \<lparr>wr_PaymentStatus := ps_Status state\<rparr>))
                    | Some i \<Rightarrow>
                        bind_op (completePayment payload state i cfg)
                          (\<lambda>message. paymentResult (pw_EventID payload) (pw_ReferenceOrderID payload) message orderID))))"

definition processPayment ::
  "(string \<Rightarrow> string) \<Rightarrow> (string \<Rightarrow> time option) \<Rightarrow> payment_Webhook \<Rightarrow> Config \<Rightarrow> WebhookResult op" where
  "processPayment upper parse_time payload cfg =
     bind_op (wrapf ''record payment event: %w'' []
         (EventRepository_Record (pw_EventID payload) EventTypePayment (PaymentPayload payload)))
       (\<lambda>newEvent.
         if \<not> newEvent then replayed_payment_event upper payload
         else
           bind_op (wrapf ''find payment %q: %w'' [ArgS (pw_ReferenceOrderID payload)]
               (PaymentRepository_Find (pw_ReferenceOrderID payload)))
             (\<lambda>existing. case existing of
                None \<Rightarrow> apply_payment parse_time payload cfg
              | Some st \<Rightarrow>
                  if isTerminal (ps_Status st) then finalized_payment payload st
                  else apply_payment parse_time payload cfg))"

definition payment_Process ::
  "(string \<Rightarrow> string) \<Rightarrow> (string \<Rightarrow> time option) \<Rightarrow> Config \<Rightarrow> payment_Webhook \<Rightarrow> WebhookResult op" where
  "payment_Process upper parse_time cfg payload =
     Run (processPayment upper parse_time (NormalizePaymentWebhook upper payload) cfg)"

section \<open>Helper facts\<close>

lemma paymentItemSKUs_eq: "paymentItemSKUs items = itemSKUs items"
  by (induction items) auto

lemma cancel_hardware_eq: "cancel_hardware items h = override_hardware items h"
  by (induction items arbitrary: h) (auto simp: override_hardware_iff)

lemma isTerminal_finalized: "isTerminal s = finalized s"
  by (simp add: isTerminal_def finalized_def)

end
