(* ===== verification/Consistency.thy ===== *)
theory Consistency
  imports Payment
begin

text \<open>
  The consistency of the business tables: the invariant that ties orders, payments and
  the outbox together, and the proof that every service call keeps it. A successful
  webhook is first reduced to its effect on the tables, then the effect is shown to keep
  the invariant.
\<close>

section \<open>The invariant\<close>

text \<open>The state an order must have, given the status of the payment with its order id.\<close>

definition order_state_for :: "PaymentStatus option \<Rightarrow> OrderState" where
  "order_state_for st =
     (if st = Some PaymentStatusCompleted then OrderStatePaid
      else if st = Some PaymentStatusCancelled then OrderStateCancelled
      else OrderStatePending)"

definition paid_at_for :: "payment_row option \<Rightarrow> time option" where
  "paid_at_for p = (case p of None \<Rightarrow> None | Some x \<Rightarrow> if p_status x = PaymentStatusCompleted then p_paid_at x else None)"

definition payments_ok :: "pg \<Rightarrow> bool" where
  "payments_ok g \<longleftrightarrow>
     unique_on p_reference_order_id (payments g) \<and>
     (\<forall>p \<in> set (payments g). payment_status_ok (p_status p) \<and>
        (p_status p = PaymentStatusCompleted \<longrightarrow> p_paid_at p \<noteq> None) \<and>
        (\<forall>t. p_paid_at p = Some t \<longrightarrow> timestamptz t = t) \<and>
        (\<forall>i. p_order_id p = Some i \<longrightarrow> order_exists g i)) \<and>
     (\<forall>p \<in> set (payments g). \<forall>r \<in> set (orders g).
        p_order_id p = Some (o_id r) \<longleftrightarrow> p_reference_order_id p = o_order_id r)"

definition reconciled :: "pg \<Rightarrow> bool" where
  "reconciled g \<longleftrightarrow>
     (\<forall>r \<in> set (orders g).
        o_payment_status r = order_state_for (payment_status g (o_order_id r)) \<and>
        o_paid_at r = paid_at_for (find_payment_row g (o_order_id r)))"

definition job_row_ok :: "job_row \<Rightarrow> bool" where
  "job_row_ok j \<longleftrightarrow>
     j_status j \<in> {SyncStatusPending, SyncStatusProcessing, SyncStatusSynced, SyncStatusWaiting, SyncStatusDead} \<and>
     (j_status j = SyncStatusProcessing \<longleftrightarrow> j_locked_at j \<noteq> None) \<and>
     (j_status j = SyncStatusWaiting \<longrightarrow> j_waiting_since j \<noteq> None) \<and>
     (j_status j = SyncStatusSynced \<longrightarrow> j_sap_internal_id j \<noteq> None) \<and>
     0 \<le> j_attempts j"

definition outbox_ok :: "pg \<Rightarrow> bool" where
  "outbox_ok g \<longleftrightarrow>
     unique_on j_id (sync_jobs g) \<and> unique_on j_order_id (sync_jobs g) \<and>
     (\<forall>j \<in> set (sync_jobs g). j_id j \<le> sync_jobs_seq g \<and> job_row_ok j \<and>
        (\<exists>r \<in> set (orders g). o_id r = j_order_id j \<and> o_payment_status r = OrderStatePaid)) \<and>
     (\<forall>r \<in> set (orders g). o_payment_status r = OrderStatePaid \<longrightarrow>
        (\<exists>j \<in> set (sync_jobs g). j_order_id j = o_id r))"

definition db_ok :: "pg \<Rightarrow> bool" where
  "db_ok g \<longleftrightarrow> orders_wf g \<and> payments_ok g \<and> reconciled g \<and> outbox_ok g"

lemma db_okD:
  assumes "db_ok g"
  shows "orders_wf g" "payments_ok g" "reconciled g" "outbox_ok g"
  using assms by (simp_all add: db_ok_def)

lemma db_ok_empty: "db_ok empty_pg"
  by (simp add: db_ok_def empty_pg_def orders_wf_def payments_ok_def reconciled_def outbox_ok_def)

text \<open>The invariant does not look at the event table.\<close>

lemma find_rows_events [simp]:
  "find_payment_row (g\<lparr>webhook_events := ev\<rparr>) r = find_payment_row g r"
  "find_order_row (g\<lparr>webhook_events := ev\<rparr>) r = find_order_row g r"
  "payment_status (g\<lparr>webhook_events := ev\<rparr>) = payment_status g"
  "order_exists (g\<lparr>webhook_events := ev\<rparr>) i = order_exists g i"
  by (simp_all add: find_payment_row_def find_order_row_def payment_status_def order_exists_def fun_eq_iff)

lemma db_ok_events [simp]: "db_ok (g\<lparr>webhook_events := ev\<rparr>) = db_ok g"
  by (simp add: db_ok_def orders_wf_def payments_ok_def reconciled_def outbox_ok_def)

section \<open>Unlinked and linked rows\<close>

lemma payments_okD:
  assumes "payments_ok g" and "p \<in> set (payments g)"
  shows "payment_status_ok (p_status p)" and "p_status p = PaymentStatusCompleted \<Longrightarrow> p_paid_at p \<noteq> None"
    and "p_paid_at p = Some t \<Longrightarrow> timestamptz t = t" and "p_order_id p = Some i \<Longrightarrow> order_exists g i"
    and "r \<in> set (orders g) \<Longrightarrow> p_order_id p = Some (o_id r) \<longleftrightarrow> p_reference_order_id p = o_order_id r"
  using assms by (simp_all add: payments_ok_def)

lemma find_order_row_Some: "find_order_row g r = Some x \<Longrightarrow> x \<in> set (orders g) \<and> o_order_id x = r"
  by (auto simp: find_order_row_def dest: find_SomeD)

lemma find_order_row_None: "find_order_row g r = None \<Longrightarrow> x \<in> set (orders g) \<Longrightarrow> o_order_id x \<noteq> r"
  by (auto simp: find_order_row_def find_None_iff)

lemma find_payment_row_Some: "find_payment_row g r = Some x \<Longrightarrow> x \<in> set (payments g) \<and> p_reference_order_id x = r"
  by (auto simp: find_payment_row_def dest: find_SomeD)

lemma find_payment_row_None: "find_payment_row g r = None \<Longrightarrow> x \<in> set (payments g) \<Longrightarrow> p_reference_order_id x \<noteq> r"
  by (auto simp: find_payment_row_def find_None_iff)

lemma find_payment_row_unique:
  "payments_ok g \<Longrightarrow> p \<in> set (payments g) \<Longrightarrow> find_payment_row g (p_reference_order_id p) = Some p"
  by (simp add: find_payment_row_def payments_ok_def find_unique)

lemma find_order_row_unique: "orders_wf g \<Longrightarrow> r \<in> set (orders g) \<Longrightarrow> find_order_row g (o_order_id r) = Some r"
  by (simp add: find_order_row_def orders_wf_def find_unique)

text \<open>A payment whose order has not arrived has no link yet.\<close>

lemma unlinked_before_order:
  assumes "payments_ok g" and "find_order_row g ref = None" and "p \<in> set (payments g)" and "p_reference_order_id p = ref"
  shows "p_order_id p = None"
proof (rule ccontr)
  assume "p_order_id p \<noteq> None"
  then obtain i where i: "p_order_id p = Some i" by blast
  with assms(1,3) have "order_exists g i" by (auto dest: payments_okD(4))
  then obtain r where r: "r \<in> set (orders g)" "o_id r = i" by (auto simp: order_exists_def)
  with i payments_okD(5) [OF assms(1,3) r(1)] have "p_reference_order_id p = o_order_id r" by simp
  with assms(2,4) r(1) show False by (auto dest: find_order_row_None)
qed

text \<open>An order that is not paid has no job.\<close>

lemma no_job_unless_paid:
  assumes "orders_wf g" and "outbox_ok g" and "r \<in> set (orders g)" and "o_payment_status r \<noteq> OrderStatePaid"
  shows "\<forall>j \<in> set (sync_jobs g). j_order_id j \<noteq> o_id r"
proof (intro ballI notI)
  fix j assume "j \<in> set (sync_jobs g)" and "j_order_id j = o_id r"
  with assms(2) obtain r' where "r' \<in> set (orders g)" "o_id r' = o_id r" "o_payment_status r' = OrderStatePaid"
    by (auto simp: outbox_ok_def)
  with assms(1,3,4) show False by (auto simp: orders_wf_def dest: unique_onD)
qed

lemma no_job_for_new_id:
  "orders_wf g \<Longrightarrow> outbox_ok g \<Longrightarrow> \<forall>j \<in> set (sync_jobs g). j_order_id j \<noteq> orders_seq g + 1"
  by (fastforce simp: outbox_ok_def orders_wf_def)

section \<open>Runs that only read, and runs on the event table\<close>

lemma runs_shopResult: "runs (shopResult ev ref msg) e g x g' \<Longrightarrow> g' = g \<and> \<not> wr_Duplicate x"
  by (auto simp: shopResult_def OrderRepository_FindStatus_def FindStatus_def webhook_result_def
      elim!: runs_bind_op split: if_splits option.splits)

lemma runs_paymentResult: "runs (paymentResult ev ref msg i) e g x g' \<Longrightarrow> g' = g"
  by (auto simp: paymentResult_def OrderRepository_FindStatus_def FindStatus_def select_def
      elim!: runs_bind_op split: if_splits)

lemma runs_findOrderID:
  assumes "runs (findOrderID ref) e g x g'" and "orders_wf g"
  shows "g' = g \<and> x = map_option o_id (find_order_row g ref)"
proof -
  have "o_id r \<noteq> 0" if "find_order_row g ref = Some r" for r
    using that assms(2) by (auto simp: orders_wf_def dest!: find_order_row_Some)
  with assms(1) show ?thesis
    by (cases "find_order_row g ref")
      (auto simp: findOrderID_def OrderRepository_FindID_def FindOrderID_def select_def elim!: runs_bind_op)
qed

lemma runs_payment_Find:
  "runs (PaymentRepository_Find ref) e g x g' \<longleftrightarrow> g' = g \<and> x = map_option state_of_payment (find_payment_row g ref)"
  by (auto simp: PaymentRepository_Find_def FindPayment_def select_def)

lemma runs_ListItems: "runs (OrderRepository_ListItems i) e g x g' \<longleftrightarrow> g' = g \<and> x = items_of_order g i"
  by (auto simp: OrderRepository_ListItems_def FindItems_def select_def)

lemma runs_FindPayload:
  "runs (EventRepository_FindPayload t i) e g x g' \<longleftrightarrow> g' = g \<and> x = stored_event g t i"
  by (auto simp: EventRepository_FindPayload_def FindEventPayload_def select_def stored_event_def)

definition same_business :: "pg \<Rightarrow> pg \<Rightarrow> bool" where
  "same_business g g' \<longleftrightarrow> (\<exists>ev. g' = g\<lparr>webhook_events := ev\<rparr>)"

lemma same_business_refl [simp]: "same_business g g"
  by (auto simp: same_business_def intro: exI [of _ "webhook_events g"])

lemma same_business_trans: "same_business g g' \<Longrightarrow> same_business g' g'' \<Longrightarrow> same_business g g''"
  by (auto simp: same_business_def)

lemma same_business_ok: "same_business g g' \<Longrightarrow> db_ok g' = db_ok g"
  by (auto simp: same_business_def)

lemma runs_Record_business: "runs (EventRepository_Record i t p) e g b g' \<Longrightarrow> same_business g g'"
  by (auto simp: same_business_def InsertEvent_def dest!: runs_Record split: if_splits
      intro: exI [of _ "webhook_events g"])

lemma runs_MarkProcessed_business: "runs (EventRepository_MarkProcessed t i) e g u g' \<Longrightarrow> same_business g g'"
  by (auto simp: same_business_def EventRepository_MarkProcessed_def MarkEventProcessed_def)

lemma runs_MarkPaymentEvents_business:
  "runs (EventRepository_MarkPaymentEventsProcessed r) e g u g' \<Longrightarrow> same_business g g'"
  by (auto simp: same_business_def EventRepository_MarkPaymentEventsProcessed_def q_MarkPaymentEventsProcessed_def)

lemmas business_runs = runs_Record_business runs_MarkProcessed_business runs_MarkPaymentEvents_business


section \<open>Effects\<close>

lemma runs_LinkOrder:
  assumes "runs (PaymentRepository_LinkOrder ref i) e g u g'"
  shows "g' = g\<lparr>payments := update_where (\<lambda>p. p_reference_order_id p = ref \<and> p_order_id p = None)
    (\<lambda>p. p\<lparr>p_order_id := Some i, p_updated_at := env_now e\<rparr>) (payments g)\<rparr>"
proof (cases "\<exists>r \<in> set (payments g). p_reference_order_id r = ref \<and> p_order_id r = None")
  case True
  with assms show ?thesis
    by (auto simp: PaymentRepository_LinkOrder_def LinkPaymentOrder_def split: option.splits)
next
  case False
  then have "update_where (\<lambda>p. p_reference_order_id p = ref \<and> p_order_id p = None)
    (\<lambda>p. p\<lparr>p_order_id := Some i, p_updated_at := env_now e\<rparr>) (payments g) = payments g"
    by (intro update_where_none) blast
  moreover from assms have "g' = g"
    using False unfolding PaymentRepository_LinkOrder_def LinkPaymentOrder_def by (simp split: if_splits)
  ultimately show ?thesis by simp
qed

lemma runs_order_Cancel:
  assumes "runs (OrderRepository_Cancel i) e g u g'"
  shows "g' = g\<lparr>orders := update_where (\<lambda>r. o_id r = i)
        (\<lambda>r. r\<lparr>o_payment_status := OrderStateCancelled, o_updated_at := env_now e\<rparr>) (orders g),
      sync_jobs := update_where (\<lambda>j. j_order_id j = i \<and> cancellable (j_status j))
        (\<lambda>j. j\<lparr>j_status := SyncStatusCancelled, j_locked_at := None, j_due_at := env_now e,
          j_updated_at := env_now e\<rparr>) (sync_jobs g)\<rparr>"
  using assms
  by (auto simp: OrderRepository_Cancel_def CancelOrder_def MarkCancelledOrder_def CancelJob_def select_def
      elim!: runs_bind_op split: option.splits if_splits)

lemma ScheduleSync_cases:
  assumes "ScheduleSync i d now g = Inr (u, g')"
  shows "g' = g\<lparr>sync_jobs_seq := sync_jobs_seq g + 1,
    sync_jobs := (if \<exists>j \<in> set (sync_jobs g). j_order_id j = i then sync_jobs g
      else sync_jobs g @ [new_job (sync_jobs_seq g + 1) i (now + d * second) now])\<rparr>"
  using assms by (auto simp: ScheduleSync_def Let_def split: if_splits)

text \<open>The reconciliation of a new order with the payment that may have arrived before it.\<close>

lemma runs_reconcilePayment:
  assumes "runs (reconcilePayment p i cfg) e g u g'"
  obtains (none) "find_payment_row g (sw_OrderID p) = None" "g' = g"
  | (found) pay g1 where "find_payment_row g (sw_OrderID p) = Some pay"
      "if p_order_id pay = None then runs (PaymentRepository_LinkOrder (sw_OrderID p) i) e g () g1 else g1 = g"
      "if p_status pay = PaymentStatusCancelled
       then \<exists>g2. runs (OrderRepository_Cancel i) e g1 () g2 \<and> same_business g2 g'
       else if p_status pay = PaymentStatusCompleted
       then \<exists>t g2. p_paid_at pay = Some t \<and> runs (MarkPaidAndSchedule cfg i (sw_Items p) t) e g1 () g2 \<and> same_business g2 g'
       else g' = g1"
proof (cases "find_payment_row g (sw_OrderID p)")
  case None
  with assms show thesis
    by (intro none) (auto simp: reconcilePayment_def runs_payment_Find elim!: runs_bind_op)
next
  case (Some pay)
  from assms Some obtain g1 where
    link: "runs (if ps_OrderID (state_of_payment pay) = None
        then wrapf ''link payment to order %d: %w'' [ArgD i] (PaymentRepository_LinkOrder (sw_OrderID p) i)
        else ret ()) e g () g1"
    and rest: "runs (settle_order p i cfg (state_of_payment pay)) e g1 u g'"
    unfolding reconcilePayment_def by (auto simp: runs_payment_Find elim!: runs_bind_op)
  show thesis
  proof (rule found [OF Some, of g1])
    show "if p_order_id pay = None then runs (PaymentRepository_LinkOrder (sw_OrderID p) i) e g () g1 else g1 = g"
      using link by (auto simp: state_of_payment_def split: if_splits)
    show "if p_status pay = PaymentStatusCancelled
       then \<exists>g2. runs (OrderRepository_Cancel i) e g1 () g2 \<and> same_business g2 g'
       else if p_status pay = PaymentStatusCompleted
       then \<exists>t g2. p_paid_at pay = Some t \<and> runs (MarkPaidAndSchedule cfg i (sw_Items p) t) e g1 () g2 \<and> same_business g2 g'
       else g' = g1"
      using rest
      by (auto simp: settle_order_def state_of_payment_def elim!: runs_bind_op split: if_splits option.splits)
        (blast intro: runs_MarkPaymentEvents_business)+
  qed
qed


section \<open>A new order keeps the invariant\<close>

text \<open>
  The tables after a new order \<open>row\<close> was stored: its payment, if any, is linked, the order
  is in the state the payment calls for, and a paid order has a fresh job.
\<close>

definition order_arrived :: "pg \<Rightarrow> order_row \<Rightarrow> time \<Rightarrow> pg \<Rightarrow> bool" where
  "order_arrived g row due g' \<longleftrightarrow>
     o_id row = orders_seq g + 1 \<and> orders_seq g' = orders_seq g + 1 \<and>
     find_order_row g (o_order_id row) = None \<and> o_sap_id row = None \<and>
     o_payment_status row = order_state_for (payment_status g (o_order_id row)) \<and>
     o_paid_at row = paid_at_for (find_payment_row g (o_order_id row)) \<and>
     orders g' = orders g @ [row] \<and>
     (\<exists>rows. order_items g' = order_items g @ rows \<and> (\<forall>x \<in> set rows. i_order_id x = o_id row)) \<and>
     (\<exists>now. payments g' = update_where (\<lambda>p. p_reference_order_id p = o_order_id row \<and> p_order_id p = None)
        (\<lambda>p. p\<lparr>p_order_id := Some (o_id row), p_updated_at := now\<rparr>) (payments g)) \<and>
     (if o_payment_status row = OrderStatePaid
      then sync_jobs_seq g' = sync_jobs_seq g + 1 \<and>
        (\<exists>now. sync_jobs g' = sync_jobs g @ [new_job (sync_jobs_seq g + 1) (o_id row) due now])
      else sync_jobs_seq g' = sync_jobs_seq g \<and> sync_jobs g' = sync_jobs g)"

lemma job_row_ok_new_job [simp]: "job_row_ok (new_job jid i due now)"
  by (simp add: job_row_ok_def new_job_def)

lemma new_job_simps [simp]:
  "j_id (new_job jid i due now) = jid" "j_order_id (new_job jid i due now) = i"
  "j_status (new_job jid i due now) = SyncStatusPending" "j_due_at (new_job jid i due now) = due"
  "j_attempts (new_job jid i due now) = 0"
  by (simp_all add: new_job_def)

lemma linked_lookup:
  fixes g g' :: pg
  assumes "payments g' = update_where P (\<lambda>p. p\<lparr>p_order_id := Some i, p_updated_at := now\<rparr>) (payments g)"
  shows "payment_status g' = payment_status g" and "paid_at_for (find_payment_row g' r) = paid_at_for (find_payment_row g r)"
proof -
  have row: "find_payment_row g' k = map_option (\<lambda>p. if P p then p\<lparr>p_order_id := Some i, p_updated_at := now\<rparr> else p)
      (find_payment_row g k)" for k
    using assms by (simp add: find_payment_row_def find_update_where_key [where k = p_reference_order_id])
  show "payment_status g' = payment_status g"
  proof
    show "payment_status g' k = payment_status g k" for k
      by (cases "find_payment_row g k") (simp_all add: payment_status_def row)
  qed
  show "paid_at_for (find_payment_row g' r) = paid_at_for (find_payment_row g r)"
    by (cases "find_payment_row g r") (simp_all add: paid_at_for_def row)
qed

lemma new_id_unused: "orders_wf g \<Longrightarrow> \<not> order_exists g (orders_seq g + 1)"
  by (auto simp: orders_wf_def order_exists_def)

lemma new_order_apart:
  assumes "orders_wf g" and "find_order_row g ref = None" and "r \<in> set (orders g)"
  shows "o_id r \<noteq> orders_seq g + 1 \<and> o_order_id r \<noteq> ref"
  using assms new_id_unused [of g] find_order_row_None [of g ref r] by (auto simp: order_exists_def)

lemma order_arrived_payments_ok:
  assumes ok: "db_ok g" and "order_arrived g row due g'"
  shows "payments_ok g'"
proof -
  let ?ref = "o_order_id row" and ?i = "o_id row"
  from assms(2) obtain now where ords: "orders g' = orders g @ [row]" and new: "find_order_row g ?ref = None"
    and i: "?i = orders_seq g + 1"
    and pays: "payments g' = update_where (\<lambda>p. p_reference_order_id p = ?ref \<and> p_order_id p = None)
        (\<lambda>p. p\<lparr>p_order_id := Some ?i, p_updated_at := now\<rparr>) (payments g)"
    by (auto simp: order_arrived_def)
  from ok have wf: "orders_wf g" and pok: "payments_ok g" by (simp_all add: db_ok_def)
  have old: "p_order_id p \<noteq> Some ?i" if "p \<in> set (payments g)" for p
    using that pok new_id_unused [OF wf] i by (auto simp: payments_ok_def)
  have unl: "p_order_id p = None" if "p \<in> set (payments g)" "p_reference_order_id p = ?ref" for p
    using unlinked_before_order [OF pok new that] .
  have older: "o_id r \<noteq> ?i \<and> o_order_id r \<noteq> ?ref" if "r \<in> set (orders g)" for r
    using new_order_apart [OF wf new that] i by simp
  have ex: "order_exists g' k" if "order_exists g k \<or> k = ?i" for k
    using that ords by (auto simp: order_exists_def)
  have "unique_on p_reference_order_id (payments g')"
    using pok unfolding pays payments_ok_def by (intro unique_on_update_where) auto
  moreover have "\<forall>p \<in> set (payments g'). payment_status_ok (p_status p) \<and>
      (p_status p = PaymentStatusCompleted \<longrightarrow> p_paid_at p \<noteq> None) \<and>
      (\<forall>t. p_paid_at p = Some t \<longrightarrow> timestamptz t = t) \<and>
      (\<forall>k. p_order_id p = Some k \<longrightarrow> order_exists g' k)"
    using pok ex unfolding pays payments_ok_def by (simp add: ball_update_where)
  moreover have "\<forall>p \<in> set (payments g'). \<forall>r \<in> set (orders g').
      p_order_id p = Some (o_id r) \<longleftrightarrow> p_reference_order_id p = o_order_id r"
    using pok old unl unfolding pays ords payments_ok_def by (auto simp: ball_update_where) (metis older)+
  ultimately show ?thesis by (simp add: payments_ok_def)
qed

lemma order_arrived_ok:
  assumes ok: "db_ok g" and arr: "order_arrived g row due g'"
  shows "db_ok g'"
proof -
  let ?ref = "o_order_id row" and ?i = "o_id row"
  from arr obtain now where ords: "orders g' = orders g @ [row]" and new: "find_order_row g ?ref = None"
    and i: "?i = orders_seq g + 1" "orders_seq g' = orders_seq g + 1"
    and pays: "payments g' = update_where (\<lambda>p. p_reference_order_id p = ?ref \<and> p_order_id p = None)
        (\<lambda>p. p\<lparr>p_order_id := Some ?i, p_updated_at := now\<rparr>) (payments g)"
    and st: "o_payment_status row = order_state_for (payment_status g ?ref)"
      "o_paid_at row = paid_at_for (find_payment_row g ?ref)"
    by (auto simp: order_arrived_def)
  from ok have wf: "orders_wf g" and rec: "reconciled g" and out: "outbox_ok g" by (simp_all add: db_ok_def)
  have older: "o_id r \<noteq> ?i \<and> o_order_id r \<noteq> ?ref" if "r \<in> set (orders g)" for r
    using new_order_apart [OF wf new that] i by simp
  from arr obtain rows where "order_items g' = order_items g @ rows" "\<forall>x \<in> set rows. i_order_id x = ?i"
    by (auto simp: order_arrived_def)
  then have "\<forall>x \<in> set (order_items g'). i_order_id x \<le> orders_seq g'"
    using wf i by (fastforce simp: orders_wf_def)
  then have "orders_wf g'"
    using wf older i unfolding orders_wf_def ords by fastforce
  moreover have "reconciled g'"
    using rec st unfolding reconciled_def ords by (simp add: linked_lookup [OF pays])
  moreover have "outbox_ok g'"
  proof (cases "o_payment_status row = OrderStatePaid")
    case True
    with arr obtain now' where "sync_jobs_seq g' = sync_jobs_seq g + 1"
      "sync_jobs g' = sync_jobs g @ [new_job (sync_jobs_seq g + 1) ?i due now']"
      by (auto simp: order_arrived_def)
    with out True ords no_job_for_new_id [OF wf out] i show ?thesis
      unfolding outbox_ok_def by (auto simp: less_imp_neq zle_add1_eq_le)
  next
    case False
    with arr have "sync_jobs_seq g' = sync_jobs_seq g" "sync_jobs g' = sync_jobs g"
      by (auto simp: order_arrived_def)
    with out ords False show ?thesis unfolding outbox_ok_def by auto
  qed
  ultimately show ?thesis using order_arrived_payments_ok [OF assms] by (simp add: db_ok_def)
qed


section \<open>The shop webhook\<close>

definition pending_order :: "shop_Webhook \<Rightarrow> int \<Rightarrow> time \<Rightarrow> order_row" where
  "pending_order p i now =
     \<lparr>o_id = i, o_order_id = sw_OrderID p, o_customer_email = sw_CustomerEmail p,
      o_payment_status = OrderStatePending, o_sap_id = None, o_paid_at = None,
      o_created_at = now, o_updated_at = now\<rparr>"

text \<open>The state between the creation of an order and its reconciliation.\<close>

definition order_created :: "pg \<Rightarrow> order_row \<Rightarrow> pg \<Rightarrow> bool" where
  "order_created g row g' \<longleftrightarrow>
     o_id row = orders_seq g + 1 \<and> orders_seq g' = orders_seq g + 1 \<and> find_order_row g (o_order_id row) = None \<and>
     o_sap_id row = None \<and> orders g' = orders g @ [row] \<and> payments g' = payments g \<and> sync_jobs g' = sync_jobs g \<and>
     sync_jobs_seq g' = sync_jobs_seq g \<and> sku_classifications g' = sku_classifications g \<and>
     (\<exists>rows. order_items g' = order_items g @ rows \<and> (\<forall>x \<in> set rows. i_order_id x = o_id row))"

lemma hardware_order_catalogue:
  "sku_classifications g' = sku_classifications g \<Longrightarrow> hardware_order g' items = hardware_order g items"
  by (simp add: hardware_order_def hardware_item_def hardware_sku_def cong: option.case_cong)

lemma order_arrived_events [simp]:
  "order_arrived g row due (g'\<lparr>webhook_events := ev\<rparr>) = order_arrived g row due g'"
  by (simp add: order_arrived_def)

lemma order_arrived_business: "same_business g1 g2 \<Longrightarrow> order_arrived g row due g1 = order_arrived g row due g2"
  by (auto simp: same_business_def)

lemma reconcile_arrives:
  assumes ok: "db_ok g" and created: "order_created g row g1" and pending: "o_payment_status row = OrderStatePending" "o_paid_at row = None"
    and ref: "o_order_id row = sw_OrderID p"
    and run: "runs (reconcilePayment p (o_id row) cfg) e g1 u g'"
  shows "\<exists>row'. order_arrived g row' (env_now e + sync_delay cfg g (sw_Items p) * second) g' \<and>
    o_id row' = o_id row \<and> o_order_id row' = o_order_id row \<and> o_customer_email row' = o_customer_email row \<and>
    order_items g' = order_items g1"
  using run
proof (cases rule: runs_reconcilePayment)
  case none
  then have none': "find_payment_row g (sw_OrderID p) = None"
    using created by (simp add: order_created_def find_payment_row_def)
  then have "update_where (\<lambda>p. p_reference_order_id p = o_order_id row \<and> p_order_id p = None) f (payments g) = payments g" for f
    using ref by (intro update_where_none) (auto dest: find_payment_row_None)
  then show ?thesis
    using created pending none none' ref
    by (intro exI [of _ row])
      (auto simp: order_created_def order_arrived_def order_state_for_def paid_at_for_def payment_status_def)
next
  case (found pay g2)
  from ok have wf: "orders_wf g" and pok: "payments_ok g" and out: "outbox_ok g" by (simp_all add: db_ok_def)
  from found(1) created have pay: "find_payment_row g (sw_OrderID p) = Some pay"
    by (simp add: order_created_def find_payment_row_def)
  have "find_order_row g (sw_OrderID p) = None" using created ref by (simp add: order_created_def)
  with pok pay have unl: "p_order_id pay = None"
    by (auto dest: find_payment_row_Some intro: unlinked_before_order)
  let ?link = "update_where (\<lambda>p. p_reference_order_id p = o_order_id row \<and> p_order_id p = None)
        (\<lambda>p. p\<lparr>p_order_id := Some (o_id row), p_updated_at := env_now e\<rparr>) (payments g)"
  from found(2) unl created ref have g2: "g2 = g1\<lparr>payments := ?link\<rparr>"
    by (auto simp: order_created_def dest!: runs_LinkOrder)
  have apart: "update_where (\<lambda>r. o_id r = o_id row) f (orders g @ [row]) = orders g @ [f row]" for f
    using created new_order_apart [OF wf] by (intro update_where_snoc_last) (auto simp: order_created_def)
  have nojob: "\<forall>j \<in> set (sync_jobs g). j_order_id j \<noteq> o_id row"
    using no_job_for_new_id [OF wf out] created by (simp add: order_created_def)
  have status: "payment_status g (sw_OrderID p) = Some (p_status pay)"
    using pay by (simp add: payment_status_def)
  note defs = order_created_def order_arrived_def order_state_for_def paid_at_for_def status pay ref
  consider (cancelled) "p_status pay = PaymentStatusCancelled" | (completed) "p_status pay = PaymentStatusCompleted"
    | (undecided) "p_status pay \<noteq> PaymentStatusCancelled" "p_status pay \<noteq> PaymentStatusCompleted" by blast
  then show ?thesis
  proof cases
    case cancelled
    let ?row = "row\<lparr>o_payment_status := OrderStateCancelled, o_updated_at := env_now e\<rparr>"
    from cancelled found(3) obtain g3 where g3: "runs (OrderRepository_Cancel (o_id row)) e g2 () g3" "same_business g3 g'" by auto
    have "update_where (\<lambda>j. j_order_id j = o_id row \<and> cancellable (j_status j)) f (sync_jobs g) = sync_jobs g" for f
      using nojob by (intro update_where_none) auto
    moreover have "orders g2 = orders g @ [row]" "sync_jobs g2 = sync_jobs g"
      using created g2 by (simp_all add: order_created_def)
    ultimately have g3': "g3 = g2\<lparr>orders := orders g @ [?row], sync_jobs := sync_jobs g\<rparr>"
      using apart by (simp add: runs_order_Cancel [OF g3(1)])
    have "order_arrived g ?row (env_now e + sync_delay cfg g (sw_Items p) * second) g3"
      using created pending cancelled g2 by (auto simp: defs g3')
    moreover have "order_items g3 = order_items g1" using g2 by (simp add: g3')
    ultimately show ?thesis using g3(2) by (intro exI [of _ ?row]) (auto simp: same_business_def)
  next
    case completed
    with found(3) obtain t g3 where t: "p_paid_at pay = Some t"
      and g3: "runs (MarkPaidAndSchedule cfg (o_id row) (sw_Items p) t) e g2 () g3" "same_business g3 g'" by auto
    let ?row = "row\<lparr>o_payment_status := OrderStatePaid, o_paid_at := Some t, o_updated_at := env_now e\<rparr>"
    have "timestamptz t = t" using pok pay t by (auto dest: payments_okD(3) find_payment_row_Some)
    moreover have "sku_classifications g2 = sku_classifications g" using g2 created by (simp add: order_created_def)
    then have "hardware_order g2 (sw_Items p) = hardware_order g (sw_Items p)" by (rule hardware_order_catalogue)
    then have "sync_delay cfg g2 (sw_Items p) = sync_delay cfg g (sw_Items p)" by (simp add: sync_delay_def)
    ultimately obtain g21 where
      g21: "g21 = g2\<lparr>orders := update_where (\<lambda>r. o_id r = o_id row)
        (\<lambda>r. r\<lparr>o_payment_status := OrderStatePaid, o_paid_at := Some t, o_updated_at := env_now e\<rparr>) (orders g2)\<rparr>"
      and sched: "ScheduleSync (o_id row) (sync_delay cfg g (sw_Items p)) (env_now e) g21 = Inr ((), g3)"
      using g3(1) by (auto simp: MarkPaid_def elim!: runs_MarkPaidAndSchedule)
    have ords: "orders g21 = orders g @ [?row]"
      using created g2 apart by (simp add: g21 order_created_def)
    have "\<not> (\<exists>j \<in> set (sync_jobs g21). j_order_id j = o_id row)" "sync_jobs g21 = sync_jobs g" "sync_jobs_seq g21 = sync_jobs_seq g"
      using created g2 nojob by (auto simp: g21 order_created_def)
    with ScheduleSync_cases [OF sched] have g3': "g3 = g21\<lparr>sync_jobs_seq := sync_jobs_seq g + 1,
        sync_jobs := sync_jobs g @ [new_job (sync_jobs_seq g + 1) (o_id row)
          (env_now e + sync_delay cfg g (sw_Items p) * second) (env_now e)]\<rparr>" by simp
    have "order_arrived g ?row (env_now e + sync_delay cfg g (sw_Items p) * second) g3"
      using created completed t ords g2 by (auto simp: defs g3' g21)
    moreover have "order_items g3 = order_items g1" using g2 by (simp add: g3' g21)
    ultimately show ?thesis using g3(2) by (intro exI [of _ ?row]) (auto simp: same_business_def)
  next
    case undecided
    with found(3) g2 created pending show ?thesis
      by (intro exI [of _ row]) (auto simp: defs)
  qed
qed

lemma runs_fresh_order:
  assumes "runs (OrderRepository_Create (sw_OrderID p) (sw_CustomerEmail p)) e g i g1" and "i \<noteq> 0"
    and "runs (OrderRepository_AddItems i (sw_Items p)) e g1 u g2"
  shows "order_created g (pending_order p i (env_now e)) g2 \<and>
    (\<exists>rows. map stored_item (sw_Items p) = map (\<lambda>r. Some (item_of_row r)) rows \<and>
      (\<forall>r \<in> set rows. i_order_id r = i) \<and> order_items g2 = order_items g @ rows)"
  using assms(1)
proof (cases rule: runs_Create)
  case existing
  with assms(2) show ?thesis by simp
next
  case fresh
  from runs_AddItems [OF assms(3)] obtain rows where
    "map stored_item (sw_Items p) = map (\<lambda>r. Some (item_of_row r)) rows" "\<forall>r \<in> set rows. i_order_id r = i"
    "g2 = g1\<lparr>order_items := order_items g1 @ rows\<rparr>" by auto
  with fresh show ?thesis by (auto simp: order_created_def pending_order_def)
qed

lemma order_created_events [simp]:
  "order_created (g\<lparr>webhook_events := ev\<rparr>) row g' = order_created g row g'"
  by (simp add: order_created_def)

text \<open>The two outcomes of a successful shop webhook.\<close>

lemma runs_processShop:
  assumes run: "runs (processShop p cfg) e g x g'" and ok: "db_ok g"
  obtains (duplicate) stored ev k where "find_order_row g (sw_OrderID p) = Some stored"
      "sameOrderPayload \<lparr>so_ID = o_id stored, so_CustomerEmail = o_customer_email stored,
         so_Items = items_of_order g (o_id stored)\<rparr> p"
      "wr_Duplicate x" "g' = g\<lparr>webhook_events := ev, orders_seq := k\<rparr>" "k = orders_seq g \<or> k = orders_seq g + 1"
  | (stored) row rows where "order_arrived g row (env_now e + sync_delay cfg g (sw_Items p) * second) g'"
      "o_order_id row = sw_OrderID p" "o_customer_email row = sw_CustomerEmail p"
      "map stored_item (sw_Items p) = map (\<lambda>r. Some (item_of_row r)) rows" "\<forall>r \<in> set rows. i_order_id r = o_id row"
      "order_items g' = order_items g @ rows" "\<not> wr_Duplicate x"
proof -
  from run obtain b g0 where rec: "runs (EventRepository_Record (sw_EventID p) EventTypeShop (ShopPayload p)) e g b g0"
    and rest: "runs (if \<not> b then replayed_shop_event p
         else
           bind_op (wrapf ''create order %q: %w'' [ArgS (sw_OrderID p)]
               (OrderRepository_Create (sw_OrderID p) (sw_CustomerEmail p)))
             (\<lambda>i. if i = 0 then existing_shop_order p else store_shop_order p i cfg)) e g0 x g'"
    unfolding processShop_def by (auto elim!: runs_bind_op)
  from rec have sb: "same_business g g0" by (rule runs_Record_business)
  then obtain ev where g0: "g0 = g\<lparr>webhook_events := ev\<rparr>" by (auto simp: same_business_def)
  show thesis
  proof (cases b)
    case False
    with rest have "runs (replayed_shop_event p) e g0 x g'" by simp
    then obtain st where "find_order_row g0 (sw_OrderID p) = Some st" "g' = g0" "wr_Duplicate x"
      "sameOrderPayload \<lparr>so_ID = o_id st, so_CustomerEmail = o_customer_email st, so_Items = items_of_order g0 (o_id st)\<rparr> p"
      by (auto simp: replayed_shop_event_def elim!: runs_bind_op split: option.splits if_splits
          dest!: runs_Find_Some runs_shopResult)
    with g0 show thesis by (intro duplicate [where stored = st and ev = ev and k = "orders_seq g"]) (auto simp: items_of_order_def)
  next
    case True
    with rest obtain i g1 where create: "runs (OrderRepository_Create (sw_OrderID p) (sw_CustomerEmail p)) e g0 i g1"
      and cont: "runs (if i = 0 then existing_shop_order p else store_shop_order p i cfg) e g1 x g'"
      by (auto elim!: runs_bind_op)
    show thesis
    proof (cases "i = 0")
      case True
      with create ok g0 have g1: "g1 = g0\<lparr>orders_seq := orders_seq g + 1\<rparr>"
        by (auto simp: db_ok_def orders_wf_def elim!: runs_Create)
      from True cont obtain st ev' where "find_order_row g1 (sw_OrderID p) = Some st" "wr_Duplicate x"
        "g' = g1\<lparr>webhook_events := ev'\<rparr>"
        "sameOrderPayload \<lparr>so_ID = o_id st, so_CustomerEmail = o_customer_email st, so_Items = items_of_order g1 (o_id st)\<rparr> p"
        by (auto simp: existing_shop_order_def elim!: runs_bind_op split: option.splits if_splits
            dest!: runs_Find_Some runs_shopResult runs_MarkProcessed_business simp: same_business_def)
      with g0 g1 show thesis
        by (intro duplicate [where stored = st and ev = ev' and k = "orders_seq g + 1"])
          (auto simp: items_of_order_def find_order_row_def)
    next
      case False
      with cont obtain g2 g3 g4 where add: "runs (OrderRepository_AddItems i (sw_Items p)) e g1 () g2"
        and reco: "runs (reconcilePayment p i cfg) e g2 () g3" and g4: "same_business g3 g4" and "g' = g4"
        and fresh: "\<not> wr_Duplicate x"
        by (auto simp: store_shop_order_def elim!: runs_bind_op dest!: runs_MarkProcessed_business runs_shopResult)
      let ?row = "pending_order p i (env_now e)"
      from runs_fresh_order [OF create False add] obtain rows where created: "order_created g0 ?row g2"
        and rows: "map stored_item (sw_Items p) = map (\<lambda>r. Some (item_of_row r)) rows" "\<forall>r \<in> set rows. i_order_id r = i"
          "order_items g2 = order_items g0 @ rows" by blast
      from created g0 have "order_created g ?row g2" by simp
      with reconcile_arrives [OF ok, of ?row g2 p cfg e "()" g3] reco obtain row where
        row: "order_arrived g row (env_now e + sync_delay cfg g (sw_Items p) * second) g3"
          "o_id row = i" "o_order_id row = sw_OrderID p" "o_customer_email row = sw_CustomerEmail p" "order_items g3 = order_items g2"
        by (auto simp: pending_order_def)
      with g4 \<open>g' = g4\<close> rows g0 show thesis
        by (intro stored [of row rows]) (auto simp: same_business_def fresh)
    qed
  qed
qed

text \<open>The answer is a duplicate exactly when the order was stored before.\<close>

lemma shop_duplicate_iff:
  assumes "runs (processShop p cfg) e g x g'" and "db_ok g"
  shows "wr_Duplicate x \<longleftrightarrow> find_order_row g (sw_OrderID p) \<noteq> None"
  using assms by (cases rule: runs_processShop) (auto simp: order_arrived_def)

lemma db_ok_orders_seq:
  assumes "db_ok g" and "k = orders_seq g \<or> k = orders_seq g + 1"
  shows "db_ok (g\<lparr>orders_seq := k\<rparr>)"
  using assms
  by (fastforce simp: db_ok_def orders_wf_def payments_ok_def reconciled_def outbox_ok_def payment_status_def
      find_payment_row_def order_exists_def)

lemma processShop_ok: "runs (processShop p cfg) e g x g' \<Longrightarrow> db_ok g \<Longrightarrow> db_ok g'"
proof -
  assume run: "runs (processShop p cfg) e g x g'" and ok: "db_ok g"
  from run ok show "db_ok g'"
  proof (cases rule: runs_processShop)
    case (duplicate st ev k)
    from duplicate(4) have "g' = g\<lparr>orders_seq := k\<rparr>\<lparr>webhook_events := ev\<rparr>" by simp
    with db_ok_orders_seq [OF ok duplicate(5)] show ?thesis by (simp only: db_ok_events)
  next
    case (stored row rows)
    with ok show ?thesis by (blast intro: order_arrived_ok)
  qed
qed

section \<open>A payment event keeps the invariant\<close>

text \<open>The payment row of \<open>ref\<close> after the event is \<open>p\<close>; every other row is untouched.\<close>

definition payment_set :: "pg \<Rightarrow> string \<Rightarrow> payment_row \<Rightarrow> pg \<Rightarrow> bool" where
  "payment_set g ref p g' \<longleftrightarrow>
     p_reference_order_id p = ref \<and> unique_on p_reference_order_id (payments g') \<and>
     set (payments g') = insert p {q \<in> set (payments g). p_reference_order_id q \<noteq> ref}"

lemma payment_set_lookup:
  assumes "payment_set g ref p g'" and "payments_ok g"
  shows "find_payment_row g' k = (if k = ref then Some p else find_payment_row g k)"
proof -
  have uniq: "unique_on p_reference_order_id (payments g')" "unique_on p_reference_order_id (payments g)"
    using assms by (simp_all add: payment_set_def payments_ok_def)
  have "find_payment_row g' k = Some q \<longleftrightarrow> (if k = ref then Some p else find_payment_row g k) = Some q" for q
    using assms(1) by (auto simp: find_payment_row_def find_unique_iff [OF uniq(1)] find_unique_iff [OF uniq(2)] payment_set_def)
  then show ?thesis by (metis option.exhaust)
qed

lemma payment_set_insert:
  assumes "payments_ok g" and "find_payment_row g ref = None" and "p_reference_order_id p = ref"
    and "payments g' = payments g @ [p]"
  shows "payment_set g ref p g'"
  using assms by (auto simp: payment_set_def payments_ok_def dest: find_payment_row_None)

lemma payment_set_update:
  assumes "payments_ok g" and "find_payment_row g ref = Some r" and "\<And>q. p_reference_order_id (upd q) = p_reference_order_id q"
    and "payments g' = update_where (\<lambda>q. p_reference_order_id q = ref) upd (payments g)"
  shows "payment_set g ref (upd r) g'"
proof -
  from assms(2) have r: "r \<in> set (payments g)" "p_reference_order_id r = ref" by (auto dest: find_payment_row_Some)
  have only: "q = r" if "q \<in> set (payments g)" "p_reference_order_id q = ref" for q
    using that r assms(1) by (auto simp: payments_ok_def dest: unique_onD)
  have "unique_on p_reference_order_id (payments g')"
    using assms(1,3,4) by (auto simp: payments_ok_def intro: unique_on_update_where)
  moreover have "set (payments g') = (\<lambda>q. if p_reference_order_id q = ref then upd r else q) ` set (payments g)"
    unfolding assms(4) set_update_where by (rule image_cong) (simp, metis only)
  then have "set (payments g') = insert (upd r) {q \<in> set (payments g). p_reference_order_id q \<noteq> ref}"
    using r by auto
  ultimately show ?thesis using r assms(3) by (simp add: payment_set_def)
qed

text \<open>
  The tables after a payment event moved the payment of \<open>ref\<close> from an open status to
  \<open>st\<close>: the row \<open>p\<close> is linked to the order if there is one, the order is in the state the
  status calls for, and a completed payment of a known order adds a job.
\<close>

definition payment_applied :: "pg \<Rightarrow> string \<Rightarrow> payment_row \<Rightarrow> time \<Rightarrow> pg \<Rightarrow> bool" where
  "payment_applied g ref p due g' \<longleftrightarrow>
     (\<forall>f. payment_status g ref = Some f \<longrightarrow> \<not> finalized f) \<and>
     payment_set g ref p g' \<and> payment_status_ok (p_status p) \<and>
     p_order_id p = map_option o_id (find_order_row g ref) \<and>
     (p_status p = PaymentStatusCompleted \<longrightarrow> p_paid_at p \<noteq> None) \<and>
     (\<forall>t. p_paid_at p = Some t \<longrightarrow> timestamptz t = t) \<and>
     orders_seq g' = orders_seq g \<and> order_items g' = order_items g \<and> sku_classifications g' = sku_classifications g \<and>
     (\<exists>f. orders g' = update_where (\<lambda>r. o_order_id r = ref) f (orders g) \<and>
        (\<forall>r. o_id (f r) = o_id r \<and> o_order_id (f r) = o_order_id r \<and> o_customer_email (f r) = o_customer_email r \<and> o_sap_id (f r) = o_sap_id r) \<and>
        (\<forall>r \<in> set (orders g). o_order_id r = ref \<longrightarrow>
           o_payment_status (f r) = order_state_for (Some (p_status p)) \<and> o_paid_at (f r) = paid_at_for (Some p))) \<and>
     (case (if p_status p = PaymentStatusCompleted then find_order_row g ref else None) of
        None \<Rightarrow> sync_jobs g' = sync_jobs g \<and> sync_jobs_seq g' = sync_jobs_seq g
      | Some r \<Rightarrow> sync_jobs_seq g' = sync_jobs_seq g + 1 \<and>
          (\<exists>now. sync_jobs g' = sync_jobs g @ [new_job (sync_jobs_seq g + 1) (o_id r) due now]))"

lemma open_order_pending:
  assumes "db_ok g" and "\<forall>f. payment_status g ref = Some f \<longrightarrow> \<not> finalized f"
    and "r \<in> set (orders g)" and "o_order_id r = ref"
  shows "o_payment_status r = OrderStatePending" and "o_paid_at r = None"
proof -
  from assms have "o_payment_status r = order_state_for (payment_status g ref)"
    and "o_paid_at r = paid_at_for (find_payment_row g ref)" by (auto simp: db_ok_def reconciled_def)
  moreover have "payment_status g ref \<noteq> Some PaymentStatusCompleted" "payment_status g ref \<noteq> Some PaymentStatusCancelled"
    using assms(2) by (auto simp: finalized_def)
  ultimately show "o_payment_status r = OrderStatePending" and "o_paid_at r = None"
    by (auto simp: order_state_for_def paid_at_for_def payment_status_def split: option.splits)
qed

lemma payment_applied_payments_ok:
  assumes ok: "db_ok g" and app: "payment_applied g ref p due g'"
  shows "payments_ok g'"
proof -
  from ok have wf: "orders_wf g" and pok: "payments_ok g" by (simp_all add: db_ok_def)
  from app obtain f where ords: "orders g' = update_where (\<lambda>r. o_order_id r = ref) f (orders g)"
    and f: "\<forall>r. o_id (f r) = o_id r \<and> o_order_id (f r) = o_order_id r"
    by (auto simp: payment_applied_def)
  have ex: "order_exists g' i = order_exists g i" for i
    using f by (simp add: order_exists_def ords bex_update_where)
  from app have link: "p_order_id p = map_option o_id (find_order_row g ref)" and ref: "p_reference_order_id p = ref"
    and pays: "set (payments g') = insert p {q \<in> set (payments g). p_reference_order_id q \<noteq> ref}"
    and uniq: "unique_on p_reference_order_id (payments g')"
    by (simp_all add: payment_applied_def payment_set_def)
  have linked: "p_order_id p = Some (o_id r) \<longleftrightarrow> o_order_id r = ref" if "r \<in> set (orders g)" for r
  proof (cases "find_order_row g ref")
    case None
    with that show ?thesis using link by (auto dest: find_order_row_None)
  next
    case (Some w)
    then have "w \<in> set (orders g)" "o_order_id w = ref" by (auto dest: find_order_row_Some)
    with that wf link Some show ?thesis by (auto simp: orders_wf_def dest: unique_onD)
  qed
  have here: "payment_status_ok (p_status p)" "p_status p = PaymentStatusCompleted \<longrightarrow> p_paid_at p \<noteq> None"
      "\<forall>t. p_paid_at p = Some t \<longrightarrow> timestamptz t = t"
    using app by (simp_all add: payment_applied_def)
  have "order_exists g i" if "p_order_id p = Some i" for i
    using that link by (auto simp: order_exists_def dest: find_order_row_Some)
  with pok here have "\<forall>q \<in> set (payments g'). payment_status_ok (p_status q) \<and>
      (p_status q = PaymentStatusCompleted \<longrightarrow> p_paid_at q \<noteq> None) \<and>
      (\<forall>t. p_paid_at q = Some t \<longrightarrow> timestamptz t = t) \<and> (\<forall>i. p_order_id q = Some i \<longrightarrow> order_exists g' i)"
    by (auto simp: pays ex payments_ok_def)
  moreover have "\<forall>q \<in> set (payments g'). \<forall>r \<in> set (orders g').
      p_order_id q = Some (o_id r) \<longleftrightarrow> p_reference_order_id q = o_order_id r"
    using pok f ref linked by (auto simp: pays ords ball_update_where payments_ok_def)
  ultimately show ?thesis using uniq by (simp add: payments_ok_def)
qed

lemma payment_applied_ok:
  assumes ok: "db_ok g" and app: "payment_applied g ref p due g'"
  shows "db_ok g'"
proof -
  from ok have wf: "orders_wf g" and pok: "payments_ok g" and rec: "reconciled g" and out: "outbox_ok g"
    by (simp_all add: db_ok_def)
  from app obtain f where ords: "orders g' = update_where (\<lambda>r. o_order_id r = ref) f (orders g)"
    and f: "\<And>r. o_id (f r) = o_id r \<and> o_order_id (f r) = o_order_id r"
    and st: "\<And>r. r \<in> set (orders g) \<Longrightarrow> o_order_id r = ref \<Longrightarrow>
      o_payment_status (f r) = order_state_for (Some (p_status p)) \<and> o_paid_at (f r) = paid_at_for (Some p)"
    by (auto simp: payment_applied_def)
  from app have set: "payment_set g ref p g'" and op: "\<forall>f. payment_status g ref = Some f \<longrightarrow> \<not> finalized f"
    by (auto simp: payment_applied_def)
  note pending = open_order_pending(1) [OF ok op]
  have kept: "\<forall>j \<in> set (sync_jobs g). \<exists>q \<in> set (orders g'). o_id q = j_order_id j \<and> o_payment_status q = OrderStatePaid"
  proof
    fix j assume "j \<in> set (sync_jobs g)"
    with out obtain q where q: "q \<in> set (orders g)" "o_id q = j_order_id j" "o_payment_status q = OrderStatePaid"
      by (auto simp: outbox_ok_def)
    then have "o_order_id q \<noteq> ref" using pending by fastforce
    with q show "\<exists>q \<in> set (orders g'). o_id q = j_order_id j \<and> o_payment_status q = OrderStatePaid"
      by (auto simp: ords bex_update_where)
  qed
  have "orders_wf g'"
    using wf f app by (auto simp: orders_wf_def ords ball_update_where payment_applied_def intro!: unique_on_update_where)
  moreover have "payments_ok g'"
    using payment_applied_payments_ok [OF assms] .
  moreover have "reconciled g'"
    using rec f st by (simp add: reconciled_def ords ball_update_where payment_status_def payment_set_lookup [OF set pok])
  moreover have "outbox_ok g'"
  proof (cases "if p_status p = PaymentStatusCompleted then find_order_row g ref else None")
    case None
    then have jobs: "sync_jobs g' = sync_jobs g" "sync_jobs_seq g' = sync_jobs_seq g"
      using app by (simp_all add: payment_applied_def)
    have "o_payment_status (f r) \<noteq> OrderStatePaid" if "r \<in> set (orders g)" "o_order_id r = ref" for r
      using None st [OF that] that find_order_row_None [of g ref r] by (auto simp: order_state_for_def split: if_splits)
    then have "\<forall>q \<in> set (orders g'). o_payment_status q = OrderStatePaid \<longrightarrow> (\<exists>j \<in> set (sync_jobs g'). j_order_id j = o_id q)"
      using out by (auto simp: ords ball_update_where jobs outbox_ok_def)
    with out kept show ?thesis by (simp add: outbox_ok_def jobs)
  next
    case (Some r)
    then have r: "r \<in> set (orders g)" "o_order_id r = ref" and completed: "p_status p = PaymentStatusCompleted"
      by (auto dest: find_order_row_Some split: if_splits)
    from app Some obtain now where jobs: "sync_jobs_seq g' = sync_jobs_seq g + 1"
      "sync_jobs g' = sync_jobs g @ [new_job (sync_jobs_seq g + 1) (o_id r) due now]"
      by (auto simp: payment_applied_def)
    have none: "\<forall>j \<in> set (sync_jobs g). j_order_id j \<noteq> o_id r"
      using no_job_unless_paid [OF wf out r(1)] pending [OF r] by simp
    have paid: "o_payment_status (f r) = OrderStatePaid" using st [OF r] completed by (simp add: order_state_for_def)
    have only: "q = r" if "q \<in> set (orders g)" "o_order_id q = ref" for q
      using that r wf by (auto simp: orders_wf_def dest: unique_onD)
    have "\<exists>q \<in> set (orders g'). o_id q = o_id r \<and> o_payment_status q = OrderStatePaid"
      using r f paid by (auto simp: ords bex_update_where)
    moreover have "\<forall>q \<in> set (orders g'). o_payment_status q = OrderStatePaid \<longrightarrow> (\<exists>j \<in> set (sync_jobs g'). j_order_id j = o_id q)"
      using out f only by (auto simp: ords ball_update_where jobs outbox_ok_def)
    moreover have "unique_on j_id (sync_jobs g')" "unique_on j_order_id (sync_jobs g')"
      "\<forall>j \<in> set (sync_jobs g'). j_id j \<le> sync_jobs_seq g' \<and> job_row_ok j"
      using out none by (auto simp: outbox_ok_def jobs)
    ultimately show ?thesis using kept by (simp add: outbox_ok_def jobs)
  qed
  ultimately show ?thesis by (simp add: db_ok_def)
qed

end
