(* ===== verification/Settlement.thy ===== *)
theory Settlement
  imports Consistency
begin

text \<open>
  The payment webhook and the job operations against the invariant of \<open>Consistency\<close>: the
  effect of a successful payment event on the tables, the operations of the worker on the
  outbox, and the failed calls, of which only the sequences show a trace.
\<close>

named_theorems advances_intros \<open>operations that never move a sequence back\<close>

section \<open>The effect of the two payment upserts\<close>

lemma linked_order:
  assumes "db_ok g" and "find_payment_row g ref = Some r"
  shows "p_order_id r = map_option o_id (find_order_row g ref)"
proof (cases "find_order_row g ref")
  case None
  with assms show ?thesis by (auto simp: db_ok_def dest: find_payment_row_Some intro: unlinked_before_order)
next
  case (Some w)
  with assms show ?thesis
    using payments_okD(5) [of g r w] by (auto simp: db_ok_def dest!: find_payment_row_Some find_order_row_Some)
qed

lemma upsert_status_ok:
  "upsert_payment_row index_row ref ins upd now g = Inr y \<Longrightarrow> payment_status_ok (p_status (ins (payments_seq g + 1)))"
  by (auto simp: upsert_payment_row_def Let_def split: if_splits)

text \<open>The row an upsert leaves under \<open>ref\<close>, when the rows it touches were still open.\<close>

lemma upsert_sets:
  assumes ok: "db_ok g" and run: "upsert_payment_row index_row ref ins upd now g = Inr (Some x, g')"
    and "\<And>k. p_reference_order_id (ins k) = ref" and "\<And>y. p_reference_order_id (upd y) = p_reference_order_id y"
  obtains p where "payment_set g ref p g'" "x = state_of_payment p"
    "g' = g\<lparr>payments_seq := payments_seq g + 1, payments := payments g'\<rparr>"
    "\<forall>f. payment_status g ref = Some f \<longrightarrow> \<not> finalized f"
    "(find_payment_row g ref = None \<and> p = ins (payments_seq g + 1)) \<or> (\<exists>r. find_payment_row g ref = Some r \<and> p = upd r)"
  using run
proof (cases rule: upsert_payment_row_cases)
  case inserted
  with ok assms(3) show thesis
    by (intro that [of "ins (payments_seq g + 1)"] payment_set_insert) (auto simp: db_ok_def payment_status_def)
next
  case (updated r)
  with ok assms(4) show thesis
    by (intro that [of "upd r"] payment_set_update) (auto simp: db_ok_def payment_status_def)
qed

text \<open>The state between the upsert and the settlement of the order.\<close>

definition payment_stored :: "pg \<Rightarrow> string \<Rightarrow> payment_row \<Rightarrow> pg \<Rightarrow> bool" where
  "payment_stored g ref p g' \<longleftrightarrow>
     (\<forall>f. payment_status g ref = Some f \<longrightarrow> \<not> finalized f) \<and>
     payment_set g ref p g' \<and> payment_status_ok (p_status p) \<and>
     p_order_id p = map_option o_id (find_order_row g ref) \<and>
     (\<forall>t. p_paid_at p = Some t \<longrightarrow> timestamptz t = t) \<and>
     (\<exists>ps k. g' = g\<lparr>payments_seq := k, payments := ps\<rparr>)"

lemma runs_Upsert_stored:
  assumes ok: "db_ok g"
    and run: "runs (PaymentRepository_Upsert ref st (map_option o_id (find_order_row g ref)) t) e g x g'"
  obtains p where "payment_stored g ref p g'" "x = state_of_payment p" "p_status p = st"
    "st = PaymentStatusCompleted \<Longrightarrow> p_paid_at p = map_option timestamptz t"
proof -
  from run have up: "UpsertPayment (env_index_row e) ref (map_option o_id (find_order_row g ref)) st t (env_now e) g = Inr (Some x, g')"
    by (rule runs_Upsert)
  then have st: "payment_status_ok st" unfolding UpsertPayment_def by (auto dest: upsert_status_ok simp: new_payment_def)
  obtain p where p: "payment_set g ref p g'" "x = state_of_payment p"
    "g' = g\<lparr>payments_seq := payments_seq g + 1, payments := payments g'\<rparr>"
    and op: "\<forall>f. payment_status g ref = Some f \<longrightarrow> \<not> finalized f"
    and new: "(find_payment_row g ref = None \<and> p = new_payment ref (map_option o_id (find_order_row g ref)) st t (env_now e) (payments_seq g + 1)) \<or>
      (\<exists>r. find_payment_row g ref = Some r \<and> p = r\<lparr>p_order_id := coalesce (p_order_id r) (map_option o_id (find_order_row g ref)),
              p_status := (if p_status r = PaymentStatusCompleted then p_status r else st),
              p_paid_at := (if p_status r = PaymentStatusCompleted then p_paid_at r
                            else if st = PaymentStatusCompleted then map_option timestamptz t
                            else p_paid_at r),
              p_updated_at := env_now e\<rparr>)"
    by (rule upsert_sets [OF ok up [unfolded UpsertPayment_def]]) (auto simp: new_payment_def)
  have row: "p_status p = st \<and> p_order_id p = map_option o_id (find_order_row g ref) \<and>
      (st = PaymentStatusCompleted \<longrightarrow> p_paid_at p = map_option timestamptz t) \<and>
      (\<forall>t. p_paid_at p = Some t \<longrightarrow> timestamptz t = t)"
    using new
  proof (elim disjE conjE exE)
    fix r assume "find_payment_row g ref = Some r"
    then have "p_status r \<noteq> PaymentStatusCompleted" "p_order_id r = map_option o_id (find_order_row g ref)"
      "\<forall>t. p_paid_at r = Some t \<longrightarrow> timestamptz t = t"
      using op ok linked_order [OF ok]
      by (auto simp: payment_status_def finalized_def db_ok_def dest!: find_payment_row_Some dest: payments_okD(3))
    moreover assume "p = r\<lparr>p_order_id := coalesce (p_order_id r) (map_option o_id (find_order_row g ref)),
              p_status := (if p_status r = PaymentStatusCompleted then p_status r else st),
              p_paid_at := (if p_status r = PaymentStatusCompleted then p_paid_at r
                            else if st = PaymentStatusCompleted then map_option timestamptz t
                            else p_paid_at r),
              p_updated_at := env_now e\<rparr>"
    ultimately show ?thesis by (auto simp: coalesce_def split: option.splits)
  qed (auto simp: new_payment_def)
  show thesis
  proof (rule that [of p])
    show "payment_stored g ref p g'"
      using p op row st unfolding payment_stored_def by metis
  qed (use p row in auto)
qed

lemma runs_Cancel_stored:
  assumes ok: "db_ok g"
    and run: "runs (PaymentRepository_Cancel ref (map_option o_id (find_order_row g ref))) e g x g'"
  obtains p where "payment_stored g ref p g'" "x = state_of_payment p" "p_status p = PaymentStatusCancelled"
proof -
  from run have up: "CancelPayment (env_index_row e) ref (map_option o_id (find_order_row g ref)) (env_now e) g = Inr (Some x, g')"
    by (rule runs_Cancel_payment)
  obtain p where p: "payment_set g ref p g'" "x = state_of_payment p"
    "g' = g\<lparr>payments_seq := payments_seq g + 1, payments := payments g'\<rparr>"
    and op: "\<forall>f. payment_status g ref = Some f \<longrightarrow> \<not> finalized f"
    and new: "(find_payment_row g ref = None \<and> p = new_payment ref (map_option o_id (find_order_row g ref)) PaymentStatusCancelled None (env_now e) (payments_seq g + 1)) \<or>
      (\<exists>r. find_payment_row g ref = Some r \<and> p = r\<lparr>p_order_id := coalesce (p_order_id r) (map_option o_id (find_order_row g ref)),
              p_status := PaymentStatusCancelled, p_updated_at := env_now e\<rparr>)"
    by (rule upsert_sets [OF ok up [unfolded CancelPayment_def]]) (auto simp: new_payment_def)
  have row: "p_status p = PaymentStatusCancelled \<and> p_order_id p = map_option o_id (find_order_row g ref) \<and>
      (\<forall>t. p_paid_at p = Some t \<longrightarrow> timestamptz t = t)"
    using new
  proof (elim disjE conjE exE)
    fix r assume "find_payment_row g ref = Some r"
    then have "p_order_id r = map_option o_id (find_order_row g ref)" "\<forall>t. p_paid_at r = Some t \<longrightarrow> timestamptz t = t"
      using ok linked_order [OF ok] by (auto simp: db_ok_def dest!: find_payment_row_Some dest: payments_okD(3))
    moreover assume "p = r\<lparr>p_order_id := coalesce (p_order_id r) (map_option o_id (find_order_row g ref)),
              p_status := PaymentStatusCancelled, p_updated_at := env_now e\<rparr>"
    ultimately show ?thesis by (auto simp: coalesce_def split: option.splits)
  qed (auto simp: new_payment_def)
  show thesis
  proof (rule that [of p])
    show "payment_stored g ref p g'"
      using p op row unfolding payment_stored_def by (metis payment_status_ok_def)
  qed (use p row in auto)
qed


section \<open>Settling the order of a stored payment\<close>

lemma update_where_id: "update_where P (\<lambda>x. x) xs = xs"
  by (simp add: update_where_def)

lemma order_by_id:
  assumes "orders_wf g" and "find_order_row g ref = Some w"
  shows "update_where (\<lambda>r. o_id r = o_id w) h (orders g) = update_where (\<lambda>r. o_order_id r = ref) h (orders g)"
proof (rule update_where_cong)
  from assms(2) have w: "w \<in> set (orders g)" "o_order_id w = ref" by (auto dest: find_order_row_Some)
  fix r assume "r \<in> set (orders g)"
  with w assms(1) show "o_id r = o_id w \<longleftrightarrow> o_order_id r = ref"
    by (auto simp: orders_wf_def dest: unique_onD)
qed simp

lemma payment_applied_events [simp]:
  "payment_applied (g\<lparr>webhook_events := ev\<rparr>) ref p due g' = payment_applied g ref p due g'"
  "payment_applied g ref p due (g'\<lparr>webhook_events := ev\<rparr>) = payment_applied g ref p due g'"
  by (simp_all add: payment_applied_def payment_set_def cong: option.case_cong)

lemma payment_applied_business:
  "same_business g1 g2 \<Longrightarrow> payment_applied g ref p due g1 \<Longrightarrow> payment_applied g ref p due g2"
  by (auto simp: same_business_def)

text \<open>Without an order, or with a status that is still open, the row is all that changes.\<close>

lemma stored_applied:
  assumes ok: "db_ok g" and st: "payment_stored g ref p g'"
    and "find_order_row g ref = None \<or> \<not> finalized (p_status p)"
    and "p_status p = PaymentStatusCompleted \<Longrightarrow> p_paid_at p \<noteq> None"
  shows "payment_applied g ref p due g'"
proof -
  from st have op: "\<forall>f. payment_status g ref = Some f \<longrightarrow> \<not> finalized f" by (simp add: payment_stored_def)
  have "o_payment_status r = order_state_for (Some (p_status p)) \<and> o_paid_at r = paid_at_for (Some p)"
    if "r \<in> set (orders g)" "o_order_id r = ref" for r
  proof -
    from that have "find_order_row g ref \<noteq> None" using find_order_row_None [of g ref r] by blast
    with assms(3) have "p_status p \<noteq> PaymentStatusCompleted" "p_status p \<noteq> PaymentStatusCancelled"
      by (auto simp: finalized_def)
    with open_order_pending [OF ok op that] show ?thesis by (simp add: order_state_for_def paid_at_for_def)
  qed
  moreover from st have "orders g' = update_where (\<lambda>r. o_order_id r = ref) (\<lambda>r. r) (orders g)"
    by (auto simp: payment_stored_def update_where_id)
  moreover have "(if p_status p = PaymentStatusCompleted then find_order_row g ref else None) = None"
    using assms(3) by (auto simp: finalized_def)
  ultimately show ?thesis
    using st assms(4) unfolding payment_applied_def
    by (intro conjI exI [of _ "\<lambda>r. r"]) (auto simp: payment_stored_def)
qed

lemma no_job_for_open:
  assumes "db_ok g" and "\<forall>f. payment_status g ref = Some f \<longrightarrow> \<not> finalized f" and "find_order_row g ref = Some w"
  shows "\<forall>j \<in> set (sync_jobs g). j_order_id j \<noteq> o_id w"
proof -
  from assms(3) have w: "w \<in> set (orders g)" "o_order_id w = ref" by (auto dest: find_order_row_Some)
  with open_order_pending(1) [OF assms(1,2) w] assms(1) show ?thesis
    by (intro no_job_unless_paid) (simp_all add: db_ok_def)
qed

lemma cancelled_applied:
  assumes ok: "db_ok g" and st: "payment_stored g ref p g1" and w: "find_order_row g ref = Some w"
    and p: "p_status p = PaymentStatusCancelled" and run: "runs (OrderRepository_Cancel (o_id w)) e g1 () g'"
  shows "payment_applied g ref p due g'"
proof -
  let ?f = "\<lambda>r. r\<lparr>o_payment_status := OrderStateCancelled, o_updated_at := env_now e\<rparr>"
  from st have op: "\<forall>f. payment_status g ref = Some f \<longrightarrow> \<not> finalized f" by (simp add: payment_stored_def)
  from st obtain ps k where g1: "g1 = g\<lparr>payments_seq := k, payments := ps\<rparr>" by (auto simp: payment_stored_def)
  have "update_where (\<lambda>j. j_order_id j = o_id w \<and> cancellable (j_status j)) h (sync_jobs g) = sync_jobs g" for h
    using no_job_for_open [OF ok op w] by (intro update_where_none) auto
  then have g': "g' = g1\<lparr>orders := update_where (\<lambda>r. o_order_id r = ref) ?f (orders g), sync_jobs := sync_jobs g\<rparr>"
    using ok w by (simp add: runs_order_Cancel [OF run] g1 order_by_id db_ok_def)
  have "o_payment_status (?f r) = order_state_for (Some (p_status p)) \<and> o_paid_at (?f r) = paid_at_for (Some p)"
    if "r \<in> set (orders g)" "o_order_id r = ref" for r
    using open_order_pending(2) [OF ok op that] p by (simp add: order_state_for_def paid_at_for_def)
  moreover have "orders g' = update_where (\<lambda>r. o_order_id r = ref) ?f (orders g)" by (simp add: g')
  ultimately show ?thesis
    using st p unfolding payment_applied_def
    by (intro conjI exI [of _ ?f]) (auto simp: payment_stored_def payment_set_def g')
qed

lemma completed_applied:
  assumes ok: "db_ok g" and st: "payment_stored g ref p g1" and w: "find_order_row g ref = Some w"
    and p: "p_status p = PaymentStatusCompleted" "p_paid_at p = Some t"
    and run: "runs (MarkPaidAndSchedule cfg (o_id w) items t) e g1 u g'"
  shows "payment_applied g ref p (env_now e + sync_delay cfg g items * second) g'"
proof -
  let ?f = "\<lambda>r. r\<lparr>o_payment_status := OrderStatePaid, o_paid_at := Some t, o_updated_at := env_now e\<rparr>"
  let ?due = "env_now e + sync_delay cfg g items * second"
  from st have op: "\<forall>f. payment_status g ref = Some f \<longrightarrow> \<not> finalized f" by (simp add: payment_stored_def)
  from st obtain ps k where g1: "g1 = g\<lparr>payments_seq := k, payments := ps\<rparr>" by (auto simp: payment_stored_def)
  from st p(2) have t: "timestamptz t = t" by (simp add: payment_stored_def)
  have "hardware_order g1 items = hardware_order g items" by (rule hardware_order_catalogue) (simp add: g1)
  then have delay: "sync_delay cfg g1 items = sync_delay cfg g items" by (simp add: sync_delay_def)
  from run obtain g2 where g2: "g2 = g1\<lparr>orders := update_where (\<lambda>r. o_id r = o_id w) ?f (orders g1)\<rparr>"
    and sched: "ScheduleSync (o_id w) (sync_delay cfg g items) (env_now e) g2 = Inr ((), g')"
    using t delay by (auto simp: MarkPaid_def elim!: runs_MarkPaidAndSchedule)
  have "\<not> (\<exists>j \<in> set (sync_jobs g2). j_order_id j = o_id w)" "sync_jobs g2 = sync_jobs g" "sync_jobs_seq g2 = sync_jobs_seq g"
    using no_job_for_open [OF ok op w] by (simp_all add: g2 g1)
  with ScheduleSync_cases [OF sched] have jobs: "g' = g2\<lparr>sync_jobs_seq := sync_jobs_seq g + 1,
      sync_jobs := sync_jobs g @ [new_job (sync_jobs_seq g + 1) (o_id w) ?due (env_now e)]\<rparr>" by simp
  have ords: "orders g' = update_where (\<lambda>r. o_order_id r = ref) ?f (orders g)"
    using ok w by (simp add: jobs g2 g1 order_by_id db_ok_def)
  have rest: "payments g' = payments g1" "orders_seq g' = orders_seq g" "order_items g' = order_items g"
    "sku_classifications g' = sku_classifications g" "sync_jobs_seq g' = sync_jobs_seq g + 1"
    "\<exists>now. sync_jobs g' = sync_jobs g @ [new_job (sync_jobs_seq g + 1) (o_id w) ?due now]"
    by (auto simp: jobs g2 g1)
  show ?thesis
    using st p w ords unfolding payment_applied_def
    by (intro conjI exI [of _ ?f])
      (simp_all add: payment_stored_def payment_set_def order_state_for_def paid_at_for_def rest)
qed

section \<open>The payment webhook\<close>

definition settle_due :: "Config \<Rightarrow> env \<Rightarrow> pg \<Rightarrow> string \<Rightarrow> time" where
  "settle_due cfg e g ref = env_now e + (case find_order_row g ref of None \<Rightarrow> 0
     | Some w \<Rightarrow> sync_delay cfg g (items_of_order g (o_id w))) * second"

lemma paymentResult_reads: "runs (paymentResult ev ref msg i) e g x g' \<Longrightarrow> g' = g \<and> \<not> wr_Duplicate x"
  by (auto simp: paymentResult_def OrderRepository_FindStatus_def FindStatus_def select_def webhook_result_def
      elim!: runs_bind_op split: if_splits option.splits)

lemma runs_cancelPayment:
  assumes ok: "db_ok g" and run: "runs (cancelPayment payload (map_option o_id (find_order_row g (pw_ReferenceOrderID payload)))) e g x g'"
  obtains p where "payment_applied g (pw_ReferenceOrderID payload) p due g'" "p_status p = PaymentStatusCancelled"
    "\<not> wr_Duplicate x"
    "\<And>w. find_order_row g (pw_ReferenceOrderID payload) = Some w \<Longrightarrow> hardware_order g (items_of_order g (o_id w))"
proof (cases "find_order_row g (pw_ReferenceOrderID payload)")
  case None
  with run obtain g1 y where up: "runs (PaymentRepository_Cancel (pw_ReferenceOrderID payload) None) e g y g1"
    and "same_business g1 g'" "\<not> wr_Duplicate x"
    by (auto simp: cancelPayment_def webhook_result_def elim!: runs_bind_op dest!: runs_MarkProcessed_business)
  from runs_Cancel_stored [OF ok, of "pw_ReferenceOrderID payload" e y g1] up None obtain p where
    "payment_stored g (pw_ReferenceOrderID payload) p g1" "p_status p = PaymentStatusCancelled" by auto
  with None have "payment_applied g (pw_ReferenceOrderID payload) p due g1"
    by (intro stored_applied [OF ok]) simp_all
  with \<open>same_business g1 g'\<close> have "payment_applied g (pw_ReferenceOrderID payload) p due g'"
    by (rule payment_applied_business)
  then show thesis
    by (rule that) (use None \<open>\<not> wr_Duplicate x\<close> \<open>p_status p = PaymentStatusCancelled\<close> in simp_all)
next
  case (Some w)
  let ?items = "items_of_order g (o_id w)"
  from run Some obtain b y g0 g1 g2 g3 where cls: "runs (SKUClassifier_HasHardware (paymentItemSKUs ?items)) e g b g0"
    and hw: "cancel_hardware ?items b" and "runs (PaymentRepository_Cancel (pw_ReferenceOrderID payload) (Some (o_id w))) e g0 y g1"
    and can: "runs (OrderRepository_Cancel (o_id w)) e g1 () g2"
    and "runs (EventRepository_MarkProcessed EventTypePayment (pw_EventID payload)) e g2 () g3"
    and "runs (paymentResult (pw_EventID payload) (pw_ReferenceOrderID payload) MessageOrderCancelled (Some (o_id w))) e g3 x g'"
    by (auto simp: cancelPayment_def runs_ListItems elim!: runs_bind_op split: if_splits)
  with HasHardware_result [OF cls] have up: "runs (PaymentRepository_Cancel (pw_ReferenceOrderID payload) (Some (o_id w))) e g y g1"
    and sb: "same_business g2 g'" and "\<not> wr_Duplicate x"
    by (auto dest!: paymentResult_reads dest: runs_MarkProcessed_business)
  have "hardware_order g ?items"
    using HasHardware_result [OF cls] hw by (simp add: cancel_hardware_eq paymentItemSKUs_eq classify_items)
  moreover from runs_Cancel_stored [OF ok, of "pw_ReferenceOrderID payload" e y g1] up Some obtain p where
    "payment_stored g (pw_ReferenceOrderID payload) p g1" "p_status p = PaymentStatusCancelled" by auto
  ultimately show thesis using Some \<open>\<not> wr_Duplicate x\<close>
    by (intro that [OF payment_applied_business [OF sb cancelled_applied [OF ok _ Some _ can]]]) simp_all
qed

lemma runs_completePayment:
  assumes "runs (completePayment payload st i cfg) e g x g'"
  obtains t g1 where "ps_PaidAt st = Some t" "runs (MarkPaidAndSchedule cfg i (items_of_order g i) t) e g () g1" "same_business g1 g'"
  using assms
  by (auto simp: completePayment_def runs_ListItems elim!: runs_bind_op split: option.splits
      dest!: runs_MarkProcessed_business)

text \<open>
  What an applied payment event did: the payment of \<open>ref\<close> was still open, it now has the
  event's status, and the order follows it.
\<close>

definition payment_event_applied :: "(string \<Rightarrow> time option) \<Rightarrow> payment_Webhook \<Rightarrow> Config \<Rightarrow> env \<Rightarrow> pg \<Rightarrow> pg \<Rightarrow> bool" where
  "payment_event_applied parse_time payload cfg e g g' \<longleftrightarrow>
     (\<exists>p t. parse_time (pw_Timestamp payload) = Some t \<and>
        payment_applied g (pw_ReferenceOrderID payload) p (settle_due cfg e g (pw_ReferenceOrderID payload)) g' \<and>
        p_status p = pw_PaymentStatus payload \<and>
        (pw_PaymentStatus payload = PaymentStatusCompleted \<longrightarrow> p_paid_at p = Some (timestamptz t)) \<and>
        (\<forall>w. pw_PaymentStatus payload = PaymentStatusCancelled \<longrightarrow> find_order_row g (pw_ReferenceOrderID payload) = Some w \<longrightarrow>
           hardware_order g (items_of_order g (o_id w))))"

lemma runs_apply_payment:
  assumes ok: "db_ok g" and run: "runs (apply_payment parse_time payload cfg) e g x g'"
  shows "payment_event_applied parse_time payload cfg e g g' \<and> \<not> wr_Duplicate x"
proof -
  let ?ref = "pw_ReferenceOrderID payload" and ?st = "pw_PaymentStatus payload"
  let ?oid = "map_option o_id (find_order_row g ?ref)" and ?due = "settle_due cfg e g ?ref"
  from run obtain t where t: "parse_time (pw_Timestamp payload) = Some t"
    by (auto simp: apply_payment_def split: option.splits)
  have id: "i = ?oid \<and> g1 = g" if "runs (findOrderID ?ref) e g i g1" for i g1
    using that ok by (auto simp: db_ok_def dest: runs_findOrderID)
  show ?thesis
  proof (cases "?st = PaymentStatusCancelled")
    case True
    with run t have "runs (cancelPayment payload ?oid) e g x g'"
      by (auto simp: apply_payment_def elim!: runs_bind_op dest!: id)
    then show ?thesis
      by (rule runs_cancelPayment [OF ok, where due = ?due]) (use True t in \<open>auto simp: payment_event_applied_def\<close>)
  next
    case False
    with run t obtain st g1 where
      up: "runs (PaymentRepository_Upsert ?ref ?st ?oid (if ?st = PaymentStatusCompleted then Some t else None)) e g st g1"
      and rest: "runs (if ?st \<noteq> PaymentStatusCompleted then
                      bind_op (wrapf ''mark payment event %q processed: %w'' [ArgS (pw_EventID payload)]
                          (EventRepository_MarkProcessed EventTypePayment (pw_EventID payload)))
                        (\<lambda>_. paymentResult (pw_EventID payload) ?ref MessagePaymentRecorded ?oid)
                    else case ?oid of
                      None \<Rightarrow>
                        bind_op (wrapf ''mark payment event %q processed: %w'' [ArgS (pw_EventID payload)]
                            (EventRepository_MarkProcessed EventTypePayment (pw_EventID payload)))
                          (\<lambda>_. ret ((webhook_result MessageAwaitingShopOrder (pw_EventID payload) ?ref)
                             \<lparr>wr_PaymentStatus := ps_Status st\<rparr>))
                    | Some i \<Rightarrow>
                        bind_op (completePayment payload st i cfg)
                          (\<lambda>message. paymentResult (pw_EventID payload) ?ref message ?oid)) e g1 x g'"
      unfolding apply_payment_def by (auto elim!: runs_bind_op dest!: id)
    from ok up obtain p where p: "payment_stored g ?ref p g1" "st = state_of_payment p" "p_status p = ?st"
      and paid: "?st = PaymentStatusCompleted \<Longrightarrow> p_paid_at p = Some (timestamptz t)"
      by (rule runs_Upsert_stored) auto
    have "payment_applied g ?ref p ?due g' \<and> \<not> wr_Duplicate x"
    proof (cases "?st = PaymentStatusCompleted \<and> find_order_row g ?ref \<noteq> None")
      case True
      then obtain w where w: "find_order_row g ?ref = Some w" by blast
      with True rest obtain u g2 where comp: "runs (completePayment payload st (o_id w) cfg) e g1 u g2"
        and "g' = g2" "\<not> wr_Duplicate x"
        by (auto elim!: runs_bind_op dest: paymentResult_reads)
      from comp obtain g3 where mark: "runs (MarkPaidAndSchedule cfg (o_id w) (items_of_order g1 (o_id w)) (timestamptz t)) e g1 () g3"
        and sb: "same_business g3 g2"
        using paid True p(2) by (auto simp: state_of_payment_def elim: runs_completePayment)
      from p(1) have "items_of_order g1 (o_id w) = items_of_order g (o_id w)"
        by (auto simp: payment_stored_def items_of_order_def)
      with mark sb p paid True w have "payment_applied g ?ref p ?due g2"
        using completed_applied [OF ok p(1) w] payment_applied_business by (fastforce simp: settle_due_def)
      with \<open>g' = g2\<close> \<open>\<not> wr_Duplicate x\<close> show ?thesis by simp
    next
      case open_or_unknown: False
      with rest have "same_business g1 g'" "\<not> wr_Duplicate x"
        by (auto simp: webhook_result_def elim!: runs_bind_op split: if_splits option.splits
            dest!: paymentResult_reads dest: runs_MarkProcessed_business)
      moreover have "payment_applied g ?ref p ?due g1"
        using open_or_unknown False p paid by (intro stored_applied [OF ok]) (auto simp: finalized_def)
      ultimately show ?thesis by (blast intro: payment_applied_business)
    qed
    with p(3) t paid False show ?thesis unfolding payment_event_applied_def by blast
  qed
qed

text \<open>The two outcomes of a successful payment webhook.\<close>

lemma runs_processPayment:
  assumes ok: "db_ok g" and run: "runs (processPayment upper parse_time payload cfg) e g x g'"
  obtains (duplicate) "wr_Duplicate x" "same_business g g'" "payment_status g (pw_ReferenceOrderID payload) = Some (wr_PaymentStatus x)"
    | (applied) "\<not> wr_Duplicate x" "payment_event_applied parse_time payload cfg e g g'"
proof -
  let ?ref = "pw_ReferenceOrderID payload"
  from run obtain b g0 where rec: "runs (EventRepository_Record (pw_EventID payload) EventTypePayment (PaymentPayload payload)) e g b g0"
    and rest: "runs (if \<not> b then replayed_payment_event upper payload
         else bind_op (wrapf ''find payment %q: %w'' [ArgS ?ref] (PaymentRepository_Find ?ref))
             (\<lambda>existing. case existing of
                None \<Rightarrow> apply_payment parse_time payload cfg
              | Some st \<Rightarrow> if isTerminal (ps_Status st) then finalized_payment payload st
                  else apply_payment parse_time payload cfg)) e g0 x g'"
    unfolding processPayment_def by (auto elim!: runs_bind_op)
  from rec have sb: "same_business g g0" by (rule runs_Record_business)
  then obtain ev where g0: "g0 = g\<lparr>webhook_events := ev\<rparr>" by (auto simp: same_business_def)
  have ok0: "db_ok g0" using ok by (simp add: g0)
  show thesis
  proof (cases "b \<longrightarrow> (\<exists>st. payment_status g ?ref = Some st \<and> finalized st)")
    case True
    with rest have "wr_Duplicate x \<and> same_business g0 g' \<and> payment_status g0 ?ref = Some (wr_PaymentStatus x)"
      by (auto simp: replayed_payment_event_def finalized_payment_def runs_payment_Find isTerminal_finalized
          payment_status_def state_of_payment_def g0
          elim!: runs_bind_op split: if_splits option.splits
          dest!: paymentResult_reads runs_MarkProcessed_business simp: runs_FindPayload)
    with sb g0 show thesis by (intro duplicate) (auto intro: same_business_trans)
  next
    case False
    with rest have "runs (apply_payment parse_time payload cfg) e g0 x g'"
      by (auto simp: runs_payment_Find isTerminal_finalized payment_status_def g0 state_of_payment_def
          elim!: runs_bind_op split: if_splits option.splits)
    from runs_apply_payment [OF ok0 this] show thesis
      by (intro applied) (auto simp: g0 payment_event_applied_def settle_due_def items_of_order_def sync_delay_def
          hardware_order_def hardware_item_def hardware_sku_def cong: option.case_cong)
  qed
qed

lemma processPayment_ok:
  assumes "db_ok g" and "runs (processPayment upper parse_time payload cfg) e g x g'"
  shows "db_ok g'"
  using assms
proof (cases rule: runs_processPayment)
  case duplicate
  with assms(1) show ?thesis by (simp add: same_business_ok)
next
  case applied
  with assms(1) show ?thesis by (auto simp: payment_event_applied_def intro: payment_applied_ok)
qed

section \<open>Failed calls\<close>

text \<open>
  A rolled-back call leaves the tables and moves the sequences forward. \<open>advances m\<close>: under
  every fault schedule and whatever its outcome, \<open>m\<close> never moves a sequence back.
\<close>

definition seqs_le :: "pg \<Rightarrow> pg \<Rightarrow> bool" where
  "seqs_le g h \<longleftrightarrow> orders_seq g \<le> orders_seq h \<and> payments_seq g \<le> payments_seq h \<and> sync_jobs_seq g \<le> sync_jobs_seq h"

definition advances :: "'a op \<Rightarrow> bool" where
  "advances m \<longleftrightarrow> (\<forall>e g fs r g' fs'. m e (g, fs) = (r, (g', fs')) \<longrightarrow> seqs_le g g')"

definition query_advances :: "'a query \<Rightarrow> bool" where
  "query_advances q \<longleftrightarrow> (\<forall>now g x g'. q now g = Inr (x, g') \<longrightarrow> seqs_le g g')"

lemma seqs_le_refl [simp]: "seqs_le g g"
  by (simp add: seqs_le_def)

lemma seqs_le_trans: "seqs_le g h \<Longrightarrow> seqs_le h k \<Longrightarrow> seqs_le g k"
  by (auto simp: seqs_le_def)

lemma advances_simple [advances_intros]: "advances (ret x)" "advances (reader f)" "advances (throw err)"
  by (simp_all add: advances_def ret_def reader_def throw_def)

lemma advances_wrapf [advances_intros]: "advances m \<Longrightarrow> advances (wrapf fmt args m)"
  by (auto simp: advances_def wrapf_def split: prod.splits sum.splits) blast+

lemma advances_bind_op [advances_intros]: "advances m \<Longrightarrow> (\<And>x. advances (f x)) \<Longrightarrow> advances (bind_op m f)"
proof -
  assume m: "advances m" and f: "\<And>x. advances (f x)"
  have "seqs_le g g'" if "bind_op m f e (g, fs) = (r, (g', fs'))" for e g fs r g' fs'
  proof -
    obtain r1 g1 fs1 where m1: "m e (g, fs) = (r1, (g1, fs1))" by (metis surj_pair)
    then have "seqs_le g g1" using m unfolding advances_def by blast
    moreover have "seqs_le g1 g'"
    proof (cases r1)
      case (Inr y)
      with that m1 have "f y e (g1, fs1) = (r, (g', fs'))" by (simp add: bind_op_def)
      with f [of y] show ?thesis unfolding advances_def by blast
    qed (use that m1 in \<open>simp add: bind_op_def\<close>)
    ultimately show ?thesis by (rule seqs_le_trans)
  qed
  then show ?thesis unfolding advances_def by blast
qed

lemma advances_statement [advances_intros]: "query_advances q \<Longrightarrow> advances (statement q)"
  unfolding advances_def query_advances_def
  by (auto simp: statement_def split: fault.splits sum.splits prod.splits)

lemma advances_indexed_statement [advances_intros]: "(\<And>index_row. query_advances (q index_row)) \<Longrightarrow> advances (indexed_statement q)"
  using advances_statement [of "q _"] by (simp add: advances_def indexed_statement_def)

lemma query_advances_all [advances_intros]:
  "query_advances (InsertEvent ir i t pl)" "query_advances (FindEventPayload t i)" "query_advances (MarkEventProcessed t i)"
  "query_advances (q_MarkPaymentEventsProcessed r)" "query_advances (InsertOrder ir r m)" "query_advances (InsertItem k item)"
  "query_advances (FindOrderID r)" "query_advances (FindOrder r)" "query_advances (FindItems k)" "query_advances (FindStatus r)"
  "query_advances (MarkPaid k pa)" "query_advances (ScheduleSync k d)" "query_advances (CancelOrder k)"
  "query_advances (MarkCancelledOrder k)" "query_advances (CancelJob k)" "query_advances (FindPayment r)"
  "query_advances (LinkPaymentOrder r k)" "query_advances (HasHardwareSKU skus)"
  by (auto simp: query_advances_def seqs_le_def query_defs Let_def split: if_splits option.splits)

lemma query_advances_upserts [advances_intros]:
  "query_advances (UpsertPayment ir r oi st pa)" "query_advances (CancelPayment ir r oi)"
  by (auto simp: query_advances_def seqs_le_def UpsertPayment_def CancelPayment_def upsert_payment_row_def Let_def
      split: if_splits option.splits)

lemma advances_AddItems [advances_intros]: "advances (OrderRepository_AddItems i items)"
  by (induction items) (auto intro!: advances_intros)

lemma advances_repo [advances_intros]:
  "advances (EventRepository_Record i t pl)" "advances (EventRepository_FindPayload t i)"
  "advances (EventRepository_MarkProcessed t i)" "advances (EventRepository_MarkPaymentEventsProcessed r)"
  "advances (OrderRepository_Create r m)" "advances (OrderRepository_FindID r)" "advances (OrderRepository_ListItems k)"
  "advances (OrderRepository_Find r)" "advances (OrderRepository_FindStatus r)" "advances (OrderRepository_MarkPaid k pa)"
  "advances (OrderRepository_ScheduleSync k d)" "advances (OrderRepository_Cancel k)"
  "advances (PaymentRepository_Upsert r st oi pt)" "advances (PaymentRepository_Cancel r oi)" "advances (PaymentRepository_Find r)"
  "advances (PaymentRepository_LinkOrder r k)" "advances (SKUClassifier_HasHardware skus)"
  by (auto simp: repo_defs intro!: advances_intros split: option.split)

lemma advances_services [advances_intros]:
  "advances (shopResult i r m)" "advances (paymentResult i r m oi)" "advances (MarkPaidAndSchedule cfg k items pa)"
  "advances (findOrderID r)"
  by (auto simp: shopResult_def paymentResult_def MarkPaidAndSchedule_def findOrderID_def Let_def intro!: advances_intros split: option.split)

lemma advances_processShop: "advances (processShop p cfg)"
  by (auto simp: processShop_def replayed_shop_event_def existing_shop_order_def store_shop_order_def
      reconcilePayment_def settle_order_def intro!: advances_intros split: option.split)

lemma advances_processPayment: "advances (processPayment upper parse_time p cfg)"
  by (auto simp: processPayment_def replayed_payment_event_def finalized_payment_def apply_payment_def
      cancelPayment_def completePayment_def intro!: advances_intros split: option.split)

lemma db_ok_rollback:
  assumes "db_ok g" and "seqs_le g h"
  shows "db_ok (rollback g h)"
proof -
  have same: "payment_status (rollback g h) = payment_status g" "find_payment_row (rollback g h) = find_payment_row g"
    "order_exists (rollback g h) = order_exists g"
    by (simp_all add: fun_eq_iff rollback_def payment_status_def find_payment_row_def order_exists_def)
  have "orders_wf (rollback g h)"
    using assms by (force simp: db_ok_def orders_wf_def rollback_def seqs_le_def)
  moreover have "payments_ok (rollback g h)"
    using assms(1) by (simp add: db_ok_def payments_ok_def same) (simp add: rollback_def)
  moreover have "reconciled (rollback g h)"
    using assms(1) by (simp add: db_ok_def reconciled_def same) (simp add: rollback_def)
  moreover have "outbox_ok (rollback g h)"
    using assms by (force simp: db_ok_def outbox_ok_def rollback_def seqs_le_def)
  ultimately show ?thesis by (simp add: db_ok_def)
qed

text \<open>Under every fault schedule, a transaction whose work keeps the invariant keeps it.\<close>

lemma in_transaction_ok:
  assumes "advances work" and "\<And>x h. runs work e g x h \<Longrightarrow> db_ok h" and "db_ok g"
    and "in_transaction b c work e (g, fs) = (r, (g', fs'))"
  shows "db_ok g'"
proof (cases "next_fault fs")
  case Okay
  obtain r1 g1 fs1 where work: "work e (g, tl fs) = (r1, (g1, fs1))" by (metis surj_pair)
  then have "seqs_le g g1" using assms(1) unfolding advances_def by blast
  then have undone: "db_ok (rollback g g1)" using assms(3) by (rule db_ok_rollback[rotated])
  show ?thesis
  proof (cases r1)
    case (Inl err)
    with assms(4) Okay work undone show ?thesis by (auto simp: in_transaction_def)
  next
    case (Inr x)
    with work have "db_ok g1" by (blast intro: runsI assms(2))
    with assms(4) Okay work Inr undone show ?thesis
      by (cases "next_fault fs1") (auto simp: in_transaction_def)
  qed
qed (use assms(3,4) in \<open>auto simp: in_transaction_def\<close>)

lemma Run_ok:
  assumes "advances work" and "\<And>x h. runs work e g x h \<Longrightarrow> db_ok h" and "db_ok g"
    and "Run work e (g, fs) = (r, (g', fs'))"
  shows "db_ok g'"
  using in_transaction_ok [OF advances_wrapf [OF assms(1)] _ assms(3) assms(4) [unfolded Run_def]] assms(2) by simp

lemma shop_Process_ok:
  assumes "db_ok g" and "shop_Process cfg p e (g, fs) = (r, (g', fs'))"
  shows "db_ok g'"
  using assms unfolding shop_Process_def by (blast intro: Run_ok advances_processShop processShop_ok)

lemma payment_Process_ok:
  assumes "db_ok g" and "payment_Process upper parse_time cfg p e (g, fs) = (r, (g', fs'))"
  shows "db_ok g'"
  using assms unfolding payment_Process_def by (blast intro: Run_ok advances_processPayment processPayment_ok)

section \<open>The worker's operations on the outbox\<close>

lemma outbox_update:
  assumes ok: "db_ok g"
    and g': "orders g' = update_where P f (orders g)"
      "\<And>r. o_id (f r) = o_id r \<and> o_order_id (f r) = o_order_id r \<and> o_payment_status (f r) = o_payment_status r \<and> o_paid_at (f r) = o_paid_at r"
      "sync_jobs g' = update_where Q h (sync_jobs g)"
      "\<And>j. j_id (h j) = j_id j \<and> j_order_id (h j) = j_order_id j"
      "\<And>j. j \<in> set (sync_jobs g) \<Longrightarrow> Q j \<Longrightarrow> job_row_ok j \<Longrightarrow> job_row_ok (h j)"
      "order_items g' = order_items g" "payments g' = payments g" "orders_seq g' = orders_seq g" "sync_jobs_seq g' = sync_jobs_seq g"
  shows "db_ok g'"
proof -
  have same: "payment_status g' = payment_status g" "find_payment_row g' = find_payment_row g"
    using g'(7) by (simp_all add: fun_eq_iff payment_status_def find_payment_row_def)
  have ex: "order_exists g' = order_exists g"
    using g'(2) by (simp add: fun_eq_iff order_exists_def g'(1) bex_update_where)
  have "orders_wf g'"
    using ok g'(2,6,8) by (auto simp: db_ok_def orders_wf_def g'(1) ball_update_where intro!: unique_on_update_where)
  moreover have "payments_ok g'"
    using ok g'(2,7) by (simp add: db_ok_def payments_ok_def ex g'(1) ball_update_where)
  moreover have "reconciled g'"
    using ok g'(2) by (simp add: db_ok_def reconciled_def same g'(1) ball_update_where)
  moreover have "outbox_ok g'"
    using ok g'(2,4,5,9)
    by (auto simp: db_ok_def outbox_ok_def g'(1,3) ball_update_where bex_update_where intro!: unique_on_update_where)
  ultimately show ?thesis by (simp add: db_ok_def)
qed

text \<open>A statement sent outside a transaction takes effect or not; both keep the invariant.\<close>

lemma statement_ok:
  assumes "\<And>now x h. q now g = Inr (x, h) \<Longrightarrow> db_ok h" and "db_ok g" and "statement q e (g, fs) = (r, (g', fs'))"
  shows "db_ok g'"
  using assms(1) [of "env_now e"] assms(2,3) by (auto simp: statement_def split: fault.splits sum.splits prod.splits)

lemma wrapf_statement_ok:
  assumes "\<And>now x h. q now g = Inr (x, h) \<Longrightarrow> db_ok h" and "db_ok g" and "wrapf f a (statement q) e (g, fs) = (r, (g', fs'))"
  shows "db_ok g'"
proof -
  from assms(3) obtain r1 where "statement q e (g, fs) = (r1, (g', fs'))"
    by (auto simp: wrapf_def split: prod.splits sum.splits)
  with assms(1,2) show ?thesis by (rule statement_ok)
qed

lemma job_row_ok_lock: "job_row_ok j \<Longrightarrow> job_row_ok (lock_row t j)"
  by (simp add: job_row_ok_def)

lemma job_row_ok_synced: "job_row_ok j \<Longrightarrow> job_row_ok (synced_row x t j)"
  by (simp add: job_row_ok_def)

lemma job_row_ok_failed:
  "job_row_ok j \<Longrightarrow> st \<in> {SyncStatusPending, SyncStatusWaiting, SyncStatusDead} \<Longrightarrow> job_row_ok (failed_row st d m t j)"
  by (auto simp: job_row_ok_def failed_row_def)

lemma LockJob_ok: "db_ok g \<Longrightarrow> LockJob i now g = Inr (x, g') \<Longrightarrow> db_ok g'"
  by (erule outbox_update [where P = "\<lambda>_. False" and f = "\<lambda>r. r" and Q = "\<lambda>j. j_id j = i" and h = "lock_row now"])
    (auto simp: LockJob_def job_row_ok_lock update_where_none)

lemma q_MarkSynced_ok: "db_ok g \<Longrightarrow> q_MarkSynced i sap now g = Inr (x, g') \<Longrightarrow> db_ok g'"
  by (erule outbox_update [where P = "\<lambda>r. \<exists>j \<in> set (sync_jobs g). j_id j = i \<and> j_order_id j = o_id r"
        and f = "\<lambda>r. r\<lparr>o_sap_id := Some sap, o_updated_at := now\<rparr>" and Q = "\<lambda>j. j_id j = i" and h = "synced_row sap now"])
    (auto simp: q_MarkSynced_def job_row_ok_synced)

lemma q_MarkFailed_ok:
  assumes "st \<in> {SyncStatusPending, SyncStatusWaiting, SyncStatusDead}" and "db_ok g" and "q_MarkFailed i st d m now g = Inr (x, g')"
  shows "db_ok g'"
  using assms(2)
  by (rule outbox_update [where P = "\<lambda>_. False" and f = "\<lambda>r. r" and Q = "\<lambda>j. j_id j = i" and h = "failed_row st d m now"])
    (use assms in \<open>auto simp: q_MarkFailed_def update_where_none split: if_splits intro: job_row_ok_failed\<close>)

lemma MarkSynced_ok: "db_ok g \<Longrightarrow> MarkSynced i sap e (g, fs) = (r, (g', fs')) \<Longrightarrow> db_ok g'"
  unfolding MarkSynced_def by (blast intro: wrapf_statement_ok q_MarkSynced_ok)

lemma MarkFailed_ok:
  "st \<in> {SyncStatusPending, SyncStatusWaiting, SyncStatusDead} \<Longrightarrow> db_ok g \<Longrightarrow>
     MarkFailed i st d m e (g, fs) = (r, (g', fs')) \<Longrightarrow> db_ok g'"
  unfolding MarkFailed_def by (blast intro: wrapf_statement_ok q_MarkFailed_ok)

lemma query_advances_jobs [advances_intros]:
  "query_advances (ClaimJob L)" "query_advances (LockJob i)" "query_advances (JobItems i)"
  by (auto simp: query_advances_def ClaimJob_def LockJob_def JobItems_def select_def seqs_le_def)

lemma advances_claim_work: "advances claim_work"
proof -
  have "advances claim_query"
    using advances_statement [OF query_advances_jobs(1)] by (simp add: advances_def claim_query_def)
  then show ?thesis
    by (auto simp: claim_work_def loadJobItems_def intro!: advances_intros split: option.split)
qed

lemma ClaimDue_ok:
  assumes "db_ok g" and "ClaimDue e (g, fs) = (r, (g', fs'))"
  shows "db_ok g'"
proof (rule in_transaction_ok [OF advances_claim_work _ assms(1) assms(2) [unfolded ClaimDue_def]])
  fix x h assume "runs claim_work e g x h"
  then show "db_ok h"
    by (cases rule: runs_claim_work) (auto simp: assms(1) intro: LockJob_ok [OF assms(1)] simp: LockJob_def)
qed

lemma db_ok_catalogue: "db_ok (g\<lparr>sku_classifications := skus\<rparr>) = db_ok g"
  by (simp add: db_ok_def orders_wf_def payments_ok_def reconciled_def outbox_ok_def
      payment_status_def find_payment_row_def order_exists_def)

lemma Migrate_ok: "db_ok g \<Longrightarrow> Migrate e (g, fs) = (r, (g', fs')) \<Longrightarrow> db_ok g'"
  unfolding Migrate_def by (rule wrapf_statement_ok) (auto simp: migration_sql_def db_ok_catalogue)

end
