(* ===== verification/SapClient.thy ===== *)
theory SapClient
  imports Settlement
begin

text \<open>
  \<open>internal/infrastructure/sap\<close>: the HTTP client that delivers an order to SAP. The network
  is an argument: \<open>http_outcome\<close> is what \<open>http.NewRequestWithContext\<close> and \<open>client.Do\<close>
  returned. \<open>json.Marshal\<close> of the order, \<open>json.Unmarshal\<close> of the answer and
  \<open>http.ParseTime\<close> are the arguments \<open>marshal\<close>, \<open>unmarshal\<close> and \<open>parse_http_time\<close>.
  Concurrent callers of \<open>SyncOrder\<close> share one request per idempotency key; they are the
  step relation at the end.
\<close>

section \<open>Durations\<close>

text \<open>Arithmetic of \<open>time.Duration\<close>, a signed 64-bit integer, wraps around.\<close>

definition int64 :: "int \<Rightarrow> int" where
  "int64 x = (x + 2 ^ 63) mod 2 ^ 64 - 2 ^ 63"

lemma int64_id: "- (2 ^ 63) \<le> x \<Longrightarrow> x < 2 ^ 63 \<Longrightarrow> int64 x = x"
  by (simp add: int64_def)

lemma int64_range: "- (2 ^ 63) \<le> int64 x \<and> int64 x < 2 ^ 63"
  by (simp add: int64_def pos_mod_bound pos_mod_sign)

definition timeDuration :: "int \<Rightarrow> int" where
  "timeDuration milliseconds = int64 (milliseconds * millisecond)"

text \<open>\<open>t.Sub(u)\<close> saturates.\<close>

definition time_Sub :: "time \<Rightarrow> time \<Rightarrow> int" where
  "time_Sub t u = max (- (2 ^ 63)) (min (2 ^ 63 - 1) (t - u))"

section \<open>Errors\<close>

definition wrapError :: "go_error \<Rightarrow> bool \<Rightarrow> go_error" where
  "wrapError err retryable = RequestError err retryable 0 False"

definition wrapErrorWithRetryAfter :: "go_error \<Rightarrow> bool \<Rightarrow> int \<Rightarrow> bool \<Rightarrow> go_error" where
  "wrapErrorWithRetryAfter err retryable retryAfter hasRetryAfter = RequestError err retryable retryAfter hasRetryAfter"

definition parseRetryAfter :: "(string \<Rightarrow> time option) \<Rightarrow> string \<Rightarrow> time \<Rightarrow> int \<times> bool" where
  "parseRetryAfter parse_http_time header now =
     (let value = TrimSpace header in
      if value = [] then (0, False)
      else case ParseInt value of
        Some seconds \<Rightarrow>
          if 0 \<le> seconds then
            if seconds > (2 ^ 63 - 1) div second then (0, False) else (int64 (seconds * second), True)
          else (case parse_http_time value of
            None \<Rightarrow> (0, False)
          | Some date \<Rightarrow> if date < now then (0, False) else (time_Sub date now, True))
      | None \<Rightarrow>
          (case parse_http_time value of
            None \<Rightarrow> (0, False)
          | Some date \<Rightarrow> if date < now then (0, False) else (time_Sub date now, True)))"

definition retryableTransportError :: "transport_error \<Rightarrow> bool" where
  "retryableTransportError err =
     (if is_canceled err \<and> \<not> is_deadline_exceeded err then False
      else if is_deadline_exceeded err \<or> is_unexpected_eof err then True
      else if is_op_error err then True
      else if is_dns_error err then True
      else is_net_error err \<and> net_timeout err)"

definition retryableStatus :: "int \<Rightarrow> bool" where
  "retryableStatus statusCode \<longleftrightarrow>
     statusCode = 429 \<or> statusCode = 500 \<or> statusCode = 502 \<or> statusCode = 503 \<or> statusCode = 504"

section \<open>One request\<close>

record http_response =
  StatusCode :: int
  RetryAfterHeader :: string
  ResponseBody :: "transport_error + string"

datatype http_outcome =
    RequestInvalid go_error
  | SendFailed transport_error
  | Responded http_response

definition max_response :: nat where "max_response = 2 ^ 20"

text \<open>The decoded answer is the pair of \<open>status\<close> and \<open>sap_internal_id\<close>.\<close>

definition parseResponse ::
  "(string \<Rightarrow> time option) \<Rightarrow> (string \<Rightarrow> go_error + string \<times> string) \<Rightarrow> time \<Rightarrow> http_response \<Rightarrow> OrderDetails
     \<Rightarrow> go_error + string" where
  "parseResponse parse_http_time unmarshal now response order =
     (if StatusCode response < 200 \<or> StatusCode response \<ge> 300 then
        let retryable = retryableStatus (StatusCode response);
            err = Errorf ''SAP returned HTTP %d'' [ArgD (StatusCode response)] in
        if StatusCode response = 429 then
          (case parseRetryAfter parse_http_time (RetryAfterHeader response) now of (retryAfter, hasRetryAfter) \<Rightarrow>
            Inl (wrapErrorWithRetryAfter err retryable retryAfter hasRetryAfter))
        else Inl (wrapError err retryable)
      else
        case ResponseBody response of
          Inl terr \<Rightarrow> Inl (wrapError (Wrapf ''read SAP response for order %q: %w'' [ArgS (od_OrderID order)] (Transport terr))
            (retryableTransportError terr))
        | Inr bytes \<Rightarrow>
            (case unmarshal (take max_response bytes) of
               Inl err \<Rightarrow> Inl (wrapError (Wrapf ''decode SAP response for order %q: %w'' [ArgS (od_OrderID order)] err) False)
             | Inr (status, sapInternalID) \<Rightarrow>
                 if status \<noteq> ''success''
                 then Inl (wrapError (Errorf ''SAP response status was %q, want %q'' [ArgS status, ArgS ''success'']) False)
                 else if sapInternalID = []
                 then Inl (wrapError (Errorf ''SAP response did not contain sap_internal_id'' []) False)
                 else Inr sapInternalID))"

definition postOrder ::
  "(string \<Rightarrow> time option) \<Rightarrow> (string \<Rightarrow> go_error + string \<times> string) \<Rightarrow> time \<Rightarrow> http_outcome \<Rightarrow> OrderDetails
     \<Rightarrow> go_error + string" where
  "postOrder parse_http_time unmarshal now outcome order =
     (case outcome of
        RequestInvalid err \<Rightarrow>
          Inl (wrapError (Wrapf ''create SAP request for order %q: %w'' [ArgS (od_OrderID order)] err) False)
      | SendFailed terr \<Rightarrow>
          Inl (wrapError (Wrapf ''send SAP request for order %q: %w'' [ArgS (od_OrderID order)] (Transport terr))
            (retryableTransportError terr))
      | Responded response \<Rightarrow> parseResponse parse_http_time unmarshal now response order)"

section \<open>Calls in flight\<close>

text \<open>
  \<open>syncOrderCall\<close> structs live in the list \<open>cl_calls\<close> and are addressed by their index, since
  a waiting caller keeps the pointer after the entry of \<open>inflight\<close> is deleted.
\<close>

record syncOrderCall =
  call_done :: bool
  call_body :: string
  call_result :: "go_error + string"

record HTTPClient =
  cl_calls :: "syncOrderCall list"
  cl_inflight :: "string \<Rightarrow> nat option"

definition NewClient :: HTTPClient where
  "NewClient = \<lparr>cl_calls = [], cl_inflight = (\<lambda>_. None)\<rparr>"

definition marshalOrder :: "(OrderDetails \<Rightarrow> go_error + string) \<Rightarrow> OrderDetails \<Rightarrow> go_error + string" where
  "marshalOrder marshal order =
     (case marshal order of
        Inl err \<Rightarrow> Inl (wrapError (Wrapf ''marshal SAP order %q: %w'' [ArgS (od_OrderID order)] err) False)
      | Inr body \<Rightarrow> Inr body)"

definition startCall :: "string \<Rightarrow> string \<Rightarrow> HTTPClient \<Rightarrow> (go_error + nat \<times> bool) \<times> HTTPClient" where
  "startCall key body c =
     (case cl_inflight c key of
        Some a \<Rightarrow>
          if call_body (cl_calls c ! a) \<noteq> body
          then (Inl (wrapError (Errorf ''SAP idempotency key %q reused with a different order payload'' [ArgS key]) False), c)
          else (Inr (a, False), c)
      | None \<Rightarrow>
          (Inr (length (cl_calls c), True),
           c\<lparr>cl_calls := cl_calls c @ [\<lparr>call_done = False, call_body = body, call_result = Inr []\<rparr>],
             cl_inflight := (cl_inflight c)(key \<mapsto> length (cl_calls c))\<rparr>))"

text \<open>The deferred function of \<open>SyncOrder\<close>: publish the result, forget the key, close the channel.\<close>

definition finishCall :: "string \<Rightarrow> nat \<Rightarrow> go_error + string \<Rightarrow> HTTPClient \<Rightarrow> HTTPClient" where
  "finishCall key a result c =
     c\<lparr>cl_calls := (cl_calls c)[a := (cl_calls c ! a)\<lparr>call_result := result, call_done := True\<rparr>],
       cl_inflight := (cl_inflight c)(key := None)\<rparr>"

text \<open>The part of \<open>SyncOrder\<close> up to the registration of the call.\<close>

definition beginSyncOrder ::
  "(OrderDetails \<Rightarrow> go_error + string) \<Rightarrow> string \<Rightarrow> OrderDetails \<Rightarrow> HTTPClient \<Rightarrow> (go_error + nat \<times> bool) \<times> HTTPClient" where
  "beginSyncOrder marshal key order c =
     (if key = [] then (Inl (wrapError (Errorf ''SAP idempotency key is empty'' []) False), c)
      else case marshalOrder marshal order of
        Inl err \<Rightarrow> (Inl err, c)
      | Inr body \<Rightarrow> startCall key body c)"

text \<open>An undisturbed call: the caller owns the request, posts it and publishes the result.\<close>

definition SyncOrder ::
  "(OrderDetails \<Rightarrow> go_error + string) \<Rightarrow> (OrderDetails \<Rightarrow> go_error + string) \<Rightarrow> string \<Rightarrow> OrderDetails \<Rightarrow> HTTPClient
     \<Rightarrow> (go_error + string) option \<times> HTTPClient" where
  "SyncOrder marshal post key order c =
     (case beginSyncOrder marshal key order c of
        (Inl err, c') \<Rightarrow> (Some (Inl err), c')
      | (Inr (a, owner), c') \<Rightarrow>
          if owner then (Some (post order), finishCall key a (post order) c')
          else if call_done (cl_calls c' ! a) then (Some (call_result (cl_calls c' ! a)), c') else (None, c'))"

section \<open>Facts about one request\<close>

lemma parseRetryAfter_nonneg: "parseRetryAfter pt h now = (d, True) \<Longrightarrow> 0 \<le> d"
proof -
  have "0 \<le> int64 (n * second)" if "0 \<le> n" "\<not> n > (2 ^ 63 - 1) div second" for n
    using that by (subst int64_id) (auto simp: second_def)
  moreover assume "parseRetryAfter pt h now = (d, True)"
  ultimately show ?thesis
    by (auto simp: parseRetryAfter_def Let_def time_Sub_def split: option.splits if_splits)
qed

text \<open>Every error of a request carries its classification.\<close>

fun classification :: "go_error \<Rightarrow> (bool \<times> int \<times> bool) option" where
  "classification (RequestError e r d h) = Some (r, d, h)"
| "classification (Wrapf f args e) = classification e"
| "classification (Sentinel x) = None"
| "classification (DbError d) = None"
| "classification (Errorf f args) = None"
| "classification (Transport t) = None"

lemma postOrder_classified:
  assumes "postOrder pt um now outcome order = Inl err"
  obtains r d h where "classification err = Some (r, d, h)"
proof -
  have "\<exists>r d h. classification err = Some (r, d, h)"
    using assms
    by (auto simp: postOrder_def parseResponse_def wrapError_def wrapErrorWithRetryAfter_def Let_def
        split: http_outcome.splits if_splits sum.splits prod.splits)
  with that show thesis by blast
qed

section \<open>Concurrent callers\<close>

text \<open>A caller that waited and whose own context ended first returns the error of the context: it is \<open>Abandoned\<close>.\<close>

datatype caller = Idle | Posting string nat | Waiting string nat | Returned "go_error + string" | Abandoned transport_error

record sap_system =
  sy_client :: HTTPClient
  sy_callers :: "nat \<Rightarrow> caller"

definition sap_initial :: "sap_system \<Rightarrow> bool" where
  "sap_initial s \<longleftrightarrow> s = \<lparr>sy_client = NewClient, sy_callers = (\<lambda>_. Idle)\<rparr>"

text \<open>
  One step of one caller of \<open>SyncOrder\<close>: it registers or joins a call or is refused, its own
  request ends with some result, or its wait ends with the shared result or its context.
\<close>

inductive sap_step :: "(OrderDetails \<Rightarrow> go_error + string) \<Rightarrow> sap_system \<Rightarrow> sap_system \<Rightarrow> bool"
  for marshal :: "OrderDetails \<Rightarrow> go_error + string" where
  refused: "sy_callers s t = Idle \<Longrightarrow> beginSyncOrder marshal key order (sy_client s) = (Inl err, c) \<Longrightarrow>
     sap_step marshal s (s\<lparr>sy_client := c, sy_callers := (sy_callers s)(t := Returned (Inl err))\<rparr>)"
| owns: "sy_callers s t = Idle \<Longrightarrow> beginSyncOrder marshal key order (sy_client s) = (Inr (a, True), c) \<Longrightarrow>
     sap_step marshal s (s\<lparr>sy_client := c, sy_callers := (sy_callers s)(t := Posting key a)\<rparr>)"
| joins: "sy_callers s t = Idle \<Longrightarrow> beginSyncOrder marshal key order (sy_client s) = (Inr (a, False), c) \<Longrightarrow>
     sap_step marshal s (s\<lparr>sy_client := c, sy_callers := (sy_callers s)(t := Waiting key a)\<rparr>)"
| posted: "sy_callers s t = Posting key a \<Longrightarrow>
     sap_step marshal s (s\<lparr>sy_client := finishCall key a result (sy_client s),
       sy_callers := (sy_callers s)(t := Returned result)\<rparr>)"
| shared: "sy_callers s t = Waiting key a \<Longrightarrow> call_done (cl_calls (sy_client s) ! a) \<Longrightarrow>
     sap_step marshal s (s\<lparr>sy_callers := (sy_callers s)(t := Returned (call_result (cl_calls (sy_client s) ! a)))\<rparr>)"
| abandoned: "sy_callers s t = Waiting key a \<Longrightarrow>
     sap_step marshal s (s\<lparr>sy_callers := (sy_callers s)(t := Abandoned ctx_err)\<rparr>)"

definition sap_inv :: "sap_system \<Rightarrow> bool" where
  "sap_inv s \<longleftrightarrow>
     (\<forall>key a. cl_inflight (sy_client s) key = Some a \<longrightarrow>
        a < length (cl_calls (sy_client s)) \<and> \<not> call_done (cl_calls (sy_client s) ! a) \<and>
        (\<exists>t. sy_callers s t = Posting key a)) \<and>
     (\<forall>t key a. sy_callers s t = Posting key a \<longrightarrow> cl_inflight (sy_client s) key = Some a) \<and>
     (\<forall>t u key a a'. sy_callers s t = Posting key a \<longrightarrow> sy_callers s u = Posting key a' \<longrightarrow> t = u) \<and>
     (\<forall>key key' a. cl_inflight (sy_client s) key = Some a \<longrightarrow> cl_inflight (sy_client s) key' = Some a \<longrightarrow> key = key') \<and>
     (\<forall>t key a. sy_callers s t = Waiting key a \<longrightarrow>
        a < length (cl_calls (sy_client s)) \<and>
        (call_done (cl_calls (sy_client s) ! a) \<or> cl_inflight (sy_client s) key = Some a))"

lemma sap_invD:
  assumes "sap_inv s"
  shows "sy_callers s t = Posting key a \<Longrightarrow> cl_inflight (sy_client s) key = Some a"
    and "cl_inflight (sy_client s) key = Some a \<Longrightarrow>
      a < length (cl_calls (sy_client s)) \<and> \<not> call_done (cl_calls (sy_client s) ! a) \<and> (\<exists>t. sy_callers s t = Posting key a)"
    and "sy_callers s t = Posting key a \<Longrightarrow> sy_callers s u = Posting key a' \<Longrightarrow> t = u"
    and "cl_inflight (sy_client s) key = Some a \<Longrightarrow> cl_inflight (sy_client s) key' = Some a \<Longrightarrow> key = key'"
    and "sy_callers s t = Waiting key a \<Longrightarrow> a < length (cl_calls (sy_client s)) \<and>
      (call_done (cl_calls (sy_client s) ! a) \<or> cl_inflight (sy_client s) key = Some a)"
  using assms unfolding sap_inv_def by blast+

lemma sap_invI:
  assumes "\<And>key a. cl_inflight (sy_client s) key = Some a \<Longrightarrow>
      a < length (cl_calls (sy_client s)) \<and> \<not> call_done (cl_calls (sy_client s) ! a) \<and> (\<exists>t. sy_callers s t = Posting key a)"
    and "\<And>t key a. sy_callers s t = Posting key a \<Longrightarrow> cl_inflight (sy_client s) key = Some a"
    and "\<And>t u key a a'. sy_callers s t = Posting key a \<Longrightarrow> sy_callers s u = Posting key a' \<Longrightarrow> t = u"
    and "\<And>key key' a. cl_inflight (sy_client s) key = Some a \<Longrightarrow> cl_inflight (sy_client s) key' = Some a \<Longrightarrow> key = key'"
    and "\<And>t key a. sy_callers s t = Waiting key a \<Longrightarrow> a < length (cl_calls (sy_client s)) \<and>
      (call_done (cl_calls (sy_client s) ! a) \<or> cl_inflight (sy_client s) key = Some a)"
  shows "sap_inv s"
  using assms unfolding sap_inv_def by blast

lemma startCall_cases:
  assumes "beginSyncOrder marshal key order c = (Inr (a, owner), c')"
  obtains (join) "\<not> owner" "c' = c" "cl_inflight c key = Some a"
    | (own) "owner" "cl_inflight c key = None" "a = length (cl_calls c)"
      "\<exists>body. c' = c\<lparr>cl_calls := cl_calls c @ [\<lparr>call_done = False, call_body = body, call_result = Inr []\<rparr>],
             cl_inflight := (cl_inflight c)(key \<mapsto> length (cl_calls c))\<rparr>"
  using assms
  by (auto simp: beginSyncOrder_def startCall_def split: if_splits sum.splits option.splits)

lemma begin_refused: "beginSyncOrder marshal key order c = (Inl err, c') \<Longrightarrow> c' = c"
  by (auto simp: beginSyncOrder_def startCall_def split: if_splits sum.splits option.splits)

text \<open>A finished call never changes again.\<close>

lemma done_call_stable:
  assumes "sap_step marshal s s'" and "sap_inv s" and "a < length (cl_calls (sy_client s))"
    and "call_done (cl_calls (sy_client s) ! a)"
  shows "a < length (cl_calls (sy_client s')) \<and> cl_calls (sy_client s') ! a = cl_calls (sy_client s) ! a"
  using assms
proof (cases rule: sap_step.cases)
  case (owns t key order b c)
  from owns(3) show ?thesis
    by (cases rule: startCall_cases) (use assms(3) owns(1) in \<open>auto simp: nth_append\<close>)
next
  case (joins t key order b c)
  from joins(3) show ?thesis
    by (cases rule: startCall_cases) (use assms(3) joins(1) in auto)
next
  case (posted t key b result)
  then have "\<not> call_done (cl_calls (sy_client s) ! b)"
    using sap_invD(1,2) [OF assms(2)] by blast
  with assms(4) have "b \<noteq> a" by blast
  with posted(1) assms(3) show ?thesis by (simp add: finishCall_def)
qed (auto dest!: begin_refused)

text \<open>A caller that is not posting may return, or start to wait for a registered call.\<close>

lemma sap_inv_caller:
  assumes inv: "sap_inv s" and "\<forall>key a. sy_callers s t \<noteq> Posting key a"
    and "(\<exists>r. c = Returned r) \<or> (\<exists>err. c = Abandoned err) \<or> (\<exists>key a. c = Waiting key a \<and> cl_inflight (sy_client s) key = Some a)"
  shows "sap_inv (s\<lparr>sy_callers := (sy_callers s)(t := c)\<rparr>)"
proof (rule sap_invI)
  fix key a assume "cl_inflight (sy_client (s\<lparr>sy_callers := (sy_callers s)(t := c)\<rparr>)) key = Some a"
  with sap_invD(2) [OF inv] obtain u where "a < length (cl_calls (sy_client s)) \<and> \<not> call_done (cl_calls (sy_client s) ! a)"
    "sy_callers s u = Posting key a" by fastforce
  with assms(2) show "a < length (cl_calls (sy_client (s\<lparr>sy_callers := (sy_callers s)(t := c)\<rparr>))) \<and>
      \<not> call_done (cl_calls (sy_client (s\<lparr>sy_callers := (sy_callers s)(t := c)\<rparr>)) ! a) \<and>
      (\<exists>t'. sy_callers (s\<lparr>sy_callers := (sy_callers s)(t := c)\<rparr>) t' = Posting key a)"
    by (auto intro!: exI [of _ u])
next
  fix u key a assume "sy_callers (s\<lparr>sy_callers := (sy_callers s)(t := c)\<rparr>) u = Waiting key a"
  with assms(3) sap_invD(2,5) [OF inv] show "a < length (cl_calls (sy_client (s\<lparr>sy_callers := (sy_callers s)(t := c)\<rparr>))) \<and>
      (call_done (cl_calls (sy_client (s\<lparr>sy_callers := (sy_callers s)(t := c)\<rparr>)) ! a) \<or>
       cl_inflight (sy_client (s\<lparr>sy_callers := (sy_callers s)(t := c)\<rparr>)) key = Some a)"
    by (auto split: if_splits)
qed (use assms(3) sap_invD(1,3,4) [OF inv] in \<open>auto split: if_splits\<close>)

lemma sap_step_inv:
  assumes "sap_step marshal s s'" and inv: "sap_inv s"
  shows "sap_inv s'"
  using assms(1)
proof (cases rule: sap_step.cases)
  case (refused t key order err c)
  with sap_inv_caller [OF inv, of t "Returned (Inl err)"] show ?thesis by (auto dest!: begin_refused)
next
  case (joins t key order a c)
  from joins(3) show ?thesis
    by (cases rule: startCall_cases) (use joins(1,2) sap_inv_caller [OF inv, of t "Waiting key a"] in auto)
next
  case (shared t key a)
  with sap_inv_caller [OF inv, of t "Returned (call_result (cl_calls (sy_client s) ! a))"] show ?thesis by auto
next
  case (abandoned t key a ctx_err)
  with sap_inv_caller [OF inv, of t "Abandoned ctx_err"] show ?thesis by auto
next
  case (owns t key order a c)
  from owns(3) obtain body where new: "cl_inflight (sy_client s) key = None" "a = length (cl_calls (sy_client s))"
    and c: "c = (sy_client s)\<lparr>cl_calls := cl_calls (sy_client s) @ [\<lparr>call_done = False, call_body = body, call_result = Inr []\<rparr>],
             cl_inflight := (cl_inflight (sy_client s))(key \<mapsto> length (cl_calls (sy_client s)))\<rparr>"
    by (cases rule: startCall_cases) auto
  have free: "sy_callers s u \<noteq> Posting key b" for u b
    using sap_invD(1) [OF inv, of u key b] new(1) by auto
  show ?thesis
  proof (rule sap_invI)
    fix key' a' assume "cl_inflight (sy_client s') key' = Some a'"
    with sap_invD(2) [OF inv, of key' a'] show "a' < length (cl_calls (sy_client s')) \<and>
        \<not> call_done (cl_calls (sy_client s') ! a') \<and> (\<exists>u. sy_callers s' u = Posting key' a')"
      using new c owns(1,2) by (auto simp: nth_append split: if_splits) (metis caller.distinct(1))
  next
    fix key1 key2 b assume "cl_inflight (sy_client s') key1 = Some b" "cl_inflight (sy_client s') key2 = Some b"
    with sap_invD(2,4) [OF inv] show "key1 = key2"
      using new c owns(1) by (fastforce split: if_splits)
  next
    fix u key' b assume "sy_callers s' u = Waiting key' b"
    then have "sy_callers s u = Waiting key' b" using owns(1) by (auto split: if_splits)
    with sap_invD(5) [OF inv, of u key' b] new show "b < length (cl_calls (sy_client s')) \<and>
        (call_done (cl_calls (sy_client s') ! b) \<or> cl_inflight (sy_client s') key' = Some b)"
      using c owns(1) by (auto simp: nth_append)
  qed (use free sap_invD(1,3) [OF inv] new c owns(1) in \<open>auto split: if_splits\<close>)
next
  case (posted t key a result)
  have a: "cl_inflight (sy_client s) key = Some a" using sap_invD(1) [OF inv posted(2)] .
  then have len: "a < length (cl_calls (sy_client s))" using sap_invD(2) [OF inv] by blast
  have others: "cl_inflight (sy_client s) key' \<noteq> Some a" if "key' \<noteq> key" for key'
    using sap_invD(4) [OF inv a] that by blast
  show ?thesis
  proof (rule sap_invI)
    fix key' a' assume "cl_inflight (sy_client s') key' = Some a'"
    then have k: "key' \<noteq> key" "cl_inflight (sy_client s) key' = Some a'"
      using posted(1) by (auto simp: finishCall_def split: if_splits)
    with sap_invD(2) [OF inv k(2)] others [OF k(1)] posted(2) show "a' < length (cl_calls (sy_client s')) \<and>
        \<not> call_done (cl_calls (sy_client s') ! a') \<and> (\<exists>u. sy_callers s' u = Posting key' a')"
      using posted(1) by (auto simp: finishCall_def) (metis caller.inject(1))
  next
    fix u key' b assume u: "sy_callers s' u = Posting key' b"
    then have u': "sy_callers s u = Posting key' b" "u \<noteq> t" using posted(1) by (auto split: if_splits)
    then have "key' \<noteq> key" using sap_invD(3) [OF inv] posted(2) by blast
    with sap_invD(1) [OF inv u'(1)] show "cl_inflight (sy_client s') key' = Some b"
      using posted(1) by (simp add: finishCall_def)
  next
    fix u key' b assume "sy_callers s' u = Waiting key' b"
    then have "sy_callers s u = Waiting key' b" using posted(1) by (auto split: if_splits)
    with sap_invD(5) [OF inv, of u key' b] a len show "b < length (cl_calls (sy_client s')) \<and>
        (call_done (cl_calls (sy_client s') ! b) \<or> cl_inflight (sy_client s') key' = Some b)"
      using posted(1) by (cases "b = a") (auto simp: finishCall_def)
  qed (use sap_invD(3,4) [OF inv] posted(1) in \<open>auto simp: finishCall_def split: if_splits\<close>)
qed

interpretation sap: invariant_system sap_initial "sap_step marshal" sap_inv
  for marshal
proof unfold_locales
  show "sap_inv s" if "sap_initial s" for s
    using that by (auto simp: sap_initial_def sap_inv_def NewClient_def)
qed (rule sap_step_inv)

section \<open>What the callers of one call return\<close>

text \<open>
  A caller of call \<open>a\<close> that is past it has returned the published result. Only a caller that
  waits (\<open>waits\<close>) can return without it, when its context ends.
\<close>

definition shares :: "bool \<Rightarrow> nat \<Rightarrow> sap_system \<Rightarrow> nat \<Rightarrow> bool" where
  "shares waits a s t \<longleftrightarrow>
     (\<exists>key. sy_callers s t = Posting key a) \<or>
     (\<exists>key. waits \<and> sy_callers s t = Waiting key a) \<or> (\<exists>err. waits \<and> sy_callers s t = Abandoned err) \<or>
     a < length (cl_calls (sy_client s)) \<and> call_done (cl_calls (sy_client s) ! a) \<and>
       sy_callers s t = Returned (call_result (cl_calls (sy_client s) ! a))"

lemma shares_step:
  assumes step: "sap_step marshal s s'" and inv: "sap_inv s" and "shares waits a s t"
  shows "shares waits a s' t"
  using assms(3) [unfolded shares_def]
proof (elim disjE exE conjE)
  fix key assume p: "sy_callers s t = Posting key a"
  then have a: "a < length (cl_calls (sy_client s))" using sap_invD(1,2) [OF inv] by blast
  from step show ?thesis unfolding shares_def by cases (use p a in \<open>auto simp: finishCall_def\<close>)
next
  fix key assume waits and p: "sy_callers s t = Waiting key a"
  then have a: "a < length (cl_calls (sy_client s))" using sap_invD(5) [OF inv] by blast
  from step show ?thesis unfolding shares_def by cases (use p a \<open>waits\<close> in \<open>auto simp: finishCall_def\<close>)
next
  fix err assume waits and p: "sy_callers s t = Abandoned err"
  from step show ?thesis unfolding shares_def by cases (use p \<open>waits\<close> in auto)
next
  assume fin: "a < length (cl_calls (sy_client s))" "call_done (cl_calls (sy_client s) ! a)"
    "sy_callers s t = Returned (call_result (cl_calls (sy_client s) ! a))"
  have "sy_callers s' t = sy_callers s t" using step by cases (use fin(3) in auto)
  with done_call_stable [OF step inv fin(1,2)] fin show ?thesis by (simp add: shares_def)
qed

lemma shares_run:
  assumes "(sap_step marshal)\<^sup>*\<^sup>* s s'" and "sap_inv s" and "shares waits a s t"
  shows "shares waits a s' t \<and> sap_inv s'"
  using assms(1)
proof (induction rule: rtranclp_induct)
  case (step u v)
  then show ?case using shares_step [OF step.hyps(2)] sap_step_inv [OF step.hyps(2)] by blast
qed (use assms(2,3) in simp)

end
