(* ===== verification/Logging.thy ===== *)
theory Logging
  imports Config
begin

text \<open>
  Structured logging: \<open>internal/shared/logger.go\<close> and the helpers \<open>logInfo\<close>, \<open>logError\<close> of
  \<open>internal/app/router.go\<close> and \<open>internal/sync/worker.go\<close>. A log record is what the program hands
  to \<open>log/slog\<close>; a log line is the list of fields the JSON handler writes for it. The
  texts of errors and times inside a line are the argument \<open>text\<close>.
\<close>

section \<open>Records\<close>

datatype log_level = LevelInfo | LevelError

datatype log_value =
    LogLevel log_level
  | LogTime int
  | LogString string
  | LogInt int
  | LogBool bool
  | LogErr go_error

type_synonym log_attr = "string \<times> log_value"

record log_record =
  lr_level :: log_level
  lr_message :: string
  lr_attrs :: "log_attr list"

text \<open>\<open>code + " " + message\<close> with the attributes of the caller after \<open>log_code\<close>.\<close>

definition coded_record :: "log_level \<Rightarrow> string \<Rightarrow> string \<Rightarrow> log_attr list \<Rightarrow> log_record" where
  "coded_record level code message args =
     \<lparr>lr_level = level, lr_message = code @ '' '' @ message, lr_attrs = (''log_code'', LogString code) # args\<rparr>"

text \<open>The worker's helpers; \<open>logger\<close> says whether there is one (\<open>w.logger != nil\<close>).\<close>

definition worker_logInfo :: "bool \<Rightarrow> string \<Rightarrow> string \<Rightarrow> log_attr list \<Rightarrow> log_record list" where
  "worker_logInfo logger code message args = (if logger then [coded_record LevelInfo code message args] else [])"

definition worker_logError :: "bool \<Rightarrow> string \<Rightarrow> string \<Rightarrow> log_attr list \<Rightarrow> log_record list" where
  "worker_logError logger code message args = (if logger then [coded_record LevelError code message args] else [])"

text \<open>The boundary's helpers; the context carries the request id if the middleware has run.\<close>

definition logInfo :: "bool \<Rightarrow> string \<Rightarrow> string \<Rightarrow> log_attr list \<Rightarrow> log_record list" where
  "logInfo logger code message args = (if logger then [coded_record LevelInfo code message args] else [])"

definition logError :: "bool \<Rightarrow> string option \<Rightarrow> string \<Rightarrow> string \<Rightarrow> go_error \<Rightarrow> log_record list" where
  "logError logger ctx code message err =
     (if logger then
        let attributes = [(''error'', LogErr err)];
            attributes = (case ctx of Some requestID \<Rightarrow> attributes @ [(''request_id'', LogString requestID)] | None \<Rightarrow> attributes)
        in [coded_record LevelError code message attributes]
      else [])"

text \<open>\<open>Duration.Milliseconds\<close> truncates toward zero.\<close>

definition Milliseconds :: "int \<Rightarrow> int" where
  "Milliseconds d = (if 0 \<le> d then d div 1000000 else - (- d div 1000000))"

section \<open>Lines\<close>

definition lower_char :: "char \<Rightarrow> char" where
  "lower_char c = (let n = (of_char c :: nat) in if 65 \<le> n \<and> n \<le> 90 then char_of (n + 32) else c)"

text \<open>\<open>Value.String\<close>.\<close>

definition value_string :: "(log_value \<Rightarrow> string) \<Rightarrow> log_value \<Rightarrow> string" where
  "value_string text v =
     (case v of
        LogLevel LevelInfo \<Rightarrow> ''INFO''
      | LogLevel LevelError \<Rightarrow> ''ERROR''
      | LogString s \<Rightarrow> s
      | LogInt i \<Rightarrow> Itoa i
      | LogBool b \<Rightarrow> if b then ''true'' else ''false''
      | _ \<Rightarrow> text v)"

text \<open>The hook \<open>ReplaceAttr\<close>: the built-in keys are renamed and the level is written in lower case.\<close>

definition ReplaceAttr :: "(log_value \<Rightarrow> string) \<Rightarrow> string list \<Rightarrow> log_attr \<Rightarrow> log_attr" where
  "ReplaceAttr text groups attr =
     (if groups \<noteq> [] then attr
      else if fst attr = ''time'' then (''timestamp'', snd attr)
      else if fst attr = ''level'' then (fst attr, LogString (map lower_char (value_string text (snd attr))))
      else if fst attr = ''msg'' then (''message'', snd attr)
      else attr)"

text \<open>The JSON handler passes its three built-in fields and then the attributes through the hook.\<close>

definition NewLogger :: "(log_value \<Rightarrow> string) \<Rightarrow> int \<Rightarrow> log_record \<Rightarrow> log_attr list" where
  "NewLogger text now r =
     map (ReplaceAttr text [])
       ([(''time'', LogTime now), (''level'', LogLevel (lr_level r)), (''msg'', LogString (lr_message r))] @ lr_attrs r)"

definition level_word :: "log_level \<Rightarrow> string" where
  "level_word level = (case level of LevelInfo \<Rightarrow> ''info'' | LevelError \<Rightarrow> ''error'')"

lemma lower_level: "map lower_char (value_string text (LogLevel level)) = level_word level"
proof -
  have "map lower_char ''INFO'' = ''info''" "map lower_char ''ERROR'' = ''error''" by (code_simp, code_simp)
  then show ?thesis by (cases level) (simp_all only: value_string_def level_word_def log_level.case log_value.case)
qed

text \<open>Every line begins with the same four fields, and the message repeats the code.\<close>

lemma log_line_head:
  "\<exists>rest. NewLogger text now (coded_record level code message args) =
     [(''timestamp'', LogTime now), (''level'', LogString (level_word level)), (''message'', LogString (code @ '' '' @ message)),
      (''log_code'', LogString code)] @ rest"
  by (simp add: NewLogger_def ReplaceAttr_def coded_record_def lower_level)

lemmas log_defs = worker_logInfo_def worker_logError_def logInfo_def logError_def

end
