(* ===== verification/Worker.thy ===== *)
theory Worker
  imports SapClient Logging
begin

text \<open>
  \<open>internal/sync/worker.go\<close>: the SAP synchronization worker. What the process asks of its
  surroundings during one delivery is the record \<open>world\<close>: \<open>time.Now()\<close>, \<open>rand.Int63n\<close>, the
  answer of the SAP port, the texts \<open>err.Error()\<close> and \<open>Duration.String()\<close> that go into
  \<open>last_error\<close>, whether there is a logger, the clock when the request to SAP begins and how
  long it takes. A delivery returns the list of its observable effects (log records,
  requests to SAP) and the session it leaves behind; its statements run outside a
  transaction, in the session environment \<open>w_session\<close>.
\<close>

section \<open>Configuration with defaults\<close>

definition maxAttempts :: "Config \<Rightarrow> int" where
  "maxAttempts cfg = (if SAPMaxAttempts cfg \<le> 0 then DefaultSAPMaxAttempts else SAPMaxAttempts cfg)"

definition maxTotalAttempts :: "Config \<Rightarrow> int" where
  "maxTotalAttempts cfg = (if SAPMaxTotalAttempts cfg \<le> 0 then DefaultSAPMaxTotalAttempts else SAPMaxTotalAttempts cfg)"

definition listenerReconnectMinDelay :: int where
  "listenerReconnectMinDelay = 250 * millisecond"

definition listenerReconnectMaxDelay :: "Config \<Rightarrow> int" where
  "listenerReconnectMaxDelay cfg =
     (let maxMS = SAPListenerReconnectMaxMS cfg;
          maxMS = (if maxMS \<le> 0 then DefaultSAPListenerReconnectMaxMS else maxMS)
      in int64 (maxMS * millisecond))"

definition recoveryWindow :: "Config \<Rightarrow> int" where
  "recoveryWindow cfg =
     (let seconds = SAPRecoveryWindowSeconds cfg;
          seconds = (if seconds \<le> 0 then DefaultSAPRecoveryWindowSeconds else seconds)
      in int64 (seconds * second))"

definition recoveryWindowExpired :: "Config \<Rightarrow> Job \<Rightarrow> time \<Rightarrow> bool" where
  "recoveryWindowExpired cfg job now =
     (case job_WaitingSince job of None \<Rightarrow> False | Some since \<Rightarrow> \<not> now < since + recoveryWindow cfg)"

section \<open>Retry delays\<close>

text \<open>The loop of \<open>RetryDelayMS\<close> from \<open>i\<close> with the current delay.\<close>

function retry_loop :: "int \<Rightarrow> int \<Rightarrow> int \<Rightarrow> int" where
  "retry_loop attempt i delay =
     (if i < attempt then
        if delay \<ge> 60000 then 60000 else retry_loop attempt (i + 1) (delay * 2)
      else if delay > 60000 then 60000 else delay)"
  by pat_completeness auto
termination
  by (relation "measure (\<lambda>(attempt, i, delay). nat (attempt - i))") auto

declare retry_loop.simps [simp del]

definition RetryDelayMS :: "int \<Rightarrow> int" where
  "RetryDelayMS attempt = retry_loop attempt 1 1000"

definition jitteredDelay :: "(int \<Rightarrow> int) \<Rightarrow> int \<Rightarrow> int" where
  "jitteredDelay int63n baseDelay = (if baseDelay \<le> 0 then 0 else int63n (baseDelay + 1))"

definition maxRetryDelay :: int where
  "maxRetryDelay = 60 * second"

definition retryDelay :: "(int \<Rightarrow> int) \<Rightarrow> go_error \<Rightarrow> int \<Rightarrow> int" where
  "retryDelay int63n err attempt =
     (let baseDelay = int64 (RetryDelayMS attempt * millisecond);
          delay = jitteredDelay int63n baseDelay;
          delay = (case classification err of
             Some (r, headerDelay, ok) \<Rightarrow> if ok \<and> headerDelay \<ge> 0 then headerDelay else delay
           | None \<Rightarrow> delay)
      in if delay > maxRetryDelay then maxRetryDelay else delay)"

definition isRetryable :: "go_error \<Rightarrow> bool" where
  "isRetryable err = (case classification err of Some (retryable, _) \<Rightarrow> retryable | None \<Rightarrow> True)"

section \<open>Delivery\<close>

datatype action = Logged log_record | CallSAP string OrderDetails

record world =
  w_now :: time
  w_int63n :: "int \<Rightarrow> int"
  w_sap :: "string \<Rightarrow> OrderDetails \<Rightarrow> go_error + string"
  w_error_text :: "go_error \<Rightarrow> string"
  w_duration_text :: "int \<Rightarrow> string"
  w_session :: env
  w_logger :: bool
  w_dispatched :: time
  w_elapsed :: int

type_synonym delivery = "env \<Rightarrow> sess \<Rightarrow> action list \<times> sess"

definition errorMessage :: "world \<Rightarrow> go_error option \<Rightarrow> string" where
  "errorMessage w err = (case err of None \<Rightarrow> [] | Some x \<Rightarrow> w_error_text w x)"

abbreviation logs_info :: "world \<Rightarrow> string \<Rightarrow> string \<Rightarrow> log_attr list \<Rightarrow> action list" where
  "logs_info w code message args \<equiv> map Logged (worker_logInfo (w_logger w) code message args)"

abbreviation logs_error :: "world \<Rightarrow> string \<Rightarrow> string \<Rightarrow> log_attr list \<Rightarrow> action list" where
  "logs_error w code message args \<equiv> map Logged (worker_logError (w_logger w) code message args)"

definition failureState :: "Config \<Rightarrow> (int \<Rightarrow> int) \<Rightarrow> Job \<Rightarrow> time \<Rightarrow> bool \<Rightarrow> go_error \<Rightarrow> SyncStatus \<times> time" where
  "failureState cfg int63n job now retryable err =
     (if \<not> retryable then (SyncStatusDead, now)
      else if job_Attempts job \<ge> maxTotalAttempts cfg then (SyncStatusDead, now)
      else
        (if job_Attempts job \<ge> maxAttempts cfg then SyncStatusWaiting else SyncStatusPending,
         now + retryDelay int63n err (job_Attempts job)))"

definition order_attr :: "Job \<Rightarrow> log_attr" where
  "order_attr job = (''orderId'', LogString (od_OrderID (job_Details job)))"

definition attempt_attr :: "Job \<Rightarrow> log_attr" where
  "attempt_attr job = (''attempt'', LogInt (job_Attempts job))"

text \<open>\<open>if err := w.jobs.MarkFailed(...); err != nil \<open>{ logError(code) }\<close>\<close>\<close>

definition mark_failed_logged :: "world \<Rightarrow> string \<Rightarrow> Job \<Rightarrow> SyncStatus \<Rightarrow> time \<Rightarrow> string \<Rightarrow> delivery" where
  "mark_failed_logged w code job status dueAt message e s =
     (case MarkFailed (job_ID job) status dueAt message e s of
        (Inl err, s') \<Rightarrow>
          (logs_error w code ''SAP job update failed'' [order_attr job, (''error'', LogString (errorMessage w (Some err)))], s')
      | (Inr _, s') \<Rightarrow> ([], s'))"

definition logTerminalJob :: "world \<Rightarrow> Job \<Rightarrow> action list" where
  "logTerminalJob w job =
     logs_error w ''0012'' ''SAP synchronization skipped for terminal job''
       [order_attr job, attempt_attr job, (''status'', LogString SyncStatusDead)]"

definition expireRecoveryWindow :: "world \<Rightarrow> Config \<Rightarrow> Job \<Rightarrow> time \<Rightarrow> delivery" where
  "expireRecoveryWindow w cfg job now e s =
     (let message = ''SAP recovery window expired after '' @ w_duration_text w (recoveryWindow cfg) in
      case mark_failed_logged w ''0013'' job SyncStatusDead now message e s of
        (acts, s') \<Rightarrow>
          (acts @ logs_error w ''0014'' ''SAP synchronization marked DEAD''
             [order_attr job, attempt_attr job, (''status'', LogString SyncStatusDead),
              (''reason'', LogString ''recovery_window_expired''), (''error'', LogString message)], s'))"

definition exceedMaxAttempts :: "world \<Rightarrow> Config \<Rightarrow> Job \<Rightarrow> time \<Rightarrow> delivery" where
  "exceedMaxAttempts w cfg job now e s =
     (let message = ''SAP maximum attempts exceeded ('' @ Itoa (maxTotalAttempts cfg) @ '')'' in
      case mark_failed_logged w ''0021'' job SyncStatusDead now message e s of
        (acts, s') \<Rightarrow>
          (acts @ logs_error w ''0022'' ''SAP synchronization marked DEAD''
             [order_attr job, attempt_attr job, (''status'', LogString SyncStatusDead),
              (''reason'', LogString ''max_attempts_exceeded'')], s'))"

text \<open>How late the dispatch is, by the clock when the record is written.\<close>

definition logDispatch :: "world \<Rightarrow> Job \<Rightarrow> action list" where
  "logDispatch w job =
     (case job_DueAt job of
        None \<Rightarrow> []
      | Some dueAt \<Rightarrow>
          logs_info w ''0020'' ''SAP synchronization dispatching''
            [order_attr job, attempt_attr job, (''schedule_lag_ms'', LogInt (Milliseconds (w_dispatched w - dueAt)))])"

definition handleDeliveryFailure :: "world \<Rightarrow> Config \<Rightarrow> Job \<Rightarrow> time \<Rightarrow> int \<Rightarrow> go_error \<Rightarrow> delivery" where
  "handleDeliveryFailure w cfg job now duration err e s =
     (let retryable = isRetryable err in
      case failureState cfg (w_int63n w) job now retryable err of
        (status, dueAt) \<Rightarrow>
          (let message = errorMessage w (Some err) in
           case mark_failed_logged w ''0015'' job status dueAt message e s of
            (acts, s') \<Rightarrow>
              (acts @ logs_error w ''0016'' ''SAP synchronization failed''
                 [order_attr job, attempt_attr job, (''status'', LogString status),
                  (''waiting'', LogBool (status = SyncStatusWaiting)), (''dead'', LogBool (status = SyncStatusDead)),
                  (''dispatch_duration_ms'', LogInt (Milliseconds duration)), (''dispatch_result'', LogString ''failure''),
                  (''error'', LogString message)], s')))"

definition persistDeliverySuccess :: "world \<Rightarrow> Config \<Rightarrow> Job \<Rightarrow> time \<Rightarrow> int \<Rightarrow> string \<Rightarrow> delivery" where
  "persistDeliverySuccess w cfg job now duration sapID e s =
     (case MarkSynced (job_ID job) sapID e s of
        (Inl err, s') \<Rightarrow>
          let status = (if job_Attempts job \<ge> maxTotalAttempts cfg then SyncStatusDead else SyncStatusPending);
              message = errorMessage w (Some err);
              dueAt = now + retryDelay (w_int63n w) err (job_Attempts job) in
          (case mark_failed_logged w ''0017'' job status dueAt message e s' of
            (acts, s'') \<Rightarrow>
              (acts @ logs_error w ''0018'' ''SAP synchronization persistence failed''
                 [order_attr job, attempt_attr job, (''status'', LogString status),
                  (''dead'', LogBool (status = SyncStatusDead)), (''error'', LogString message)], s''))
      | (Inr _, s') \<Rightarrow>
          (logs_info w ''0019'' ''Order synchronized with SAP''
             [order_attr job, (''sapInternalId'', LogString sapID), (''dispatch_duration_ms'', LogInt (Milliseconds duration)),
              (''dispatch_result'', LogString ''success'')], s'))"

definition deliver :: "world \<Rightarrow> Config \<Rightarrow> Job \<Rightarrow> delivery" where
  "deliver w cfg job e s =
     (let now = w_now w; order = job_Details job in
      if job_Status job = SyncStatusDead then (logTerminalJob w job, s)
      else if recoveryWindowExpired cfg job now then expireRecoveryWindow w cfg job now e s
      else if job_Attempts job > maxTotalAttempts cfg then exceedMaxAttempts w cfg job now e s
      else
        let dispatch = logDispatch w job @ [CallSAP (od_OrderID order) order] in
        case w_sap w (od_OrderID order) order of
          Inl err \<Rightarrow>
            (case handleDeliveryFailure w cfg job now (w_elapsed w) err e s of (acts, s') \<Rightarrow> (dispatch @ acts, s'))
        | Inr sapID \<Rightarrow>
            (case persistDeliverySuccess w cfg job now (w_elapsed w) sapID e s of (acts, s') \<Rightarrow> (dispatch @ acts, s')))"

text \<open>
  The loop of \<open>drainDue\<close>. Time passes and SAP answers anew in each round, so round \<open>n\<close> has
  its own world and session environment. A loop that would not end is \<open>None\<close>.
\<close>

partial_function (option) drain ::
  "(nat \<Rightarrow> world) \<Rightarrow> (nat \<Rightarrow> env) \<Rightarrow> Config \<Rightarrow> nat \<Rightarrow> sess \<Rightarrow> (action list \<times> sess) option" where
  "drain ws es cfg n s =
     (case ClaimDue (es n) s of
        (Inl err, s') \<Rightarrow>
          Some (logs_error (ws n) ''0011'' ''SAP worker claim failed'' [(''error'', LogString (errorMessage (ws n) (Some err)))], s')
      | (Inr None, s') \<Rightarrow> Some ([], s')
      | (Inr (Some job), s') \<Rightarrow>
          (case deliver (ws n) cfg job (w_session (ws n)) s' of (acts, s'') \<Rightarrow>
            Option.bind (drain ws es cfg (Suc n) s'') (\<lambda>(rest, s3). Some (acts @ rest, s3))))"

text \<open>\<open>running\<close> is the flag of \<open>CompareAndSwap\<close>; it is released when the loop returns.\<close>

definition drainDue ::
  "(nat \<Rightarrow> world) \<Rightarrow> (nat \<Rightarrow> env) \<Rightarrow> Config \<Rightarrow> bool \<times> sess \<Rightarrow> (action list \<times> bool \<times> sess) option" where
  "drainDue ws es cfg = (\<lambda>(running, s).
     if running then Some ([], running, s)
     else map_option (\<lambda>(acts, s'). (acts, False, s')) (drain ws es cfg 0 s))"

section \<open>The worker's loop\<close>

text \<open>
  \<open>Start\<close> launches the loop once; \<open>Stop\<close> cancels it and waits (\<open>stop_ctx\<close> is the error of
  the caller's context, if that ends first).
\<close>

record worker_state =
  wk_started :: bool
  wk_cancelled :: bool
  wk_loops :: nat

definition NewWorker :: worker_state where
  "NewWorker = \<lparr>wk_started = False, wk_cancelled = False, wk_loops = 0\<rparr>"

definition Start :: "worker_state \<Rightarrow> worker_state" where
  "Start w = (if wk_started w then w else w\<lparr>wk_started := True, wk_loops := wk_loops w + 1\<rparr>)"

definition Stop :: "go_error option \<Rightarrow> worker_state \<Rightarrow> go_error option \<times> worker_state" where
  "Stop stop_ctx w = (if \<not> wk_started w then (None, w) else (stop_ctx, w\<lparr>wk_cancelled := True\<rparr>))"

text \<open>\<open>armTimer\<close> at \<open>now\<close>: no timer for the zero time, otherwise it fires at once or at \<open>wakeAt\<close>.\<close>

definition armTimer :: "time \<Rightarrow> time option \<Rightarrow> time option" where
  "armTimer now wakeAt = (case wakeAt of None \<Rightarrow> None | Some t \<Rightarrow> Some (now + max (t - now) 0))"

record loop_state =
  lp_listening :: bool
  lp_reconnectDelay :: int
  lp_timer :: "time option"
  lp_log :: "log_record list"

datatype loop_event = CtxDone | Wakeup bool | ListenerError "go_error option" | TimerFired "go_error option"

text \<open>What the loop logs about an error, with the text of the error.\<close>

definition loop_logs :: "world \<Rightarrow> string \<Rightarrow> string \<Rightarrow> go_error \<Rightarrow> loop_state \<Rightarrow> loop_state" where
  "loop_logs w code message err l =
     l\<lparr>lp_log := lp_log l @ worker_logError (w_logger w) code message [(''error'', LogString (errorMessage w (Some err)))]\<rparr>"

text \<open>The head of the loop body: arm the timer from the reconnect delay or from \<open>NextWake\<close>.\<close>

definition loop_arm :: "world \<Rightarrow> time \<Rightarrow> go_error + time option \<Rightarrow> loop_state \<Rightarrow> loop_state" where
  "loop_arm w now nextWake l =
     (if \<not> lp_listening l then l\<lparr>lp_timer := armTimer now (Some (now + lp_reconnectDelay l))\<rparr>
      else case nextWake of
        Inl err \<Rightarrow>
          (loop_logs w ''0008'' ''SAP worker schedule reconciliation failed'' err l)
            \<lparr>lp_timer := armTimer now (Some (now + lp_reconnectDelay l))\<rparr>
      | Inr t \<Rightarrow> l\<lparr>lp_timer := armTimer now t\<rparr>)"

text \<open>
  The \<open>select\<close>: \<open>None\<close> ends the loop; otherwise the new state and whether \<open>drainDue\<close> runs.
  \<open>TimerFired\<close> carries the outcome of \<open>Watch\<close> for the branch that reconnects, \<open>ListenerError\<close> the
  error that was received, none if the channel was closed.
\<close>

definition loop_select :: "world \<Rightarrow> Config \<Rightarrow> loop_event \<Rightarrow> loop_state \<Rightarrow> (loop_state \<times> bool) option" where
  "loop_select w cfg ev l =
     (case ev of
        CtxDone \<Rightarrow> None
      | Wakeup ok \<Rightarrow> if \<not> ok then Some (l\<lparr>lp_listening := False\<rparr>, False) else Some (l, True)
      | ListenerError err \<Rightarrow>
          Some ((case err of None \<Rightarrow> l | Some x \<Rightarrow> loop_logs w ''0009'' ''SAP worker listener failed'' x l)\<lparr>lp_listening := False\<rparr>, False)
      | TimerFired watch \<Rightarrow>
          if \<not> lp_listening l then
            (case watch of
               Some err \<Rightarrow>
                 let delay = int64 (lp_reconnectDelay l * 2) in
                 Some ((loop_logs w ''0010'' ''SAP worker listener reconnect failed'' err l)\<lparr>lp_reconnectDelay :=
                   (if delay > listenerReconnectMaxDelay cfg then listenerReconnectMaxDelay cfg else delay)\<rparr>, False)
             | None \<Rightarrow> Some (l\<lparr>lp_listening := True, lp_reconnectDelay := listenerReconnectMinDelay\<rparr>, False))
          else Some (l, True))"

lemma loop_logs_simps [simp]:
  "lp_listening (loop_logs w code message err l) = lp_listening l"
  "lp_reconnectDelay (loop_logs w code message err l) = lp_reconnectDelay l"
  "lp_timer (loop_logs w code message err l) = lp_timer l"
  by (simp_all add: loop_logs_def)

section \<open>Delays\<close>

lemma retry_loop_closed:
  "0 < delay \<Longrightarrow> retry_loop attempt i delay = min 60000 (delay * 2 ^ nat (attempt - i))"
proof (induction attempt i delay rule: retry_loop.induct)
  case (1 attempt i delay)
  show ?case
  proof (cases "i < attempt")
    case True
    then have "nat (attempt - i) = Suc (nat (attempt - (i + 1)))" by simp
    then have double: "delay * 2 ^ nat (attempt - i) = delay * 2 * 2 ^ nat (attempt - (i + 1))" by simp
    have "(1::int) \<le> 2 ^ Suc (nat (attempt - (i + 1)))" by (rule one_le_power) simp
    with 1(2) have "delay * 1 \<le> delay * 2 ^ Suc (nat (attempt - (i + 1)))" by (intro mult_left_mono) simp_all
    then have "delay \<le> delay * 2 * 2 ^ nat (attempt - (i + 1))" by (simp only: mult_1_right power_Suc mult.assoc)
    then have "60000 \<le> delay \<Longrightarrow> min 60000 (delay * 2 * 2 ^ nat (attempt - (i + 1))) = 60000" by (intro min_absorb1) linarith
    with 1 True show ?thesis by (subst retry_loop.simps) (auto simp: double)
  next
    case False
    with 1(2) show ?thesis by (subst retry_loop.simps) auto
  qed
qed

lemma RetryDelayMS_range: "1000 \<le> RetryDelayMS a \<and> RetryDelayMS a \<le> 60000"
proof -
  have "(1::int) \<le> 2 ^ nat (a - 1)" by simp
  then have "(1000::int) \<le> 1000 * 2 ^ nat (a - 1)" by linarith
  then show ?thesis by (simp add: RetryDelayMS_def retry_loop_closed)
qed

lemma retryDelay_range:
  assumes "\<And>n. 0 < n \<Longrightarrow> 0 \<le> int63n n \<and> int63n n < n"
  shows "0 \<le> retryDelay int63n err a \<and> retryDelay int63n err a \<le> maxRetryDelay"
proof -
  have jit: "0 \<le> jitteredDelay int63n b" for b
    using assms [of "b + 1"] by (auto simp: jitteredDelay_def)
  show ?thesis
    using jit by (auto simp: retryDelay_def maxRetryDelay_def second_def Let_def split: option.splits)
qed

lemma maxTotalAttempts_pos: "0 < maxTotalAttempts cfg"
  by (simp add: maxTotalAttempts_def DefaultSAPMaxTotalAttempts_def)

section \<open>The two statements a delivery may send\<close>

text \<open>A statement of the worker took effect, or it failed and used up a fault.\<close>

lemma mark_failed_effect:
  assumes "mark_failed_logged w code job st d m e (g, fs) = (acts, (g', fs'))" and "sync_status_ok st"
  obtains (effective) "g' = g\<lparr>sync_jobs := update_where (\<lambda>j. j_id j = job_ID job) (failed_row st d m (env_now e)) (sync_jobs g)\<rparr>"
      "length fs' \<le> length fs"
    | (failed) "g' = g" "length fs' < length fs"
  using assms
  by (cases fs)
    (auto simp: mark_failed_logged_def MarkFailed_def wrapf_def statement_def q_MarkFailed_def
      split: prod.splits sum.splits fault.splits if_splits)

lemma MarkSynced_effect:
  assumes "MarkSynced i sap e (g, fs) = (r, (g', fs'))"
  obtains (effective) "q_MarkSynced i sap (env_now e) g = Inr ((), g')" "length fs' \<le> length fs"
    | (failed) "g' = g" "length fs' < length fs" "\<exists>err. r = Inl err"
  using assms
  by (cases fs)
    (auto simp: MarkSynced_def wrapf_def statement_def q_MarkSynced_def
      split: prod.splits sum.splits fault.splits if_splits)

text \<open>What a delivery leaves of the job's row.\<close>

definition delivered :: "Config \<Rightarrow> Job \<Rightarrow> pg \<Rightarrow> pg \<Rightarrow> bool" where
  "delivered cfg job g g' \<longleftrightarrow>
     (\<exists>h. sync_jobs g' = update_where (\<lambda>j. j_id j = job_ID job) h (sync_jobs g) \<and>
       (\<forall>j. j_id (h j) = j_id j \<and> j_attempts (h j) = j_attempts j) \<and>
       ((\<forall>j. j_status (h j) = SyncStatusDead \<or> j_status (h j) = SyncStatusSynced) \<or>
        (job_Attempts job < maxTotalAttempts cfg \<and>
          (\<forall>j. j_status (h j) = SyncStatusPending \<or> j_status (h j) = SyncStatusWaiting))))"

lemma deliveredI_failed:
  assumes "sync_jobs g' = update_where (\<lambda>j. j_id j = job_ID job) (failed_row st d m t) (sync_jobs g)"
    and "st = SyncStatusDead \<or> (job_Attempts job < maxTotalAttempts cfg \<and> (st = SyncStatusPending \<or> st = SyncStatusWaiting))"
  shows "delivered cfg job g g'"
  using assms unfolding delivered_def by (intro exI [of _ "failed_row st d m t"]) auto

lemma delivered_synced: "q_MarkSynced (job_ID job) sap t g = Inr (u, g') \<Longrightarrow> delivered cfg job g g'"
  unfolding delivered_def q_MarkSynced_def by (intro exI [of _ "synced_row sap t"]) auto

lemma delivered_trans:
  assumes "delivered cfg job g g1" and "delivered cfg job g1 g'"
  shows "delivered cfg job g g'"
proof -
  from assms obtain h1 h2 where h: "sync_jobs g1 = update_where (\<lambda>j. j_id j = job_ID job) h1 (sync_jobs g)"
    "\<forall>j. j_id (h1 j) = j_id j \<and> j_attempts (h1 j) = j_attempts j"
    "sync_jobs g' = update_where (\<lambda>j. j_id j = job_ID job) h2 (sync_jobs g1)"
    "\<forall>j. j_id (h2 j) = j_id j \<and> j_attempts (h2 j) = j_attempts j"
    "(\<forall>j. j_status (h2 j) = SyncStatusDead \<or> j_status (h2 j) = SyncStatusSynced) \<or>
        (job_Attempts job < maxTotalAttempts cfg \<and>
          (\<forall>j. j_status (h2 j) = SyncStatusPending \<or> j_status (h2 j) = SyncStatusWaiting))"
    unfolding delivered_def by blast
  then have "sync_jobs g' = update_where (\<lambda>j. j_id j = job_ID job) (\<lambda>j. h2 (h1 j)) (sync_jobs g)"
    by (simp add: update_where_def)
  with h show ?thesis unfolding delivered_def by (intro exI [of _ "\<lambda>j. h2 (h1 j)"]) auto
qed

lemma deliver_effect:
  assumes "deliver w cfg job e (g, fs) = (acts, (g', fs'))" and "job_Status job \<noteq> SyncStatusDead"
  shows "(delivered cfg job g g' \<and> length fs' \<le> length fs) \<or> (sync_jobs g' = sync_jobs g \<and> length fs' < length fs)"
proof -
  have mark: "(delivered cfg job g1 g2 \<and> length fs2 \<le> length fs1) \<or> (g2 = g1 \<and> length fs2 < length fs1)"
    if "mark_failed_logged w code job st d m e (g1, fs1) = (as, (g2, fs2))"
      and "st = SyncStatusDead \<or> (job_Attempts job < maxTotalAttempts cfg \<and> (st = SyncStatusPending \<or> st = SyncStatusWaiting))"
    for code st d m g1 fs1 as g2 fs2
  proof -
    from that(2) have "sync_status_ok st" by (auto simp: sync_status_ok_def)
    with that(1) show ?thesis
      by (cases rule: mark_failed_effect) (use that(2) in \<open>auto intro: deliveredI_failed\<close>)
  qed
  consider (expired) "expireRecoveryWindow w cfg job (w_now w) e (g, fs) = (acts, (g', fs'))"
    | (exceeded) "exceedMaxAttempts w cfg job (w_now w) e (g, fs) = (acts, (g', fs'))"
    | (failure) err as where "handleDeliveryFailure w cfg job (w_now w) (w_elapsed w) err e (g, fs) = (as, (g', fs'))"
    | (success) sapID as where "persistDeliverySuccess w cfg job (w_now w) (w_elapsed w) sapID e (g, fs) = (as, (g', fs'))"
    using assms by (auto simp: deliver_def Let_def split: if_splits sum.splits prod.splits)
  then show ?thesis
  proof cases
    case expired
    then show ?thesis by (auto simp: expireRecoveryWindow_def Let_def split: prod.splits dest!: mark)
  next
    case exceeded
    then show ?thesis by (auto simp: exceedMaxAttempts_def Let_def split: prod.splits dest!: mark)
  next
    case failure
    then show ?thesis
      by (auto simp: handleDeliveryFailure_def failureState_def Let_def split: prod.splits if_splits dest!: mark)
  next
    case success
    obtain r g1 fs1 where synced: "MarkSynced (job_ID job) sapID e (g, fs) = (r, (g1, fs1))" by (metis surj_pair)
    then have first: "(delivered cfg job g g1 \<and> length fs1 \<le> length fs) \<or> (g1 = g \<and> length fs1 < length fs \<and> (\<exists>err. r = Inl err))"
      by (cases rule: MarkSynced_effect) (auto intro: delivered_synced)
    show ?thesis
    proof (cases r)
      case (Inr u)
      with success synced first show ?thesis by (auto simp: persistDeliverySuccess_def)
    next
      case (Inl err)
      with success synced obtain as2 where
        "mark_failed_logged w ''0017'' job (if job_Attempts job \<ge> maxTotalAttempts cfg then SyncStatusDead else SyncStatusPending)
          (w_now w + retryDelay (w_int63n w) err (job_Attempts job)) (errorMessage w (Some err)) e (g1, fs1) = (as2, (g', fs'))"
        by (auto simp: persistDeliverySuccess_def Let_def split: prod.splits)
      then have "(delivered cfg job g1 g' \<and> length fs' \<le> length fs1) \<or> (g' = g1 \<and> length fs' < length fs1)"
        by (rule mark) auto
      with first show ?thesis by (auto intro: delivered_trans)
    qed
  qed
qed

section \<open>The drain loop ends\<close>

text \<open>
  How many more rounds a job can take part in: a job in a terminal status none, otherwise
  one per attempt left and one to be declared dead.
\<close>

definition rounds_left :: "Config \<Rightarrow> job_row \<Rightarrow> nat" where
  "rounds_left cfg j =
     (if j_status j = SyncStatusPending \<or> j_status j = SyncStatusWaiting \<or> j_status j = SyncStatusProcessing
      then nat (maxTotalAttempts cfg - j_attempts j) + 1 else 0)"

definition potential :: "Config \<Rightarrow> pg \<Rightarrow> nat" where
  "potential cfg g = sum_list (map (rounds_left cfg) (sync_jobs g))"

lemma sum_update_where:
  fixes W :: "'a \<Rightarrow> nat"
  assumes "unique_on k xs" and "x \<in> set xs"
  shows "sum_list (map W (update_where (\<lambda>y. k y = k x) f xs)) + W x = sum_list (map W xs) + W (f x)"
  using assms
proof (induction xs)
  case (Cons y ys)
  show ?case
  proof (cases "x = y")
    case True
    with Cons.prems have "update_where (\<lambda>z. k z = k x) f ys = ys" by (intro update_where_none) auto
    with True show ?thesis by simp
  next
    case False
    with Cons.prems have "k y \<noteq> k x" "x \<in> set ys" by auto
    with Cons show ?thesis by simp
  qed
qed simp

definition shrinks :: "'a op \<Rightarrow> bool" where
  "shrinks m \<longleftrightarrow> (\<forall>e g fs r g' fs'. m e (g, fs) = (r, (g', fs')) \<longrightarrow> length fs' \<le> length fs)"

lemma shrinksD: "shrinks m \<Longrightarrow> m e (g, fs) = (r, (g', fs')) \<Longrightarrow> length fs' \<le> length fs"
  unfolding shrinks_def by blast

lemma shrinks_simple: "shrinks (ret x)" "shrinks (throw err)" "shrinks (statement q)" "shrinks (reader f)"
  by (auto simp: shrinks_def ret_def reader_def throw_def statement_def split: fault.splits sum.splits prod.splits)

lemma shrinks_wrapf: "shrinks m \<Longrightarrow> shrinks (wrapf f a m)"
  unfolding shrinks_def wrapf_def by (auto split: prod.splits sum.splits)

lemma shrinks_bind_op: "shrinks m \<Longrightarrow> (\<And>x. shrinks (f x)) \<Longrightarrow> shrinks (bind_op m f)"
  unfolding shrinks_def bind_op_def
  by (auto split: prod.splits sum.splits) (meson order_trans)+

lemma shrinks_claim_work: "shrinks claim_work"
proof -
  have "shrinks claim_query" using shrinks_simple(3) unfolding shrinks_def claim_query_def by blast
  then show ?thesis
    by (auto simp: claim_work_def loadJobItems_def intro!: shrinks_bind_op shrinks_wrapf shrinks_simple split: option.split)
qed

lemma ClaimDue_claimed:
  assumes "ClaimDue e (g, fs) = (Inr x, (g', fs'))"
  shows "runs claim_work e g x g' \<and> length fs' \<le> length fs"
proof -
  have "runs claim_work e g x g'" using assms by (intro ClaimDue_runs) (auto intro: runsI)
  moreover obtain r1 g1 fs1 where work: "claim_work e (g, tl fs) = (r1, (g1, fs1))" by (metis surj_pair)
  then have "length fs1 \<le> length (tl fs)" by (rule shrinksD [OF shrinks_claim_work])
  with assms work have "length fs' \<le> length fs"
    by (cases r1) (auto simp: ClaimDue_def in_transaction_def split: fault.splits)
  ultimately show ?thesis ..
qed

lemma claimable_status:
  "claimable t g j \<Longrightarrow> j_status j = SyncStatusPending \<or> j_status j = SyncStatusWaiting \<or> j_status j = SyncStatusProcessing"
  by (auto simp: claimable_def scheduled_def)

text \<open>A claim followed by its delivery uses up a round of the job, or a fault.\<close>

lemma round_decreases:
  assumes wf: "jobs_wf g" and claim: "ClaimDue e (g, fs) = (Inr (Some job), (g1, fs1))"
    and del: "deliver w cfg job e' (g1, fs1) = (acts, (g2, fs2))"
  shows "jobs_wf g2 \<and> potential cfg g2 + length fs2 < potential cfg g + length fs"
proof -
  from ClaimDue_claimed [OF claim] have run: "runs claim_work e g (Some job) g1" and len: "length fs1 \<le> length fs" by auto
  from run obtain j where j: "claim_candidate (env_locked e) (env_now e) g = Some j" "job_ID job = j_id j"
      "job_Status job = j_status j" "job_Attempts job = j_attempts j + 1"
    and g1: "sync_jobs g1 = update_where (\<lambda>k. j_id k = j_id j) (lock_row (env_now e)) (sync_jobs g)"
    by (cases rule: runs_claim_work) auto
  from j(1) have mem: "j \<in> set (sync_jobs g)" and act: "j_status j = SyncStatusPending \<or> j_status j = SyncStatusWaiting \<or> j_status j = SyncStatusProcessing"
    by (auto dest!: claim_candidate_Some dest: claimable_status)
  let ?lock = "lock_row (env_now e)"
  have uniq: "unique_on j_id (sync_jobs g)" using wf by (simp add: jobs_wf_def)
  have left: "rounds_left cfg j = nat (maxTotalAttempts cfg - j_attempts j) + 1" using act by (simp add: rounds_left_def)
  have pot: "potential cfg g' + rounds_left cfg j = potential cfg g + rounds_left cfg (h j)"
    if "sync_jobs g' = update_where (\<lambda>k. j_id k = j_id j) h (sync_jobs g)" for g' h
    using sum_update_where [OF uniq mem, of "rounds_left cfg" h] that by (simp add: potential_def)
  from act j(3) have "job_Status job \<noteq> SyncStatusDead" by auto
  from deliver_effect [OF del this] consider
      (marked) "delivered cfg job g1 g2" "length fs2 \<le> length fs1" | (faulty) "sync_jobs g2 = sync_jobs g1" "length fs2 < length fs1"
    by blast
  then show ?thesis
  proof cases
    case marked
    then obtain h where h: "sync_jobs g2 = update_where (\<lambda>k. j_id k = j_id j) h (sync_jobs g1)"
      "\<forall>k. j_id (h k) = j_id k \<and> j_attempts (h k) = j_attempts k"
      "(\<forall>k. j_status (h k) = SyncStatusDead \<or> j_status (h k) = SyncStatusSynced) \<or>
        (job_Attempts job < maxTotalAttempts cfg \<and> (\<forall>k. j_status (h k) = SyncStatusPending \<or> j_status (h k) = SyncStatusWaiting))"
      unfolding delivered_def j(2) by blast
    have g2: "sync_jobs g2 = update_where (\<lambda>k. j_id k = j_id j) (\<lambda>k. h (?lock k)) (sync_jobs g)"
      by (simp add: h(1) g1 update_where_def)
    have "j_attempts (h (?lock j)) = j_attempts j + 1" using h(2) by simp
    moreover have "(j_status (h (?lock j)) = SyncStatusDead \<or> j_status (h (?lock j)) = SyncStatusSynced) \<or>
        j_attempts j + 1 < maxTotalAttempts cfg"
      using h(3) j(4) by auto
    ultimately have "rounds_left cfg (h (?lock j)) < rounds_left cfg j"
      unfolding left by (auto simp: rounds_left_def)
    moreover have "jobs_wf g2" using uniq h(2) by (auto simp: jobs_wf_def g2 intro!: unique_on_update_where)
    ultimately show ?thesis using pot [OF g2] len marked(2) by linarith
  next
    case faulty
    then have g2: "sync_jobs g2 = update_where (\<lambda>k. j_id k = j_id j) ?lock (sync_jobs g)" by (simp add: g1)
    have "rounds_left cfg (?lock j) \<le> rounds_left cfg j" using left by (auto simp: rounds_left_def)
    moreover have "jobs_wf g2" using uniq by (auto simp: jobs_wf_def g2 intro!: unique_on_update_where)
    ultimately show ?thesis using pot [OF g2] len faulty(2) by linarith
  qed
qed

lemma drain_ends: "jobs_wf (fst s) \<Longrightarrow> \<exists>y. drain ws es cfg n s = Some y"
proof (induction "potential cfg (fst s) + length (snd s)" arbitrary: s n rule: less_induct)
  case less
  obtain g fs where s: "s = (g, fs)" by (cases s)
  obtain r g1 fs1 where claim: "ClaimDue (es n) (g, fs) = (r, (g1, fs1))" by (metis surj_pair)
  show ?case
  proof (cases "\<exists>job. r = Inr (Some job)")
    case True
    then obtain job where job: "r = Inr (Some job)" by blast
    obtain acts g2 fs2 where del: "deliver (ws n) cfg job (w_session (ws n)) (g1, fs1) = (acts, (g2, fs2))"
      by (metis surj_pair)
    from round_decreases [of g "es n" fs job g1 fs1 "ws n" cfg "w_session (ws n)" acts g2 fs2] less.prems claim job del s
    have "jobs_wf g2" "potential cfg g2 + length fs2 < potential cfg (fst s) + length (snd s)" by auto
    then obtain y where "drain ws es cfg (Suc n) (g2, fs2) = Some y" using less.hyps [of "(g2, fs2)" "Suc n"] by auto
    with claim job del s show ?thesis by (subst drain.simps) (auto split: prod.splits)
  next
    case False
    with claim s show ?thesis by (subst drain.simps) (auto split: sum.splits option.splits)
  qed
qed

section \<open>The invariant under deliveries\<close>

lemma mark_failed_logged_ok:
  assumes "mark_failed_logged w code job st d m e (g, fs) = (acts, (g', fs'))"
    and "st \<in> {SyncStatusPending, SyncStatusWaiting, SyncStatusDead}" and "db_ok g"
  shows "db_ok g'"
  using assms by (auto simp: mark_failed_logged_def split: prod.splits sum.splits intro: MarkFailed_ok)

text \<open>What its two statements keep, a delivery keeps.\<close>

lemma deliver_preserves:
  assumes del: "deliver w cfg job e (g, fs) = (acts, (g', fs'))" and "P g"
    and mark: "\<And>code st d m h hs as h' hs'. mark_failed_logged w code job st d m e (h, hs) = (as, (h', hs')) \<Longrightarrow>
      st \<in> {SyncStatusPending, SyncStatusWaiting, SyncStatusDead} \<Longrightarrow> P h \<Longrightarrow> P h'"
    and synced: "\<And>sap h hs r h' hs'. CallSAP (od_OrderID (job_Details job)) (job_Details job) \<in> set acts \<Longrightarrow>
      w_sap w (od_OrderID (job_Details job)) (job_Details job) = Inr sap \<Longrightarrow>
      MarkSynced (job_ID job) sap e (h, hs) = (r, (h', hs')) \<Longrightarrow> P h \<Longrightarrow> P h'"
  shows "P g'"
proof -
  consider (nothing) "g' = g"
    | (expired) "expireRecoveryWindow w cfg job (w_now w) e (g, fs) = (acts, (g', fs'))"
    | (exceeded) "exceedMaxAttempts w cfg job (w_now w) e (g, fs) = (acts, (g', fs'))"
    | (failure) err as where "handleDeliveryFailure w cfg job (w_now w) (w_elapsed w) err e (g, fs) = (as, (g', fs'))"
    | (success) sapID as where "persistDeliverySuccess w cfg job (w_now w) (w_elapsed w) sapID e (g, fs) = (as, (g', fs'))"
        "w_sap w (od_OrderID (job_Details job)) (job_Details job) = Inr sapID"
        "CallSAP (od_OrderID (job_Details job)) (job_Details job) \<in> set acts"
    using del by (auto simp: deliver_def Let_def split: if_splits sum.splits prod.splits)
  then show ?thesis
  proof cases
    case success
    obtain r g1 fs1 where step: "MarkSynced (job_ID job) sapID e (g, fs) = (r, (g1, fs1))" by (metis surj_pair)
    from success(3,2) step assms(2) have "P g1" by (rule synced)
    with success step show ?thesis
      by (cases r) (auto simp: persistDeliverySuccess_def Let_def split: prod.splits if_splits dest!: mark)
  qed (use assms(2) in \<open>auto simp: expireRecoveryWindow_def exceedMaxAttempts_def handleDeliveryFailure_def failureState_def Let_def
      split: prod.splits if_splits dest!: mark\<close>)
qed

lemma deliver_ok: "deliver w cfg job e (g, fs) = (acts, (g', fs')) \<Longrightarrow> db_ok g \<Longrightarrow> db_ok g'"
  by (erule deliver_preserves) (auto intro: mark_failed_logged_ok MarkSynced_ok)

lemma db_ok_jobs_wf: "db_ok g \<Longrightarrow> jobs_wf g"
  by (simp add: db_ok_def outbox_ok_def jobs_wf_def)

section \<open>When SAP is called\<close>

lemma mark_failed_logged_calls: "mark_failed_logged w code job st d m e s = (acts, s') \<Longrightarrow> CallSAP k x \<notin> set acts"
  by (auto simp: mark_failed_logged_def split: prod.splits sum.splits)

lemma failure_calls: "handleDeliveryFailure w cfg job now duration err e s = (acts, s') \<Longrightarrow> CallSAP k x \<notin> set acts"
  by (auto simp: handleDeliveryFailure_def Let_def split: prod.splits dest: mark_failed_logged_calls)

lemma success_calls: "persistDeliverySuccess w cfg job now duration sapID e s = (acts, s') \<Longrightarrow> CallSAP k x \<notin> set acts"
  by (auto simp: persistDeliverySuccess_def Let_def split: prod.splits sum.splits dest: mark_failed_logged_calls)

lemma deliver_calls:
  assumes "deliver w cfg job e s = (acts, s')"
  shows "CallSAP k x \<in> set acts \<longleftrightarrow>
    job_Status job \<noteq> SyncStatusDead \<and> \<not> recoveryWindowExpired cfg job (w_now w) \<and>
    job_Attempts job \<le> maxTotalAttempts cfg \<and> k = od_OrderID (job_Details job) \<and> x = job_Details job"
  using assms
  by (auto simp: deliver_def Let_def expireRecoveryWindow_def exceedMaxAttempts_def logTerminalJob_def logDispatch_def
      split: if_splits prod.splits sum.splits option.splits dest: mark_failed_logged_calls failure_calls success_calls)

section \<open>Waking up\<close>

lemma claimable_iff_wake:
  "claimable now g j \<longleftrightarrow> order_not_cancelled g j \<and> (\<exists>t. job_wake j = Some t \<and> t \<le> now)"
  by (auto simp: claimable_def job_wake_def scheduled_def split: option.splits)

lemma map_filter_mem: "t \<in> set (List.map_filter f xs) \<longleftrightarrow> (\<exists>x \<in> set xs. f x = Some t)"
  by (induction xs) (auto simp: List.map_filter_def split: option.splits)

text \<open>The worker's next wake-up is due exactly when some job can be claimed.\<close>

lemma NextWake_due:
  assumes "NextWake now' g = Inr (wake, g')"
  shows "(\<exists>j \<in> set (sync_jobs g). claimable now g j) \<longleftrightarrow> (\<exists>t. wake = Some t \<and> t \<le> now)"
proof -
  let ?ws = "List.map_filter job_wake (filter (order_not_cancelled g) (sync_jobs g))"
  have wake: "wake = first_min id ?ws" using assms by (auto simp: NextWake_def select_def)
  have mem: "(\<exists>j \<in> set (sync_jobs g). claimable now g j) \<longleftrightarrow> (\<exists>t \<in> set ?ws. t \<le> now)"
    unfolding claimable_iff_wake Bex_def map_filter_mem by auto
  show ?thesis
  proof (cases wake)
    case None
    then have "?ws = []" using wake by simp
    then show ?thesis using None mem by simp
  next
    case (Some t)
    then have "t \<in> set ?ws" "\<forall>u \<in> set ?ws. t \<le> u" using wake first_min_Some [of id ?ws t] by auto
    then show ?thesis using Some mem by (auto intro: order_trans)
  qed
qed

definition reconnect_ok :: "Config \<Rightarrow> loop_state \<Rightarrow> bool" where
  "reconnect_ok cfg l \<longleftrightarrow>
     0 < lp_reconnectDelay l \<and> lp_reconnectDelay l \<le> max listenerReconnectMinDelay (listenerReconnectMaxDelay cfg)"

lemma loop_select_reconnect:
  assumes "reconnect_ok cfg l" and "0 < listenerReconnectMaxDelay cfg" and "listenerReconnectMaxDelay cfg < 2 ^ 62"
    and "loop_select w cfg ev l = Some (l', b)"
  shows "reconnect_ok cfg l'"
proof -
  have "listenerReconnectMinDelay < 2 ^ 62" by (simp add: listenerReconnectMinDelay_def millisecond_def)
  with assms(1,3) have "lp_reconnectDelay l < 2 ^ 62" by (auto simp: reconnect_ok_def max_def split: if_splits)
  with assms(1) have "int64 (lp_reconnectDelay l * 2) = lp_reconnectDelay l * 2"
    by (intro int64_id) (auto simp: reconnect_ok_def)
  with assms show ?thesis
    by (auto simp: loop_select_def reconnect_ok_def Let_def listenerReconnectMinDelay_def millisecond_def
        split: loop_event.splits option.splits if_splits)
qed

end
