(* ===== verification/Router.thy ===== *)
theory Router
  imports Worker
begin

text \<open>
  \<open>internal/app/router.go\<close>: the HTTP boundary. Routing and header access are gin's; a request
  is the record of what the handlers read of it. \<open>mime.ParseMediaType\<close> and the streaming
  JSON decoder under \<open>http.MaxBytesReader\<close> are arguments (\<open>parse_media\<close>, \<open>decoder\<close>). The two
  webhook endpoints are instances of one contract, the locale \<open>webhook_endpoint\<close>.
\<close>

section \<open>Requests and replies\<close>

record http_request =
  rq_secret :: string
  rq_request_id :: string
  rq_content_type :: string
  rq_body :: string
  rq_context :: "string option"

datatype error_text = ErrorText string | ErrorOf go_error

datatype reply_body =
    ErrorBody error_text
  | IssuesBody string "ValidationIssue list"
  | ResultBody WebhookResult
  | OrderBody OrderStatus
  | HealthBody string

text \<open>
  What a handler leaves: the reply (\<open>rp_request_id\<close> is the header \<open>X-Request-ID\<close>, which the
  middleware sets) and the records it logged. \<open>rq_context\<close> of a request is the request id in its
  context.
\<close>

record http_reply =
  rp_status :: int
  rp_body :: reply_body
  rp_request_id :: "string option"
  rp_log :: "log_record list"

definition JSON :: "int \<Rightarrow> reply_body \<Rightarrow> http_reply" where
  "JSON status body = \<lparr>rp_status = status, rp_body = body, rp_request_id = None, rp_log = []\<rparr>"

text \<open>Records written before the reply.\<close>

definition logged :: "log_record list \<Rightarrow> http_reply \<Rightarrow> http_reply" where
  "logged records reply = reply\<lparr>rp_log := records @ rp_log reply\<rparr>"

lemma logged_simps [simp]:
  "rp_status (logged rs reply) = rp_status reply" "rp_body (logged rs reply) = rp_body reply"
  "rp_request_id (logged rs reply) = rp_request_id reply" "rp_log (logged rs reply) = rs @ rp_log reply"
  by (simp_all add: logged_def)

lemma JSON_simps [simp]:
  "rp_status (JSON status body) = status" "rp_body (JSON status body) = body"
  "rp_request_id (JSON status body) = None" "rp_log (JSON status body) = []"
  by (simp_all add: JSON_def)

section \<open>Decoding\<close>

definition maxWebhookBodySize :: nat where
  "maxWebhookBodySize = 256 * 2 ^ 10"

text \<open>What one call of \<open>Decode\<close> returns: the size limit was hit, another error, the end of
  the input, or a value.\<close>

datatype 'a decoded = TooManyBytes | DecodeFailed string | EndOfInput | Decoded 'a

datatype decode_error = InvalidJSON | RequestBodyTooBig | UnsupportedType | UnknownField string

definition Contains :: "string \<Rightarrow> string \<Rightarrow> bool" where
  "Contains s substr = sublist substr s"

text \<open>The decoder yields the target value of the first call and what a second call finds.\<close>

definition decode ::
  "(string \<Rightarrow> string option) \<Rightarrow> (nat \<Rightarrow> string \<Rightarrow> 't decoded \<times> unit decoded) \<Rightarrow> http_request \<Rightarrow> decode_error + 't" where
  "decode parse_media decoder req =
     (if parse_media (rq_content_type req) \<noteq> Some ''application/json'' then Inl UnsupportedType
      else case decoder maxWebhookBodySize (rq_body req) of (first, extra) \<Rightarrow>
        (case first of
           TooManyBytes \<Rightarrow> Inl RequestBodyTooBig
         | DecodeFailed message \<Rightarrow> if Contains message ''unknown field'' then Inl (UnknownField message) else Inl InvalidJSON
         | EndOfInput \<Rightarrow> Inl InvalidJSON
         | Decoded payload \<Rightarrow>
             (case extra of
                EndOfInput \<Rightarrow> Inr payload
              | TooManyBytes \<Rightarrow> Inl RequestBodyTooBig
              | DecodeFailed message \<Rightarrow> Inl InvalidJSON
              | Decoded _ \<Rightarrow> Inl InvalidJSON)))"

definition writeDecodeError :: "decode_error \<Rightarrow> http_reply" where
  "writeDecodeError err =
     (case err of
        RequestBodyTooBig \<Rightarrow> JSON 400 (ErrorBody (ErrorText ''Request body too large''))
      | UnsupportedType \<Rightarrow> JSON 400 (ErrorBody (ErrorText ''Unsupported Content-Type; expected application/json''))
      | UnknownField message \<Rightarrow>
          JSON 400 (IssuesBody ''Invalid request'' [\<lparr>vi_Code = ''unrecognized_keys'', vi_Path = [], vi_Message = message\<rparr>])
      | InvalidJSON \<Rightarrow> JSON 400 (ErrorBody (ErrorText ''Invalid JSON'')))"

section \<open>Webhooks\<close>

definition writeWebhookProcessError :: "bool \<Rightarrow> string option \<Rightarrow> string \<Rightarrow> go_error \<Rightarrow> http_reply" where
  "writeWebhookProcessError logger ctx code err = logged (logError logger ctx code ''Request failed'' err)
     (if errors_is err ErrOrderPayloadConflict \<or> errors_is err ErrPaymentPayloadConflict then
        JSON 409 (ErrorBody (ErrorOf (Sentinel
          (if errors_is err ErrPaymentPayloadConflict then ErrPaymentPayloadConflict else ErrOrderPayloadConflict))))
      else if errors_is err ErrPaymentFinalized \<or> errors_is err ErrDigitalCancellation \<or> errors_is err ErrOrderCannotCancel
      then JSON 409 (ErrorBody (ErrorOf err))
      else JSON 500 (ErrorBody (ErrorText ''Internal server error'')))"

definition processWebhook ::
  "bool \<Rightarrow> string option \<Rightarrow> string \<Rightarrow> ('t \<Rightarrow> WebhookResult op) \<Rightarrow> ('t \<Rightarrow> 't) \<Rightarrow> ('t \<Rightarrow> ValidationIssue list) \<Rightarrow> (WebhookResult \<Rightarrow> int)
     \<Rightarrow> decode_error + 't \<Rightarrow> env \<Rightarrow> sess \<Rightarrow> http_reply \<times> sess" where
  "processWebhook logger ctx logCode process norm_payload validate status decoded e s =
     (case decoded of
        Inl err \<Rightarrow> (writeDecodeError err, s)
      | Inr payload \<Rightarrow>
          let payload = norm_payload payload; issues = validate payload in
          if issues \<noteq> [] then (JSON 400 (IssuesBody ''Invalid request'' issues), s)
          else (case process payload e s of
            (Inl err, s') \<Rightarrow> (writeWebhookProcessError logger ctx logCode err, s')
          | (Inr result, s') \<Rightarrow> (JSON (status result) (ResultBody result), s')))"

definition shop_status :: "WebhookResult \<Rightarrow> int" where
  "shop_status result = (if wr_Duplicate result then 200 else 201)"

definition payment_reply_status :: "WebhookResult \<Rightarrow> int" where
  "payment_reply_status result =
     (if wr_Duplicate result then 200
      else if wr_Message result = MessageAwaitingShopOrder then 202
      else 200)"

definition webhookAuth :: "string \<Rightarrow> (env \<Rightarrow> sess \<Rightarrow> http_reply \<times> sess) \<Rightarrow> http_request \<Rightarrow> env \<Rightarrow> sess \<Rightarrow> http_reply \<times> sess" where
  "webhookAuth secret next_handler req e s =
     (if secret \<noteq> [] \<and> rq_secret req \<noteq> secret then (JSON 401 (ErrorBody (ErrorText ''Unauthorized'')), s)
      else next_handler e s)"

text \<open>Whether the router has a logger, and the library functions the boundary relies on.\<close>

record go_lib =
  lib_logger :: bool
  lib_media :: "string \<Rightarrow> string option"
  lib_shop_decoder :: "nat \<Rightarrow> string \<Rightarrow> shop_Webhook decoded \<times> unit decoded"
  lib_payment_decoder :: "nat \<Rightarrow> string \<Rightarrow> payment_Webhook decoded \<times> unit decoded"
  lib_address :: "string \<Rightarrow> string option"
  lib_upper :: "string \<Rightarrow> string"
  lib_rfc3339 :: "string \<Rightarrow> time option"

definition shopWebhookHandler :: "go_lib \<Rightarrow> Config \<Rightarrow> http_request \<Rightarrow> env \<Rightarrow> sess \<Rightarrow> http_reply \<times> sess" where
  "shopWebhookHandler lib cfg req =
     processWebhook (lib_logger lib) (rq_context req) ''0004'' (shop_Process cfg) NormalizeShopWebhook (ValidateShopWebhook (lib_address lib)) shop_status
       (decode (lib_media lib) (lib_shop_decoder lib) req)"

definition paymentWebhookHandler :: "go_lib \<Rightarrow> Config \<Rightarrow> http_request \<Rightarrow> env \<Rightarrow> sess \<Rightarrow> http_reply \<times> sess" where
  "paymentWebhookHandler lib cfg req =
     processWebhook (lib_logger lib) (rq_context req) ''0005'' (payment_Process (lib_upper lib) (lib_rfc3339 lib) cfg) (NormalizePaymentWebhook (lib_upper lib))
       (ValidatePaymentWebhook (lib_rfc3339 lib)) payment_reply_status
       (decode (lib_media lib) (lib_payment_decoder lib) req)"

section \<open>The other endpoints\<close>

definition orderStatusHandler :: "bool \<Rightarrow> string option \<Rightarrow> string \<Rightarrow> env \<Rightarrow> sess \<Rightarrow> http_reply \<times> sess" where
  "orderStatusHandler logger ctx orderID e s =
     (case GetOrderStatus orderID e s of
        (Inl err, s') \<Rightarrow> (logged (logError logger ctx ''0006'' ''Request failed'' err) (JSON 500 (ErrorBody (ErrorText ''Internal server error''))), s')
      | (Inr None, s') \<Rightarrow> (JSON 404 (ErrorBody (ErrorText ''Order not found'')), s')
      | (Inr (Some result), s') \<Rightarrow> (JSON 200 (OrderBody result), s'))"

definition healthHandler :: "bool \<Rightarrow> string option \<Rightarrow> go_error option \<Rightarrow> http_reply" where
  "healthHandler logger ctx ping =
     (case ping of
        Some err \<Rightarrow> logged (logError logger ctx ''0003'' ''Health check failed'' err)
          (JSON 500 (ErrorBody (ErrorText ''Internal server error'')))
      | None \<Rightarrow> JSON 200 (HealthBody ''ok''))"

text \<open>The request id: the caller's, or one made of the clock and a process-wide counter.\<close>

definition generated_id :: "time \<Rightarrow> nat \<Rightarrow> string" where
  "generated_id now n = Itoa now @ ''-'' @ show_nat n"

definition request_id :: "time \<Rightarrow> http_request \<Rightarrow> nat \<Rightarrow> string \<times> nat" where
  "request_id now req requestSequence =
     (let requestID = TrimSpace (rq_request_id req) in
      if requestID = [] then
        let n = (requestSequence + 1) mod 2 ^ 64 in (generated_id now n, n)
      else (requestID, requestSequence))"

datatype route = HealthRoute "go_error option" | ShopRoute | PaymentRoute | OrderRoute string

definition NewRouter :: "go_lib \<Rightarrow> Config \<Rightarrow> route \<Rightarrow> http_request \<Rightarrow> env \<Rightarrow> sess \<Rightarrow> http_reply \<times> sess" where
  "NewRouter lib cfg r req e s =
     (case r of
        HealthRoute ping \<Rightarrow> (healthHandler (lib_logger lib) (rq_context req) ping, s)
      | ShopRoute \<Rightarrow> webhookAuth (WebhookSecret cfg) (shopWebhookHandler lib cfg req) req e s
      | PaymentRoute \<Rightarrow> webhookAuth (WebhookSecret cfg) (paymentWebhookHandler lib cfg req) req e s
      | OrderRoute orderID \<Rightarrow> orderStatusHandler (lib_logger lib) (rq_context req) orderID e s)"

text \<open>
  The middleware around every route: it puts the request id into the reply and into the
  context, runs the handler and logs the request. \<open>http_call\<close> is the clock at its start and the
  time the handler took.
\<close>

record http_call =
  hc_now :: time
  hc_elapsed :: int

definition route_method :: "route \<Rightarrow> string" where
  "route_method r = (case r of ShopRoute \<Rightarrow> ''POST'' | PaymentRoute \<Rightarrow> ''POST'' | _ \<Rightarrow> ''GET'')"

definition route_path :: "route \<Rightarrow> string" where
  "route_path r =
     (case r of
        HealthRoute _ \<Rightarrow> ''/health''
      | ShopRoute \<Rightarrow> ''/api/webhooks/shop''
      | PaymentRoute \<Rightarrow> ''/api/webhooks/payment''
      | OrderRoute orderID \<Rightarrow> ''/api/orders/'' @ orderID)"

definition requestIDMiddleware ::
  "bool \<Rightarrow> http_call \<Rightarrow> route \<Rightarrow> (http_request \<Rightarrow> http_reply \<times> sess) \<Rightarrow> http_request \<Rightarrow> nat \<Rightarrow> (http_reply \<times> nat) \<times> sess" where
  "requestIDMiddleware logger call r next_handler req requestSequence =
     (case request_id (hc_now call) req requestSequence of
        (requestID, seq) \<Rightarrow>
          (case next_handler (req\<lparr>rq_context := Some requestID\<rparr>) of
             (reply, s') \<Rightarrow>
               ((reply\<lparr>rp_request_id := Some requestID,
                   rp_log := rp_log reply @ logInfo logger ''0002'' ''HTTP request''
                     [(''request_id'', LogString requestID), (''method'', LogString (route_method r)), (''path'', LogString (route_path r)),
                      (''status'', LogInt (rp_status reply)), (''duration_ms'', LogInt (Milliseconds (hc_elapsed call)))]\<rparr>, seq), s')))"

definition ServeHTTP :: "go_lib \<Rightarrow> Config \<Rightarrow> http_call \<Rightarrow> route \<Rightarrow> http_request \<Rightarrow> nat \<Rightarrow> env \<Rightarrow> sess \<Rightarrow> (http_reply \<times> nat) \<times> sess" where
  "ServeHTTP lib cfg call r req requestSequence e s =
     requestIDMiddleware (lib_logger lib) call r (\<lambda>req'. NewRouter lib cfg r req' e s) req requestSequence"

section \<open>The contract of a webhook endpoint\<close>

text \<open>
  What the boundary needs of a service: a business conflict leaves the tables as they
  were, success is a committed run of the work, and normalization has been done when the
  payload is validated.
\<close>

definition business_error :: "go_error \<Rightarrow> bool" where
  "business_error err \<longleftrightarrow>
     errors_is err ErrOrderPayloadConflict \<or> errors_is err ErrPaymentPayloadConflict \<or> errors_is err ErrPaymentFinalized \<or>
     errors_is err ErrDigitalCancellation \<or> errors_is err ErrOrderCannotCancel"

lemma business_error_iff: "business_error err \<longleftrightarrow> (\<exists>x. errors_is err x)"
proof
  assume "\<exists>x. errors_is err x"
  then obtain x where "errors_is err x" ..
  then show "business_error err" by (cases x) (auto simp: business_error_def)
qed (auto simp: business_error_def)

lemma writeWebhookProcessError_status:
  "rp_status (writeWebhookProcessError logger ctx code err) = (if business_error err then 409 else 500)"
  by (auto simp: writeWebhookProcessError_def business_error_def JSON_def)

lemma writeDecodeError_status: "rp_status (writeDecodeError err) = 400"
  by (cases err) (auto simp: writeDecodeError_def JSON_def)

text \<open>The log of a request that failed: one error record with the request id of the context.\<close>

definition error_logged :: "string option \<Rightarrow> log_record list \<Rightarrow> bool" where
  "error_logged ctx records \<longleftrightarrow> (\<exists>code message err. records = logError True ctx code message err)"

lemma error_loggedI [simp]: "error_logged ctx (logError True ctx code message err)"
  unfolding error_logged_def by blast

definition errors_logged :: "string option \<Rightarrow> http_reply \<Rightarrow> bool" where
  "errors_logged ctx reply \<longleftrightarrow>
     (if rp_status reply = 409 \<or> rp_status reply = 500 then error_logged ctx (rp_log reply) else rp_log reply = [])"

lemma writeDecodeError_log: "rp_log (writeDecodeError err) = []"
  by (cases err) (auto simp: writeDecodeError_def)

lemma processWebhook_cases:
  assumes "processWebhook logger ctx logCode process norm_payload validate status d e s = (reply, s')"
  obtains (undecodable) err where "d = Inl err" "reply = writeDecodeError err" "s' = s"
    | (invalid) p where "d = Inr p" "validate (norm_payload p) \<noteq> []"
        "reply = JSON 400 (IssuesBody ''Invalid request'' (validate (norm_payload p)))" "s' = s"
    | (failed) p err where "d = Inr p" "validate (norm_payload p) = []"
        "process (norm_payload p) e s = (Inl err, s')" "reply = writeWebhookProcessError logger ctx logCode err"
    | (succeeded) p x where "d = Inr p" "validate (norm_payload p) = []"
        "process (norm_payload p) e s = (Inr x, s')" "reply = JSON (status x) (ResultBody x)"
  using assms by (auto simp: processWebhook_def Let_def split: sum.splits if_splits prod.splits)

locale webhook_endpoint =
  fixes process :: "'t \<Rightarrow> WebhookResult op"
    and norm_payload :: "'t \<Rightarrow> 't"
    and validate :: "'t \<Rightarrow> ValidationIssue list"
    and status :: "WebhookResult \<Rightarrow> int"
    and work :: "'t \<Rightarrow> WebhookResult op"
  assumes status_success: "status r \<in> {200, 201, 202}"
    and process_conflict: "process p e (g, fs) = (Inl err, (g', fs')) \<Longrightarrow> business_error err \<Longrightarrow> same_tables g' g"
    and process_failure: "process p e (g, fs) = (Inl err, (g', fs')) \<Longrightarrow>
      same_tables g' g \<or> (\<exists>x. runs (work (norm_payload p)) e g x g')"
    and process_success: "process p e (g, fs) = (Inr x, (g', fs')) \<Longrightarrow> runs (work (norm_payload p)) e g x g'"
begin

lemma reply_statuses:
  assumes "processWebhook logger ctx logCode process norm_payload validate status d e s = (reply, s')"
  shows "rp_status reply \<in> {200, 201, 202, 400, 409, 500}"
  using assms
proof (cases rule: processWebhook_cases)
  case (succeeded p x)
  then show ?thesis using status_success [of x] by (auto simp: JSON_def)
qed (auto simp: JSON_def writeDecodeError_status writeWebhookProcessError_status)

text \<open>A conflict or an internal error is logged once, with the request id; nothing else is.\<close>

lemma reply_log:
  assumes "processWebhook True ctx logCode process norm_payload validate status d e s = (reply, s')"
  shows "errors_logged ctx reply"
  using assms
proof (cases rule: processWebhook_cases)
  case (failed p err)
  then show ?thesis by (auto simp: errors_logged_def writeWebhookProcessError_status writeWebhookProcessError_def)
next
  case (succeeded p x)
  then show ?thesis using status_success [of x] by (auto simp: errors_logged_def)
qed (simp_all add: errors_logged_def writeDecodeError_status writeDecodeError_log)

text \<open>A rejected request does not touch the database at all.\<close>

lemma bad_request_untouched:
  assumes "processWebhook logger ctx logCode process norm_payload validate status d e s = (reply, s')" and "rp_status reply = 400"
  shows "s' = s"
  using assms(1)
proof (cases rule: processWebhook_cases)
  case (succeeded p x)
  then show ?thesis using assms(2) status_success [of x] by (auto simp: JSON_def)
qed (use assms(2) in \<open>auto simp: writeWebhookProcessError_status split: if_splits\<close>)

lemma conflict_untouched:
  assumes "processWebhook logger ctx logCode process norm_payload validate status d e (g, fs) = (reply, (g', fs'))" and "rp_status reply = 409"
  shows "same_tables g' g"
  using assms(1)
proof (cases rule: processWebhook_cases)
  case (failed p err)
  then show ?thesis
    using assms(2) process_conflict [of "norm_payload p" e g fs err g' fs']
    by (auto simp: writeWebhookProcessError_status split: if_splits)
next
  case (succeeded p x)
  then show ?thesis using assms(2) status_success [of x] by (auto simp: JSON_def)
qed (use assms(2) in \<open>auto simp: JSON_def writeDecodeError_status\<close>)

text \<open>A success is a committed run of the work on the normalized, valid payload.\<close>

lemma success_committed:
  assumes "processWebhook logger ctx logCode process norm_payload validate status d e (g, fs) = (reply, (g', fs'))"
    and "rp_status reply \<in> {200, 201, 202}"
  shows "\<exists>p x. d = Inr p \<and> validate (norm_payload p) = [] \<and> rp_body reply = ResultBody x \<and> rp_status reply = status x \<and>
    runs (work (norm_payload (norm_payload p))) e g x g'"
  using assms(1)
proof (cases rule: processWebhook_cases)
  case (succeeded p x)
  with process_success [of "norm_payload p" e g fs x g' fs'] show ?thesis by (auto simp: JSON_def)
qed (use assms(2) in \<open>auto simp: JSON_def writeDecodeError_status writeWebhookProcessError_status split: if_splits\<close>)

text \<open>What the status says of the request.\<close>

lemma reply_meaning:
  assumes run: "processWebhook logger ctx logCode process norm_payload validate status d e (g, fs) = (reply, (g', fs'))"
  obtains (untouched) "rp_status reply = 400" "g' = g"
    | (conflict) "rp_status reply = 409" "same_tables g' g"
    | (internal) "rp_status reply = 500"
    | (committed) p x where "d = Inr p" "validate (norm_payload p) = []" "rp_body reply = ResultBody x" "rp_status reply = status x"
        "rp_status reply \<in> {200, 201, 202}" "runs (work (norm_payload (norm_payload p))) e g x g'"
proof -
  from reply_statuses [OF run] consider "rp_status reply \<in> {200, 201, 202}" | "rp_status reply = 400" | "rp_status reply = 409"
    | "rp_status reply = 500" by auto
  then show thesis
  proof cases
    case 1
    from success_committed [OF run this] 1 show thesis by (elim exE conjE) (rule committed)
  next
    case 2
    with bad_request_untouched [OF run] untouched show thesis by simp
  next
    case 3
    with conflict_untouched [OF run] conflict show thesis by simp
  qed (rule internal)
qed

text \<open>Whatever the reply, the tables are the old ones or those of a complete run.\<close>

lemma all_or_nothing:
  assumes "processWebhook logger ctx logCode process norm_payload validate status d e (g, fs) = (reply, (g', fs'))"
  shows "same_tables g' g \<or> (\<exists>p x. d = Inr p \<and> runs (work (norm_payload (norm_payload p))) e g x g')"
  using assms
proof (cases rule: processWebhook_cases)
  case (failed p err)
  with process_failure [of "norm_payload p" e g fs err g' fs'] show ?thesis by auto
next
  case (succeeded p x)
  with process_success [of "norm_payload p" e g fs x g' fs'] show ?thesis by auto
qed auto

end

section \<open>The two endpoints\<close>

text \<open>An error of a transaction that committed is a lost reply, never a business conflict.\<close>

lemma Run_conflict:
  assumes "Run work e (g, fs) = (Inl err, (g', fs'))" and "business_error err"
  shows "same_tables g' g"
  using assms
  by (auto simp: Run_def in_transaction_def business_error_iff split: fault.splits prod.splits sum.splits)

lemma Run_failure:
  assumes "Run work e (g, fs) = (Inl err, (g', fs'))"
  shows "same_tables g' g \<or> (\<exists>x. runs work e g x g')"
  using assms by (cases rule: Run_cases) auto

lemma Run_success:
  assumes "Run work e (g, fs) = (Inr x, (g', fs'))"
  shows "runs work e g x g'"
  using assms by (cases rule: Run_cases) auto

interpretation shop_endpoint: webhook_endpoint "shop_Process cfg" NormalizeShopWebhook
  "ValidateShopWebhook parse_address" shop_status "\<lambda>p. processShop p cfg"
  for cfg parse_address
  by unfold_locales (auto simp: shop_Process_def shop_status_def dest: Run_conflict Run_failure Run_success)

interpretation payment_endpoint: webhook_endpoint "payment_Process upper parse_time cfg" "NormalizePaymentWebhook upper"
  "ValidatePaymentWebhook parse_time" payment_reply_status "\<lambda>p. processPayment upper parse_time p cfg"
  for upper parse_time cfg
  by unfold_locales (auto simp: payment_Process_def payment_reply_status_def dest: Run_conflict Run_failure Run_success)

section \<open>Authentication and request ids\<close>

lemma webhookAuth_rejects:
  "secret \<noteq> [] \<Longrightarrow> rq_secret req \<noteq> secret \<Longrightarrow> rp_status (fst (webhookAuth secret h req e s)) = 401 \<and> snd (webhookAuth secret h req e s) = s"
  by (simp add: webhookAuth_def JSON_def)

lemma processWebhook_ok:
  assumes "processWebhook logger ctx logCode process norm_payload validate status d e (g, fs) = (reply, (g', fs'))" and "db_ok g"
    and "\<And>p r h fs1. process p e (g, fs) = (r, (h, fs1)) \<Longrightarrow> db_ok h"
  shows "db_ok g'"
  using assms(1) by (cases rule: processWebhook_cases) (use assms(2,3) in auto)

lemma GetOrderStatus_reads: "GetOrderStatus i e (g, fs) = (r, (g', fs')) \<Longrightarrow> g' = g"
  by (auto simp: GetOrderStatus_def OrderRepository_FindStatus_def FindStatus_def wrapf_def bind_op_def reader_def statement_def
      split: prod.splits sum.splits fault.splits if_splits)

lemma orderStatusHandler_reads: "orderStatusHandler logger ctx i e (g, fs) = (reply, (g', fs')) \<Longrightarrow> g' = g"
  by (auto simp: orderStatusHandler_def split: prod.splits sum.splits option.splits dest: GetOrderStatus_reads)

lemma shopWebhookHandler_ok:
  assumes "db_ok g" and "shopWebhookHandler lib cfg req e (g, fs) = (reply, (g', fs'))"
  shows "db_ok g'"
  using assms(2) unfolding shopWebhookHandler_def
  by (rule processWebhook_ok [OF _ assms(1)]) (rule shop_Process_ok [OF assms(1)])

lemma paymentWebhookHandler_ok:
  assumes "db_ok g" and "paymentWebhookHandler lib cfg req e (g, fs) = (reply, (g', fs'))"
  shows "db_ok g'"
  using assms(2) unfolding paymentWebhookHandler_def
  by (rule processWebhook_ok [OF _ assms(1)]) (rule payment_Process_ok [OF assms(1)])

lemma NewRouter_ok:
  assumes "NewRouter lib cfg r req e (g, fs) = (reply, (g', fs'))" and "db_ok g"
  shows "db_ok g'"
  using assms shopWebhookHandler_ok [OF assms(2)] paymentWebhookHandler_ok [OF assms(2)]
  by (cases r) (auto simp: NewRouter_def webhookAuth_def split: if_splits dest: orderStatusHandler_reads)

text \<open>What a route logs, before the record of the request itself.\<close>

lemma logError_record:
  "logError True ctx code message err = [coded_record LevelError code message ((''error'', LogErr err) #
     (case ctx of None \<Rightarrow> [] | Some i \<Rightarrow> [(''request_id'', LogString i)]))]"
  by (simp add: logError_def split: option.split)

lemma webhookAuth_log:
  assumes "webhookAuth secret h req e s = (reply, s')" and "\<And>reply s'. h e s = (reply, s') \<Longrightarrow> errors_logged ctx reply"
  shows "errors_logged ctx reply"
  using assms by (auto simp: webhookAuth_def errors_logged_def split: if_splits)

lemma NewRouter_log:
  assumes "NewRouter lib cfg r req e s = (reply, s')" and "lib_logger lib"
  shows "errors_logged (rq_context req) reply"
proof (cases r)
  case (HealthRoute ping)
  with assms show ?thesis by (cases ping) (auto simp: NewRouter_def healthHandler_def errors_logged_def)
next
  case ShopRoute
  with assms show ?thesis
    by (auto simp: NewRouter_def shopWebhookHandler_def elim!: webhookAuth_log intro: shop_endpoint.reply_log)
next
  case PaymentRoute
  with assms show ?thesis
    by (auto simp: NewRouter_def paymentWebhookHandler_def elim!: webhookAuth_log intro: payment_endpoint.reply_log)
next
  case (OrderRoute i)
  with assms show ?thesis
    by (auto simp: NewRouter_def orderStatusHandler_def errors_logged_def split: prod.splits sum.splits option.splits)
qed

text \<open>The counter is the text after the last dash, so it can be read off a generated id.\<close>

lemma takeWhile_digits: "takeWhile (\<lambda>c. c \<noteq> CHR ''-'') (rev (xs @ ''-'' @ show_nat n)) = rev (show_nat n)"
proof -
  have "\<forall>c \<in> set (rev (show_nat n)). c \<noteq> CHR ''-''"
    using show_nat_digits [of _ n] by fastforce
  then show ?thesis by (simp add: takeWhile_append)
qed

lemma generated_id_counter: "generated_id t m = generated_id t' n \<Longrightarrow> m = n"
proof -
  assume "generated_id t m = generated_id t' n"
  then have "rev (show_nat m) = rev (show_nat n)"
    unfolding generated_id_def by (metis takeWhile_digits)
  then have "Some m = Some n" by (metis parse_show_nat rev_rev_ident)
  then show ?thesis by simp
qed

end
