(* ===== verification/Admin.thy ===== *)
theory Admin
  imports Router
begin

text \<open>
  \<open>cmd/order-sync-admin/main.go\<close>: the operator's command line (migrate, verify, replay). The
  tables a server has are an argument, \<open>tables\<close>; the tables of the model's database always exist
  once migrated.
\<close>

section \<open>The admin command\<close>

definition requiredTables :: "string list" where
  "requiredTables = [''orders'', ''order_items'', ''sku_classifications'', ''webhook_events'', ''payments'', ''sync_jobs'']"

definition replayJobID :: "string list \<Rightarrow> go_error + int" where
  "replayJobID args =
     (if length args \<noteq> 3 then Inl (Errorf ''usage: order-sync-admin replay <job-id>'' [])
      else case ParseInt (args ! 2) of
        None \<Rightarrow> Inl (Errorf ''job-id must be a positive integer'' [])
      | Some jobID \<Rightarrow> if jobID \<le> 0 then Inl (Errorf ''job-id must be a positive integer'' []) else Inr jobID)"

definition replayed_row :: "time \<Rightarrow> job_row \<Rightarrow> job_row" where
  "replayed_row now j =
     j\<lparr>j_status := SyncStatusPending, j_due_at := now, j_attempts := 0, j_locked_at := None,
       j_waiting_since := None, j_last_error := None, j_sap_internal_id := None, j_synced_at := None,
       j_updated_at := now\<rparr>"

definition dead_job :: "int \<Rightarrow> job_row \<Rightarrow> bool" where
  "dead_job jobID j \<longleftrightarrow> j_id j = jobID \<and> j_status j = SyncStatusDead"

text \<open>The \<open>UPDATE\<close> and its \<open>RowsAffected\<close>.\<close>

definition ReplayDead :: "int \<Rightarrow> nat query" where
  "ReplayDead jobID now g =
     Inr (length (filter (dead_job jobID) (sync_jobs g)),
          g\<lparr>sync_jobs := update_where (dead_job jobID) (replayed_row now) (sync_jobs g)\<rparr>)"

definition replayDeadJob :: "int \<Rightarrow> unit op" where
  "replayDeadJob jobID =
     bind_op (wrapf ''replay DEAD sync job %d: %w'' [ArgD jobID] (statement (ReplayDead jobID)))
       (\<lambda>rows. if rows \<noteq> 1 then throw (Errorf ''sync job %d does not exist or is not DEAD'' [ArgD jobID]) else ret ())"

text \<open>\<open>errors.New(said + err.Error())\<close>: the cause is printed into the message but not wrapped.\<close>

definition retold :: "(go_error \<Rightarrow> string) \<Rightarrow> string \<Rightarrow> go_error \<Rightarrow> go_error" where
  "retold error_text said err = Errorf (said @ error_text err) []"

definition retelling :: "(go_error \<Rightarrow> string) \<Rightarrow> string \<Rightarrow> 'a op \<Rightarrow> 'a op" where
  "retelling error_text said m e s =
     (case m e s of (Inl err, s') \<Rightarrow> (Inl (retold error_text said err), s') | (Inr x, s') \<Rightarrow> (Inr x, s'))"

fun verify_tables :: "(go_error \<Rightarrow> string) \<Rightarrow> string list \<Rightarrow> string list \<Rightarrow> unit op" where
  "verify_tables error_text tables [] = ret ()"
| "verify_tables error_text tables (table # rest) =
     bind_op (retelling error_text (''check table '' @ table @ '': '') (statement (select (\<lambda>_. table \<in> set tables))))
       (\<lambda>found. if \<not> found then throw (Errorf (''required table '' @ table @ '' is missing'') [])
         else verify_tables error_text tables rest)"

definition verifySchema :: "(go_error \<Rightarrow> string) \<Rightarrow> string list \<Rightarrow> unit op" where
  "verifySchema error_text tables =
     bind_op (verify_tables error_text tables requiredTables)
       (\<lambda>_. bind_op (retelling error_text ''check seeded SKU classifications: ''
           (statement (select (\<lambda>g. length (filter (\<lambda>row. fst row \<in> set (map fst seeded_skus)) (sku_classifications g))))))
         (\<lambda>seededSKUs. if seededSKUs \<noteq> 3
           then throw (Errorf (''expected 3 seeded SKU classifications, found '' @ Itoa (int seededSKUs)) []) else ret ()))"

text \<open>The end of the process: its exit status and what it printed.\<close>

record process_end =
  pe_status :: int
  pe_stdout :: "string list"
  pe_stderr :: "error_text list"

definition fatal :: "string list \<Rightarrow> go_error \<Rightarrow> process_end" where
  "fatal printed err = \<lparr>pe_status = 1, pe_stdout = printed, pe_stderr = [ErrorOf err]\<rparr>"

definition fatalUsage :: "go_error \<Rightarrow> process_end" where
  "fatalUsage err = \<lparr>pe_status = 2, pe_stdout = [], pe_stderr = [ErrorOf err]\<rparr>"

definition completed :: "string list \<Rightarrow> process_end" where
  "completed printed = \<lparr>pe_status = 0, pe_stdout = printed, pe_stderr = []\<rparr>"

text \<open>
  \<open>main\<close>. \<open>new_pool\<close> and \<open>ping\<close> are the outcomes of creating the pool and of reaching the server, \<open>tables\<close>
  the tables it has; a migration creates those that are missing.
\<close>

definition admin_verify :: "(go_error \<Rightarrow> string) \<Rightarrow> string list \<Rightarrow> string list \<Rightarrow> env \<Rightarrow> sess \<Rightarrow> process_end \<times> sess" where
  "admin_verify error_text printed tables e s =
     (case verifySchema error_text tables e s of
        (Inl err, s') \<Rightarrow> (fatal printed err, s')
      | (Inr _, s') \<Rightarrow> (completed (printed @ [''database schema verified'']), s'))"

definition admin_main ::
  "(go_error \<Rightarrow> string) \<Rightarrow> string list \<Rightarrow> string \<Rightarrow> go_error option \<Rightarrow> go_error option \<Rightarrow> string list \<Rightarrow> env \<Rightarrow> sess \<Rightarrow> process_end \<times> sess" where
  "admin_main error_text args databaseURL new_pool ping tables e s =
     (let command = (if length args > 1 then args ! 1 else ''verify'') in
      if command \<noteq> ''migrate'' \<and> command \<noteq> ''verify'' \<and> command \<noteq> ''replay'' then
        (\<lparr>pe_status = 2, pe_stdout = [], pe_stderr = [ErrorText ''usage: order-sync-admin [migrate|verify|replay <job-id>]'']\<rparr>, s)
      else case (if command = ''replay'' then replayJobID args else Inr 0) of
        Inl err \<Rightarrow> (fatalUsage err, s)
      | Inr jobID \<Rightarrow>
          if databaseURL = [] then (fatal [] (Errorf ''DATABASE_URL is required'' []), s)
          else case new_pool of
            Some err \<Rightarrow> (fatal [] (retold error_text ''error create database pool: '' err), s)
          | None \<Rightarrow>
              (case ping of
                 Some err \<Rightarrow> (fatal [] (retold error_text ''database is unavailable: '' err), s)
               | None \<Rightarrow>
                   if command = ''migrate'' then
                     (case Migrate e s of
                        (Inl err, s') \<Rightarrow> (fatal [] err, s')
                      | (Inr _, s') \<Rightarrow>
                          admin_verify error_text [''database migration applied''] (remdups (tables @ requiredTables)) e s')
                   else if command = ''replay'' then
                     (case replayDeadJob jobID e s of
                        (Inl err, s') \<Rightarrow> (fatal [] err, s')
                      | (Inr _, s') \<Rightarrow> (completed [''DEAD sync job '' @ Itoa jobID @ '' reset to PENDING''], s'))
                   else admin_verify error_text [] tables e s))"

section \<open>Facts\<close>

lemma replayed_row_simps [simp]:
  "j_id (replayed_row t j) = j_id j" "j_order_id (replayed_row t j) = j_order_id j"
  "j_status (replayed_row t j) = SyncStatusPending" "j_attempts (replayed_row t j) = 0"
  "j_due_at (replayed_row t j) = t" "j_locked_at (replayed_row t j) = None"
  "j_waiting_since (replayed_row t j) = None"
  by (simp_all add: replayed_row_def)

lemma ReplayDead_ok: "db_ok g \<Longrightarrow> ReplayDead i now g = Inr (x, g') \<Longrightarrow> db_ok g'"
  by (erule outbox_update [where P = "\<lambda>_. False" and f = "\<lambda>r. r" and Q = "dead_job i" and h = "replayed_row now"])
    (auto simp: ReplayDead_def update_where_none job_row_ok_def)

lemma replayDeadJob_effect:
  assumes "replayDeadJob i e (g, fs) = (r, (g', fs'))"
  shows "g' = g \<or> g' = g\<lparr>sync_jobs := update_where (dead_job i) (replayed_row (env_now e)) (sync_jobs g)\<rparr>"
  using assms by (auto simp: replayDeadJob_def bind_op_def wrapf_def statement_def throw_def ret_def ReplayDead_def
      split: prod.splits sum.splits fault.splits if_splits)

lemma replayDeadJob_ok:
  assumes "db_ok g" and "replayDeadJob i e (g, fs) = (r, (g', fs'))"
  shows "db_ok g'"
  using replayDeadJob_effect [OF assms(2)] assms(1) ReplayDead_ok [OF assms(1), of i "env_now e"] by (auto simp: ReplayDead_def)

lemma filter_unique_one:
  assumes "unique_on k xs"
  shows "length (filter (\<lambda>x. k x = a \<and> P x) xs) = (if \<exists>x \<in> set xs. k x = a \<and> P x then 1 else 0)"
  using assms
proof (induction xs)
  case (Cons x xs)
  have "filter (\<lambda>y. k y = a \<and> P y) xs = []" if "k x = a"
    using Cons.prems that by (auto simp: filter_empty_conv)
  with Cons show ?case by auto
qed simp

end
