(* ===== verification/System.thy ===== *)
theory System
  imports Admin
begin

text \<open>
  The whole service as a transition system: HTTP requests, claims and deliveries of any
  number of workers, worker crashes, the operator's replay and migration, and the passing
  of time, in any order and under any fault schedule. A step is one transaction, or one
  statement sent outside a transaction. A delivery is the step in which its outcome is written: it reads no
  table before, so it may have begun, and asked SAP, at any time \<open>w_now\<close> before, with other steps in between. The system refines a specification that only knows
  which orders were stored and which status each payment has.
\<close>

section \<open>The transition system\<close>

text \<open>
  What a delivery asked SAP and what SAP answered. The state keeps these exchanges, and the number of
  replays, as its history: no step reads them.
\<close>

record exchange =
  ex_key :: string
  ex_order :: OrderDetails
  ex_answer :: "go_error + string"

definition exchanges :: "world \<Rightarrow> action list \<Rightarrow> exchange list" where
  "exchanges w acts = List.map_filter
     (\<lambda>a. case a of CallSAP k x \<Rightarrow> Some \<lparr>ex_key = k, ex_order = x, ex_answer = w_sap w k x\<rparr> | Logged _ \<Rightarrow> None) acts"

record system =
  sys_db :: pg
  sys_now :: time
  sys_claims :: "Job list"
  sys_sap :: "exchange list"
  sys_replays :: nat

definition sys_initial :: "system \<Rightarrow> bool" where
  "sys_initial s \<longleftrightarrow> sys_db s = empty_pg \<and> sys_claims s = [] \<and> sys_sap s = [] \<and> sys_replays s = 0"

inductive sys_step :: "go_lib \<Rightarrow> Config \<Rightarrow> system \<Rightarrow> system \<Rightarrow> bool" for lib :: go_lib and cfg :: Config where
  request: "env_now e = sys_now s \<Longrightarrow> NewRouter lib cfg r req e (sys_db s, fs) = (reply, (g, fs')) \<Longrightarrow>
    sys_step lib cfg s (s\<lparr>sys_db := g\<rparr>)"
| claim: "env_now e = sys_now s \<Longrightarrow> ClaimDue e (sys_db s, fs) = (Inr (Some job), (g, fs')) \<Longrightarrow>
    sys_step lib cfg s (s\<lparr>sys_db := g, sys_claims := job # sys_claims s\<rparr>)"
| claim_nothing: "env_now e = sys_now s \<Longrightarrow> ClaimDue e (sys_db s, fs) = (r, (g, fs')) \<Longrightarrow> (\<forall>job. r \<noteq> Inr (Some job)) \<Longrightarrow>
    sys_step lib cfg s (s\<lparr>sys_db := g\<rparr>)"
| deliver_job: "job \<in> set (sys_claims s) \<Longrightarrow> env_now e = sys_now s \<Longrightarrow> w_now w \<le> sys_now s \<Longrightarrow>
    deliver w cfg job e (sys_db s, fs) = (acts, (g, fs')) \<Longrightarrow>
    sys_step lib cfg s (s\<lparr>sys_db := g, sys_claims := remove1 job (sys_claims s), sys_sap := sys_sap s @ exchanges w acts\<rparr>)"
| crash: "job \<in> set (sys_claims s) \<Longrightarrow> sys_step lib cfg s (s\<lparr>sys_claims := remove1 job (sys_claims s)\<rparr>)"
| replay: "env_now e = sys_now s \<Longrightarrow> replayDeadJob i e (sys_db s, fs) = (r, (g, fs')) \<Longrightarrow>
    sys_step lib cfg s (s\<lparr>sys_db := g, sys_replays := Suc (sys_replays s)\<rparr>)"
| migrate: "env_now e = sys_now s \<Longrightarrow> Migrate e (sys_db s, fs) = (r, (g, fs')) \<Longrightarrow>
    sys_step lib cfg s (s\<lparr>sys_db := g\<rparr>)"
| tick: "sys_now s \<le> t \<Longrightarrow> sys_step lib cfg s (s\<lparr>sys_now := t\<rparr>)"

inductive_cases sys_stepE: "sys_step lib cfg s t"

interpretation order_sync: invariant_system sys_initial "sys_step lib cfg" "\<lambda>s. db_ok (sys_db s)"
  for lib cfg
proof unfold_locales
  show "db_ok (sys_db s)" if "sys_initial s" for s
    using that by (simp add: sys_initial_def db_ok_empty)
  show "db_ok (sys_db t)" if "db_ok (sys_db s)" and "sys_step lib cfg s t" for s t
    using that(2)
    by cases (use that(1) in \<open>auto intro: NewRouter_ok ClaimDue_ok deliver_ok replayDeadJob_ok Migrate_ok\<close>)
qed

section \<open>The specification\<close>

record ledger =
  ld_orders :: "string \<Rightarrow> (string \<times> OrderItem multiset) option"
  ld_payments :: "string \<Rightarrow> PaymentStatus option"

text \<open>An order is stored once; a payment's status may change until it is final.\<close>

inductive ledger_step :: "ledger \<Rightarrow> ledger \<Rightarrow> bool" where
  store_order: "ld_orders a ref = None \<Longrightarrow>
    ledger_step a (a\<lparr>ld_orders := (ld_orders a)(ref \<mapsto> (email, items))\<rparr>)"
| set_payment: "(\<forall>f. ld_payments a ref = Some f \<longrightarrow> \<not> finalized f) \<Longrightarrow> payment_status_ok st \<Longrightarrow>
    ledger_step a (a\<lparr>ld_payments := (ld_payments a)(ref \<mapsto> st)\<rparr>)"

definition ledger_of :: "pg \<Rightarrow> ledger" where
  "ledger_of g = \<lparr>ld_orders = (\<lambda>ref. map_option (\<lambda>w. (o_customer_email w, mset (items_of_order g (o_id w)))) (find_order_row g ref)),
     ld_payments = payment_status g\<rparr>"

lemma ledger_of_cong:
  assumes "\<And>ref. map_option (\<lambda>w. (o_id w, o_customer_email w)) (find_order_row g' ref)
      = map_option (\<lambda>w. (o_id w, o_customer_email w)) (find_order_row g ref)"
    and "order_items g' = order_items g" and "payments g' = payments g"
  shows "ledger_of g' = ledger_of g"
proof -
  have "map_option (\<lambda>w. (o_customer_email w, mset (items_of_order g' (o_id w)))) (find_order_row g' ref)
      = map_option (\<lambda>w. (o_customer_email w, mset (items_of_order g (o_id w)))) (find_order_row g ref)" for ref
    using assms(1) [of ref] assms(2)
    by (cases "find_order_row g ref"; cases "find_order_row g' ref") (auto simp: items_of_order_def)
  then show ?thesis using assms(3) by (simp add: ledger_of_def payment_status_def find_payment_row_def fun_eq_iff)
qed

lemma ledger_of_same_tables: "same_tables g' g \<Longrightarrow> ledger_of g' = ledger_of g"
  by (rule ledger_of_cong) (simp_all add: same_tables_def find_order_row_def)

lemma ledger_of_business: "same_business g g' \<Longrightarrow> ledger_of g' = ledger_of g"
  by (rule ledger_of_cong) (auto simp: same_business_def)

lemma ledger_of_outbox:
  assumes "orders g' = update_where P f (orders g)"
    and "\<And>r. o_id (f r) = o_id r \<and> o_order_id (f r) = o_order_id r \<and> o_customer_email (f r) = o_customer_email r"
    and "order_items g' = order_items g" and "payments g' = payments g"
  shows "ledger_of g' = ledger_of g"
proof (rule ledger_of_cong)
  fix ref
  have "find_order_row g' ref = map_option (\<lambda>x. if P x then f x else x) (find_order_row g ref)"
    using assms(1,2) by (simp add: find_order_row_def find_update_where_key [where k = o_order_id])
  then show "map_option (\<lambda>w. (o_id w, o_customer_email w)) (find_order_row g' ref)
      = map_option (\<lambda>w. (o_id w, o_customer_email w)) (find_order_row g ref)"
    using assms(2) by (cases "find_order_row g ref") auto
qed (use assms(3,4) in simp_all)

section \<open>Refinement\<close>

text \<open>A stored order is one step of the specification.\<close>

lemma ledger_order_arrived:
  assumes ok: "db_ok g" and arr: "order_arrived g row due g'"
  shows "ledger_of g' = (ledger_of g)\<lparr>ld_orders := (ld_orders (ledger_of g))(o_order_id row \<mapsto>
      (o_customer_email row, mset (items_of_order g' (o_id row))))\<rparr>"
    and "ledger_step (ledger_of g) (ledger_of g')"
proof -
  from arr obtain now rows where new: "find_order_row g (o_order_id row) = None" "o_id row = orders_seq g + 1"
    and ords: "orders g' = orders g @ [row]" and items: "order_items g' = order_items g @ rows" "\<forall>x \<in> set rows. i_order_id x = o_id row"
    and pays: "payments g' = update_where (\<lambda>p. p_reference_order_id p = o_order_id row \<and> p_order_id p = None)
        (\<lambda>p. p\<lparr>p_order_id := Some (o_id row), p_updated_at := now\<rparr>) (payments g)"
    by (auto simp: order_arrived_def)
  from ok have wf: "orders_wf g" by (simp add: db_ok_def)
  have old: "items_of_order g' (o_id w) = items_of_order g (o_id w)" if "find_order_row g ref = Some w" for ref w
  proof -
    from that wf new(2) have "o_id w \<noteq> o_id row" by (auto simp: orders_wf_def dest!: find_order_row_Some)
    then show ?thesis using items by (auto simp: items_of_order_def filter_empty_conv)
  qed
  have find: "find_order_row g' ref = (if ref = o_order_id row then Some row else find_order_row g ref)" for ref
    using new(1) by (auto simp: find_order_row_def ords find_snoc split: option.splits)
  have "ld_orders (ledger_of g') = (ld_orders (ledger_of g))(o_order_id row \<mapsto>
      (o_customer_email row, mset (items_of_order g' (o_id row))))"
  proof
    fix ref
    show "ld_orders (ledger_of g') ref = ((ld_orders (ledger_of g))(o_order_id row \<mapsto>
        (o_customer_email row, mset (items_of_order g' (o_id row))))) ref"
      by (cases "find_order_row g ref") (auto simp: ledger_of_def find old)
  qed
  moreover have "ld_payments (ledger_of g') = ld_payments (ledger_of g)"
    by (simp add: ledger_of_def linked_lookup(1) [OF pays])
  ultimately show eq: "ledger_of g' = (ledger_of g)\<lparr>ld_orders := (ld_orders (ledger_of g))(o_order_id row \<mapsto>
      (o_customer_email row, mset (items_of_order g' (o_id row))))\<rparr>" by simp
  have "ld_orders (ledger_of g) (o_order_id row) = None" using new(1) by (simp add: ledger_of_def)
  then show "ledger_step (ledger_of g) (ledger_of g')" unfolding eq by (rule store_order)
qed

text \<open>An applied payment event is one step of the specification.\<close>

lemma ledger_payment_applied:
  assumes ok: "db_ok g" and app: "payment_applied g ref p due g'"
  shows "ledger_of g' = (ledger_of g)\<lparr>ld_payments := (ld_payments (ledger_of g))(ref \<mapsto> p_status p)\<rparr>"
    and "ledger_step (ledger_of g) (ledger_of g')"
proof -
  from app obtain f where ords: "orders g' = update_where (\<lambda>r. o_order_id r = ref) f (orders g)"
    and f: "\<forall>r. o_id (f r) = o_id r \<and> o_order_id (f r) = o_order_id r \<and> o_customer_email (f r) = o_customer_email r"
    and rest: "order_items g' = order_items g" "payment_set g ref p g'" "payment_status_ok (p_status p)"
      "\<forall>f. payment_status g ref = Some f \<longrightarrow> \<not> finalized f"
    by (auto simp: payment_applied_def)
  have "ld_orders (ledger_of g') = ld_orders (ledger_of (g'\<lparr>payments := payments g\<rparr>))"
    by (simp add: ledger_of_def items_of_order_def find_order_row_def)
  also have "ledger_of (g'\<lparr>payments := payments g\<rparr>) = ledger_of g"
    using ords f rest(1) by (intro ledger_of_outbox [where f = f]) auto
  finally have "ld_orders (ledger_of g') = ld_orders (ledger_of g)" .
  moreover have "payments_ok g" using ok by (simp add: db_ok_def)
  then have "ld_payments (ledger_of g') = (ld_payments (ledger_of g))(ref \<mapsto> p_status p)"
    by (auto simp: ledger_of_def payment_status_def payment_set_lookup [OF rest(2)] fun_eq_iff)
  ultimately show eq: "ledger_of g' = (ledger_of g)\<lparr>ld_payments := (ld_payments (ledger_of g))(ref \<mapsto> p_status p)\<rparr>" by simp
  have "\<forall>f. ld_payments (ledger_of g) ref = Some f \<longrightarrow> \<not> finalized f" using rest(4) by (simp add: ledger_of_def)
  then show "ledger_step (ledger_of g) (ledger_of g')" unfolding eq using rest(3) by (rule set_payment)
qed

lemma ledger_jobs: "ledger_of (g\<lparr>sync_jobs := js\<rparr>) = ledger_of g"
  by (rule ledger_of_cong) (simp_all add: find_order_row_def)

lemma mark_failed_ledger:
  assumes "mark_failed_logged w code job st d m e (g, fs) = (acts, (g', fs'))"
  shows "ledger_of g' = ledger_of g"
  using assms
  by (auto simp: mark_failed_logged_def MarkFailed_def wrapf_def statement_def q_MarkFailed_def ledger_jobs
      split: prod.splits sum.splits fault.splits if_splits)

lemma MarkSynced_ledger:
  assumes "MarkSynced i sap e (g, fs) = (r, (g', fs'))"
  shows "ledger_of g' = ledger_of g"
  using assms
proof (cases rule: MarkSynced_effect)
  case effective
  then show ?thesis
    by (intro ledger_of_outbox [where P = "\<lambda>r. \<exists>j \<in> set (sync_jobs g). j_id j = i \<and> j_order_id j = o_id r"
          and f = "\<lambda>r. r\<lparr>o_sap_id := Some sap, o_updated_at := env_now e\<rparr>"])
      (auto simp: q_MarkSynced_def)
qed simp

lemma deliver_ledger:
  assumes "deliver w cfg job e (g, fs) = (acts, (g', fs'))"
  shows "ledger_of g' = ledger_of g"
  by (rule deliver_preserves [OF assms, where P = "\<lambda>h. ledger_of h = ledger_of g"])
    (auto dest: mark_failed_ledger MarkSynced_ledger)

lemma ClaimDue_ledger:
  assumes "ClaimDue e (g, fs) = (r, (g', fs'))"
  shows "ledger_of g' = ledger_of g"
proof -
  from assms have "same_tables g' g \<or> (\<exists>x. runs claim_work e g x g')"
    unfolding ClaimDue_def by (rule in_transaction_atomic)
  then show ?thesis by (auto simp: ledger_of_same_tables ledger_jobs elim!: runs_claim_work)
qed

lemma replayDeadJob_ledger: "replayDeadJob i e (g, fs) = (r, (g', fs')) \<Longrightarrow> ledger_of g' = ledger_of g"
  by (auto dest!: replayDeadJob_effect simp: ledger_jobs)

lemma Migrate_ledger: "Migrate e (g, fs) = (r, (g', fs')) \<Longrightarrow> ledger_of g' = ledger_of g"
  by (auto simp: Migrate_def wrapf_def statement_def migration_sql_def find_order_row_def
      intro!: ledger_of_cong split: prod.splits sum.splits fault.splits)

text \<open>One request is at most one step of the specification.\<close>

lemma processShop_ledger:
  assumes "db_ok g" and "runs (processShop p cfg) e g x g'"
  shows "ledger_of g' = ledger_of g \<or> ledger_step (ledger_of g) (ledger_of g')"
  using assms(2,1)
proof (cases rule: runs_processShop)
  case (duplicate st ev k)
  have "ledger_of g' = ledger_of g" by (rule ledger_of_cong) (simp_all add: duplicate(4) find_order_row_def)
  then show ?thesis ..
next
  case (stored row rows)
  then show ?thesis using ledger_order_arrived(2) [OF assms(1)] by blast
qed

lemma processPayment_ledger:
  assumes "db_ok g" and "runs (processPayment upper parse_time p cfg) e g x g'"
  shows "ledger_of g' = ledger_of g \<or> ledger_step (ledger_of g) (ledger_of g')"
  using assms
proof (cases rule: runs_processPayment)
  case duplicate
  then show ?thesis by (simp add: ledger_of_business)
next
  case applied
  then show ?thesis using ledger_payment_applied(2) [OF assms(1)] by (auto simp: payment_event_applied_def)
qed

lemma shopWebhookHandler_ledger:
  assumes "db_ok g" and "shopWebhookHandler lib cfg req e (g, fs) = (reply, (g', fs'))"
  shows "ledger_of g' = ledger_of g \<or> ledger_step (ledger_of g) (ledger_of g')"
  using shop_endpoint.all_or_nothing [OF assms(2) [unfolded shopWebhookHandler_def]] processShop_ledger [OF assms(1)]
  by (blast dest: ledger_of_same_tables)

lemma paymentWebhookHandler_ledger:
  assumes "db_ok g" and "paymentWebhookHandler lib cfg req e (g, fs) = (reply, (g', fs'))"
  shows "ledger_of g' = ledger_of g \<or> ledger_step (ledger_of g) (ledger_of g')"
  using payment_endpoint.all_or_nothing [OF assms(2) [unfolded paymentWebhookHandler_def]] processPayment_ledger [OF assms(1)]
  by (blast dest: ledger_of_same_tables)

lemma NewRouter_ledger:
  assumes ok: "db_ok g" and "NewRouter lib cfg r req e (g, fs) = (reply, (g', fs'))"
  shows "ledger_of g' = ledger_of g \<or> ledger_step (ledger_of g) (ledger_of g')"
  using assms(2) shopWebhookHandler_ledger [OF ok] paymentWebhookHandler_ledger [OF ok]
  by (cases r) (auto simp: NewRouter_def webhookAuth_def split: if_splits dest: orderStatusHandler_reads)

interpretation order_sync: refinement_system sys_initial "sys_step lib cfg" "\<lambda>s. db_ok (sys_db s)" "\<lambda>s. ledger_of (sys_db s)" ledger_step
  for lib cfg
proof unfold_locales
  show "ledger_of (sys_db t) = ledger_of (sys_db s) \<or> ledger_step (ledger_of (sys_db s)) (ledger_of (sys_db t))"
    if ok: "db_ok (sys_db s)" and "sys_step lib cfg s t" for s t
    using that(2)
    by cases (auto dest: NewRouter_ledger [OF ok] ClaimDue_ledger deliver_ledger replayDeadJob_ledger Migrate_ledger)
qed

section \<open>What the specification promises\<close>

lemma ledger_step_final:
  assumes "ledger_step a b" and "ld_payments a ref = Some f" and "finalized f"
  shows "ld_payments b ref = Some f"
  using assms by (cases rule: ledger_step.cases) auto

lemma ledger_steps_final: "ledger_step\<^sup>*\<^sup>* a b \<Longrightarrow> ld_payments a ref = Some f \<Longrightarrow> finalized f \<Longrightarrow> ld_payments b ref = Some f"
  by (induction rule: rtranclp_induct) (auto intro: ledger_step_final)

lemma ledger_step_order: "ledger_step a b \<Longrightarrow> ld_orders a ref = Some x \<Longrightarrow> ld_orders b ref = Some x"
  by (cases rule: ledger_step.cases) auto

lemma ledger_steps_order: "ledger_step\<^sup>*\<^sup>* a b \<Longrightarrow> ld_orders a ref = Some x \<Longrightarrow> ld_orders b ref = Some x"
  by (induction rule: rtranclp_induct) (auto intro: ledger_step_order)

end
