(* ===== verification/Redelivery.thy ===== *)
theory Redelivery
  imports System
begin

text \<open>
  Providers deliver webhooks at least once. This theory shows that a webhook that was
  processed can be delivered again at any later time, after any activity of the rest of
  the system: it is answered as a duplicate and changes nothing.
\<close>

section \<open>Stored events stay\<close>

definition events_le :: "pg \<Rightarrow> pg \<Rightarrow> bool" where
  "events_le g h \<longleftrightarrow> (\<forall>t i p. stored_event g t i = Some p \<longrightarrow> stored_event h t i = Some p)"

text \<open>Every operation but \<open>Record\<close> leaves the stored events as they are, and all leave the catalogue.\<close>

definition keeps_events :: "'a op \<Rightarrow> bool" where
  "keeps_events m \<longleftrightarrow> (\<forall>e g x g'. runs m e g x g' \<longrightarrow>
     stored_event g' = stored_event g \<and> sku_classifications g' = sku_classifications g)"

named_theorems keeps_intros \<open>operations that keep stored events\<close>

lemma events_le_refl [simp]: "events_le g g"
  by (simp add: events_le_def)

lemma events_le_trans: "events_le g h \<Longrightarrow> events_le h k \<Longrightarrow> events_le g k"
  by (simp add: events_le_def)

lemma events_le_same: "webhook_events h = webhook_events g \<Longrightarrow> events_le g h"
  by (simp add: events_le_def stored_event_def)

lemma keeps_simple [keeps_intros]: "keeps_events (ret x)" "keeps_events (reader h)" "keeps_events (throw err)"
  by (simp_all add: keeps_events_def)

lemma keeps_wrapf [keeps_intros]: "keeps_events m \<Longrightarrow> keeps_events (wrapf f a m)"
  by (simp add: keeps_events_def)

lemma keeps_bind_op [keeps_intros]: "keeps_events m \<Longrightarrow> (\<And>x. keeps_events (f x)) \<Longrightarrow> keeps_events (bind_op m f)"
  unfolding keeps_events_def by (blast elim: runs_bind_op intro: trans)

lemma keeps_statement:
  "(\<And>now g x g'. q now g = Inr (x, g') \<Longrightarrow> webhook_events g' = webhook_events g \<and> sku_classifications g' = sku_classifications g) \<Longrightarrow>
   keeps_events (statement q)"
  by (auto simp: keeps_events_def stored_event_def fun_eq_iff)

lemma keeps_indexed_statement:
  "(\<And>index_row now g x g'. q index_row now g = Inr (x, g') \<Longrightarrow>
      webhook_events g' = webhook_events g \<and> sku_classifications g' = sku_classifications g) \<Longrightarrow>
   keeps_events (indexed_statement q)"
  by (auto simp: keeps_events_def stored_event_def fun_eq_iff)

lemma keeps_event_ops [keeps_intros]:
  "keeps_events (EventRepository_FindPayload t i)" "keeps_events (EventRepository_MarkProcessed t i)"
  "keeps_events (EventRepository_MarkPaymentEventsProcessed r)"
  by (auto simp: keeps_events_def events.mark_stored events.mark_reference_stored runs_FindPayload,
      auto simp: EventRepository_MarkProcessed_def EventRepository_MarkPaymentEventsProcessed_def MarkEventProcessed_def
        q_MarkPaymentEventsProcessed_def)

lemma Record_catalogue: "runs (EventRepository_Record i t p) e g b g' \<Longrightarrow> sku_classifications g' = sku_classifications g"
  by (auto simp: InsertEvent_def dest!: runs_Record split: if_splits)

lemma keeps_order_ops [keeps_intros]:
  "keeps_events (OrderRepository_Create r m)" "keeps_events (OrderRepository_FindID r)" "keeps_events (OrderRepository_ListItems k)"
  "keeps_events (OrderRepository_FindStatus r)" "keeps_events (OrderRepository_MarkPaid k pa)"
  "keeps_events (OrderRepository_ScheduleSync k d)" "keeps_events (OrderRepository_Cancel k)"
  "keeps_events (SKUClassifier_HasHardware skus)"
  by (auto simp: repo_defs intro!: keeps_intros keeps_statement keeps_indexed_statement split: option.split)
    (auto simp: query_defs Let_def split: if_splits option.splits)

lemma keeps_payment_ops [keeps_intros]:
  "keeps_events (PaymentRepository_Upsert r st oi pt)" "keeps_events (PaymentRepository_Cancel r oi)"
  "keeps_events (PaymentRepository_Find r)" "keeps_events (PaymentRepository_LinkOrder r k)"
  by (auto simp: repo_defs intro!: keeps_intros keeps_statement keeps_indexed_statement split: option.split)
    (auto simp: UpsertPayment_def CancelPayment_def upsert_payment_row_def FindPayment_def LinkPaymentOrder_def select_def Let_def
      split: if_splits option.splits)

lemma keeps_AddItems [keeps_intros]: "keeps_events (OrderRepository_AddItems i items)"
  by (induction items)
    (auto intro!: keeps_intros keeps_statement simp: InsertItem_def split: if_splits option.splits)

lemma keeps_Find [keeps_intros]: "keeps_events (OrderRepository_Find r)"
  by (auto simp: keeps_events_def dest: runs_Find)

lemma keeps_services [keeps_intros]:
  "keeps_events (shopResult i r m)" "keeps_events (paymentResult i r m oi)" "keeps_events (MarkPaidAndSchedule cfg k items pa)"
  "keeps_events (findOrderID r)"
  by (auto simp: shopResult_def paymentResult_def MarkPaidAndSchedule_def findOrderID_def Let_def intro!: keeps_intros split: option.split)

lemma keeps_payment_steps [keeps_intros]:
  "keeps_events (apply_payment parse_time p cfg)" "keeps_events (replayed_payment_event upper p)"
  "keeps_events (finalized_payment p st)"
  by (auto simp: replayed_payment_event_def finalized_payment_def apply_payment_def
      cancelPayment_def completePayment_def intro!: keeps_intros split: option.split)

lemma keeps_shop_steps [keeps_intros]:
  "keeps_events (replayed_shop_event p)" "keeps_events (existing_shop_order p)" "keeps_events (store_shop_order p i cfg)"
  by (auto simp: replayed_shop_event_def existing_shop_order_def store_shop_order_def
      reconcilePayment_def settle_order_def intro!: keeps_intros split: option.split)

text \<open>A webhook adds its own event if that is new, and no other.\<close>

lemma recorded_then_kept:
  assumes "runs (bind_op (wrapf f a (EventRepository_Record i t p)) m) e g x g'" and "\<And>b. keeps_events (m b)"
  shows "stored_event g' t' i' = (if stored_event g t i = None \<and> t' = t \<and> i' = i then Some p else stored_event g t' i')"
    and "sku_classifications g' = sku_classifications g"
proof -
  from assms(1) obtain b g0 where rec: "runs (EventRepository_Record i t p) e g b g0" and "runs (m b) e g0 x g'"
    by (auto elim!: runs_bind_op)
  with assms(2) have "stored_event g' = stored_event g0" "sku_classifications g' = sku_classifications g0"
    unfolding keeps_events_def by blast+
  with events.record_stores [OF rec, of t' i'] events.record_fresh [OF rec] Record_catalogue [OF rec]
  show "stored_event g' t' i' = (if stored_event g t i = None \<and> t' = t \<and> i' = i then Some p else stored_event g t' i')"
    and "sku_classifications g' = sku_classifications g" by auto
qed

lemma processShop_events:
  "runs (processShop p cfg) e g x g' \<Longrightarrow> stored_event g' t i =
     (if stored_event g EventTypeShop (sw_EventID p) = None \<and> t = EventTypeShop \<and> i = sw_EventID p then Some (ShopPayload p) else stored_event g t i)"
  unfolding processShop_def by (erule recorded_then_kept(1)) (auto intro!: keeps_intros)

lemma processPayment_events:
  "runs (processPayment upper parse_time p cfg) e g x g' \<Longrightarrow> stored_event g' t i =
     (if stored_event g EventTypePayment (pw_EventID p) = None \<and> t = EventTypePayment \<and> i = pw_EventID p then Some (PaymentPayload p) else stored_event g t i)"
  unfolding processPayment_def by (erule recorded_then_kept(1)) (auto intro!: keeps_intros split: option.split)

lemma processShop_catalogue: "runs (processShop p cfg) e g x g' \<Longrightarrow> sku_classifications g' = sku_classifications g"
  unfolding processShop_def by (erule recorded_then_kept(2)) (auto intro!: keeps_intros)

lemma process_events_le:
  "runs (processShop p cfg) e g x g' \<Longrightarrow> events_le g g'"
  "runs (processPayment upper parse_time q cfg) e g x g' \<Longrightarrow> events_le g g'"
  by (auto simp: events_le_def processShop_events processPayment_events)

lemma events_le_tables: "same_tables g' g \<Longrightarrow> events_le g g'"
  by (rule events_le_same) (simp add: same_tables_def)

lemma NewRouter_events:
  assumes "NewRouter lib cfg r req e (g, fs) = (reply, (g', fs'))"
  shows "events_le g g'"
proof -
  have "events_le g g'" if "shopWebhookHandler lib cfg req e (g, fs) = (reply, (g', fs'))"
    using shop_endpoint.all_or_nothing [OF that [unfolded shopWebhookHandler_def]]
    by (blast dest: events_le_tables process_events_le)
  moreover have "events_le g g'" if "paymentWebhookHandler lib cfg req e (g, fs) = (reply, (g', fs'))"
    using payment_endpoint.all_or_nothing [OF that [unfolded paymentWebhookHandler_def]]
    by (blast dest: events_le_tables process_events_le)
  ultimately show ?thesis
    using assms by (cases r) (auto simp: NewRouter_def webhookAuth_def split: if_splits dest: orderStatusHandler_reads)
qed

text \<open>The worker and the operator do not touch the event table.\<close>

lemma mark_failed_events: "mark_failed_logged w code job st d m e (g, fs) = (acts, (g', fs')) \<Longrightarrow> webhook_events g' = webhook_events g"
  by (auto simp: mark_failed_logged_def MarkFailed_def wrapf_def statement_def q_MarkFailed_def
      split: prod.splits sum.splits fault.splits if_splits)

lemma MarkSynced_events: "MarkSynced i sap e (g, fs) = (r, (g', fs')) \<Longrightarrow> webhook_events g' = webhook_events g"
  by (erule MarkSynced_effect) (auto simp: q_MarkSynced_def)

lemma deliver_events:
  assumes "deliver w cfg job e (g, fs) = (acts, (g', fs'))"
  shows "webhook_events g' = webhook_events g"
  by (rule deliver_preserves [OF assms, where P = "\<lambda>h. webhook_events h = webhook_events g"])
    (auto dest: mark_failed_events MarkSynced_events)

lemma ClaimDue_events:
  assumes "ClaimDue e (g, fs) = (r, (g', fs'))"
  shows "webhook_events g' = webhook_events g"
  using in_transaction_atomic [OF assms [unfolded ClaimDue_def]]
  by (auto simp: same_tables_def elim!: runs_claim_work)

lemma sys_step_events: "sys_step lib cfg s t \<Longrightarrow> events_le (sys_db s) (sys_db t)"
proof (erule sys_stepE)
  fix e i fs r g fs'
  assume "replayDeadJob i e (sys_db s, fs) = (r, g, fs')" and "t = s\<lparr>sys_db := g, sys_replays := Suc (sys_replays s)\<rparr>"
  then show ?thesis by (auto intro!: events_le_same dest: replayDeadJob_effect)
next
  fix e fs r g fs'
  assume "Migrate e (sys_db s, fs) = (r, g, fs')" and "t = s\<lparr>sys_db := g\<rparr>"
  then show ?thesis
    by (auto simp: Migrate_def wrapf_def statement_def migration_sql_def
        intro!: events_le_same split: prod.splits sum.splits fault.splits)
qed (auto dest: NewRouter_events ClaimDue_events deliver_events intro: events_le_same)

lemma run_events: "(sys_step lib cfg)\<^sup>*\<^sup>* s t \<Longrightarrow> events_le (sys_db s) (sys_db t)"
  by (induction rule: rtranclp_induct) (auto intro: events_le_trans sys_step_events)

section \<open>Evaluation of a repeated event\<close>

lemma Record_repeated:
  "event_text_ok i p \<Longrightarrow> stored_event g t i \<noteq> None \<Longrightarrow> EventRepository_Record i t p e (g, []) = (Inr False, (g, []))"
  by (auto simp: EventRepository_Record_def InsertEvent_def stored_event_None session_simps)

lemma Find_eval:
  "OrderRepository_Find r e (g, []) = (Inr (map_option (\<lambda>w. \<lparr>so_ID = o_id w, so_CustomerEmail = o_customer_email w,
     so_Items = items_of_order g (o_id w)\<rparr>) (find_order_row g r)), (g, []))"
  by (cases "find_order_row g r")
    (simp_all add: OrderRepository_Find_def OrderRepository_ListItems_def FindOrder_def FindItems_def select_def session_simps)

lemma shopResult_eval:
  "text_ok r \<Longrightarrow> find_order_row g r = Some w \<Longrightarrow> shopResult i r m e (g, []) =
     (Inr ((webhook_result m i r)\<lparr>wr_PaymentStatus := os_PaymentStatus (status_of_order g w),
        wr_OrderStatus := o_payment_status w, wr_SyncStatus := os_SyncStatus (status_of_order g w)\<rparr>), (g, []))"
  by (simp add: shopResult_def OrderRepository_FindStatus_def FindStatus_def select_def session_simps format_status_def status_of_order_def Let_def)

lemma paymentResult_eval: "text_ok r \<Longrightarrow> \<exists>x. paymentResult i r m k e (g, []) = (Inr x, (g, []))"
  by (cases k) (simp_all add: paymentResult_def OrderRepository_FindStatus_def FindStatus_def select_def session_simps)

lemma shop_replay_eval:
  assumes texts: "event_text_ok (sw_EventID p) (ShopPayload p)"
    and ev: "stored_event g EventTypeShop (sw_EventID p) \<noteq> None" and "find_order_row g (sw_OrderID p) = Some w"
    and "o_customer_email w = sw_CustomerEmail p" and "mset (items_of_order g (o_id w)) = mset (sw_Items p)"
  shows "\<exists>x. processShop p cfg e (g, []) = (Inr x, (g, [])) \<and> wr_Duplicate x \<and> wr_OrderStatus x = o_payment_status w"
  using assms(3-) event_texts(1) [OF texts]
  by (simp add: processShop_def replayed_shop_event_def Record_repeated [OF texts ev] Find_eval shopResult_eval bind_op_def wrapf_def
      ret_def sameOrderPayload_iff)

lemma payment_replay_eval:
  assumes texts: "event_text_ok (pw_EventID p) (PaymentPayload p)"
    and ev: "stored_event g EventTypePayment (pw_EventID p) = Some q"
    and same: "samePaymentPayload (NormalizePaymentWebhook upper (unmarshal_payment q)) p"
    and st: "payment_status g (pw_ReferenceOrderID p) = Some st"
  shows "\<exists>x. processPayment upper parse_time p cfg e (g, []) = (Inr x, (g, [])) \<and> wr_Duplicate x \<and> wr_PaymentStatus x = st"
proof -
  from st obtain r where r: "find_payment_row g (pw_ReferenceOrderID p) = Some r" "p_status r = st"
    by (auto simp: payment_status_def)
  have "EventRepository_FindPayload EventTypePayment (pw_EventID p) e (g, []) = (Inr (Some q), (g, []))"
    using ev by (simp add: EventRepository_FindPayload_def FindEventPayload_def select_def session_simps stored_event_def)
  moreover have "PaymentRepository_Find (pw_ReferenceOrderID p) e (g, []) = (Inr (Some (state_of_payment r)), (g, []))"
    using r by (simp add: PaymentRepository_Find_def FindPayment_def select_def session_simps)
  moreover obtain x where "paymentResult (pw_EventID p) (pw_ReferenceOrderID p) ''Payment event already processed''
      (ps_OrderID (state_of_payment r)) e (g, []) = (Inr x, (g, []))"
    using paymentResult_eval [OF event_texts(2) [OF texts]] by blast
  moreover have "EventRepository_Record (pw_EventID p) EventTypePayment (PaymentPayload p) e (g, []) = (Inr False, (g, []))"
    using ev by (intro Record_repeated texts) simp
  ultimately show ?thesis
    using same r(2)
    by (simp add: processPayment_def replayed_payment_event_def bind_op_def wrapf_def ret_def state_of_payment_def)
qed

section \<open>What a processed webhook leaves behind\<close>

definition exact_price :: "OrderItem \<Rightarrow> bool" where
  "exact_price item \<longleftrightarrow> numeric_12_2 (Price item) = Some (Price item)"

lemma stored_item_exact: "exact_price item \<Longrightarrow> stored_item item = Some y \<Longrightarrow> y = item"
  by (auto simp: exact_price_def stored_item_def split: if_splits)

lemma map_stored_exact:
  "\<forall>x \<in> set xs. exact_price x \<Longrightarrow> map stored_item xs = map (\<lambda>r. Some (item_of_row r)) rows \<Longrightarrow> map item_of_row rows = xs"
proof (induction xs arbitrary: rows)
  case (Cons x xs)
  then show ?case by (cases rows) (auto dest: stored_item_exact)
qed simp

text \<open>A webhook that was processed has texts the database stores.\<close>

lemma processed_texts:
  "runs (processShop p cfg) e g x g' \<Longrightarrow> event_text_ok (sw_EventID p) (ShopPayload p)"
  "runs (processPayment upper parse_time q cfg) e g x g' \<Longrightarrow> event_text_ok (pw_EventID q) (PaymentPayload q)"
  unfolding processShop_def processPayment_def by (auto dest: recorded_texts elim!: runs_bind_op)

lemma recorded_shop_event:
  "runs (processShop p cfg) e g x g' \<Longrightarrow> stored_event g' EventTypeShop (sw_EventID p) \<noteq> None"
  by (auto simp: processShop_events)

lemma stored_shop_order:
  assumes ok: "db_ok g" and run: "runs (processShop p cfg) e g x g'" and "\<forall>item \<in> set (sw_Items p). exact_price item"
  shows "ld_orders (ledger_of g') (sw_OrderID p) = Some (sw_CustomerEmail p, mset (sw_Items p))"
  using run ok
proof (cases rule: runs_processShop)
  case (duplicate st ev k)
  then show ?thesis by (auto simp: ledger_of_def sameOrderPayload_iff find_order_row_def items_of_order_def)
next
  case (stored row rows)
  have "orders_wf g" using ok by (simp add: db_ok_def)
  then have "filter (\<lambda>r. i_order_id r = o_id row) (order_items g) = []"
    using stored(1) by (auto simp: orders_wf_def order_arrived_def filter_empty_conv)
  then have "items_of_order g' (o_id row) = map item_of_row rows"
    using stored(5,6) by (auto simp: items_of_order_def)
  also have "\<dots> = sw_Items p" using assms(3) stored(4) by (rule map_stored_exact)
  finally show ?thesis
    using stored(1-3) by (auto simp: ledger_of_def order_arrived_def find_order_row_def find_snoc)
qed

lemma recorded_payment_event:
  assumes run: "runs (processPayment upper parse_time p cfg) e g x g'" and norm: "NormalizePaymentWebhook upper p = p"
  obtains q where "stored_event g' EventTypePayment (pw_EventID p) = Some q"
    "samePaymentPayload (NormalizePaymentWebhook upper (unmarshal_payment q)) p"
proof (cases "stored_event g EventTypePayment (pw_EventID p)")
  case None
  then have "stored_event g' EventTypePayment (pw_EventID p) = Some (PaymentPayload p)" by (simp add: processPayment_events [OF run])
  then show thesis by (rule that) (simp add: norm samePaymentPayload_def)
next
  case (Some q)
  from run obtain b g0 where rec: "runs (EventRepository_Record (pw_EventID p) EventTypePayment (PaymentPayload p)) e g b g0"
    and rest: "b \<or> runs (replayed_payment_event upper p) e g0 x g'"
    unfolding processPayment_def by (fastforce elim!: runs_bind_op split: if_splits)
  have b: "\<not> b" using events.record_fresh [OF rec] Some by simp
  then have "stored_event g0 EventTypePayment (pw_EventID p) = Some q"
    using events.record_stores [OF rec, of EventTypePayment "pw_EventID p"] Some by simp
  with rest b have "samePaymentPayload (NormalizePaymentWebhook upper (unmarshal_payment q)) p"
    by (auto simp: replayed_payment_event_def runs_FindPayload elim!: runs_bind_op split: option.splits if_splits)
  moreover have "stored_event g' EventTypePayment (pw_EventID p) = Some q" by (simp add: processPayment_events [OF run] Some)
  ultimately show thesis by (intro that)
qed

end
