(* ===== verification/Progress.thy ===== *)
theory Progress
  imports Redelivery
begin

text \<open>
  Progress of the services: which webhooks succeed when the database does not fail. The
  predicate \<open>completes m e g Q\<close> says that, without faults, \<open>m\<close> returns a value and a
  database that satisfy \<open>Q\<close>; its rules follow the statements of an operation.
\<close>

definition completes :: "'a op \<Rightarrow> env \<Rightarrow> pg \<Rightarrow> ('a \<Rightarrow> pg \<Rightarrow> bool) \<Rightarrow> bool" where
  "completes m e g Q \<longleftrightarrow> (\<exists>x g'. m e (g, []) = (Inr x, (g', [])) \<and> Q x g')"

named_theorems completes_intros \<open>weakest-precondition rules\<close>

lemma completesI: "m e (g, []) = (Inr x, (g', [])) \<Longrightarrow> Q x g' \<Longrightarrow> completes m e g Q"
  by (auto simp: completes_def)

lemma completes_mono: "completes m e g P \<Longrightarrow> (\<And>x g'. P x g' \<Longrightarrow> Q x g') \<Longrightarrow> completes m e g Q"
  by (auto simp: completes_def)

lemma completes_ret [completes_intros]: "Q x g \<Longrightarrow> completes (ret x) e g Q"
  by (auto simp: completes_def ret_def)

lemma completes_reader [completes_intros]: "Q (f e) g \<Longrightarrow> completes (reader f) e g Q"
  by (auto simp: completes_def reader_def)

lemma completes_bind [completes_intros]:
  "completes m e g (\<lambda>x g'. completes (f x) e g' Q) \<Longrightarrow> completes (bind_op m f) e g Q"
  by (fastforce simp: completes_def bind_op_def)

lemma completes_wrapf [completes_intros]: "completes m e g Q \<Longrightarrow> completes (wrapf fmt args m) e g Q"
  by (fastforce simp: completes_def wrapf_def)

lemma completes_statement [completes_intros]:
  "(\<exists>x g'. q (env_now e) g = Inr (x, g') \<and> Q x g') \<Longrightarrow> completes (statement q) e g Q"
  by (auto simp: completes_def session_simps)

lemma completes_indexed_statement [completes_intros]:
  "(\<exists>x g'. q (env_index_row e) (env_now e) g = Inr (x, g') \<and> Q x g') \<Longrightarrow> completes (indexed_statement q) e g Q"
  by (auto simp: completes_def session_simps)

lemma completes_runs: "completes m e g Q \<Longrightarrow> \<exists>x g'. runs m e g x g' \<and> Q x g'"
  by (auto simp: completes_def intro: runsI)

lemma Run_completes: "completes work e g Q \<Longrightarrow> completes (Run work) e g Q"
  by (auto simp: completes_def Run_eval_Inr)

section \<open>Operations that cannot fail\<close>

lemma completes_payment_Find:
  "Q (map_option state_of_payment (find_payment_row g r)) g \<Longrightarrow> completes (PaymentRepository_Find r) e g Q"
  by (auto simp: PaymentRepository_Find_def FindPayment_def select_def intro!: completes_intros)

lemma completes_ListItems: "Q (items_of_order g i) g \<Longrightarrow> completes (OrderRepository_ListItems i) e g Q"
  by (auto simp: OrderRepository_ListItems_def FindItems_def select_def intro!: completes_intros)

lemma completes_MarkProcessed:
  "(\<And>ev'. Q () (g\<lparr>webhook_events := ev'\<rparr>)) \<Longrightarrow> completes (EventRepository_MarkProcessed t ev) e g Q"
  by (auto simp: EventRepository_MarkProcessed_def MarkEventProcessed_def intro!: completes_intros)

lemma completes_MarkPaymentEvents:
  "(\<And>ev'. Q () (g\<lparr>webhook_events := ev'\<rparr>)) \<Longrightarrow> completes (EventRepository_MarkPaymentEventsProcessed r) e g Q"
  by (auto simp: EventRepository_MarkPaymentEventsProcessed_def q_MarkPaymentEventsProcessed_def intro!: completes_intros)

lemma completes_Record:
  "recordable e g i t p \<Longrightarrow> stored_event g t i = None \<Longrightarrow> (\<And>ev'. Q True (g\<lparr>webhook_events := ev'\<rparr>)) \<Longrightarrow>
     completes (EventRepository_Record i t p) e g Q"
  by (auto simp: EventRepository_Record_def InsertEvent_def recordable_def stored_event_None intro!: completes_intros)

lemma completes_HasHardware:
  assumes "Q (\<exists>sku \<in> set skus. hardware_sku g sku) g"
  shows "completes (SKUClassifier_HasHardware skus) e g Q"
proof -
  have "HasHardwareSKU skus now g = Inr (\<exists>sku \<in> set skus. hardware_sku g sku, g)" for now
    by (auto simp: HasHardwareSKU_def select_def hardware_sku_def)
  with assms show ?thesis
    by (cases "skus = []") (auto simp: SKUClassifier_HasHardware_def intro!: completes_intros)
qed

lemma completes_paymentResult:
  "text_ok r \<Longrightarrow> (\<And>x. \<not> wr_Duplicate x \<Longrightarrow> wr_Message x = m \<Longrightarrow> Q x g) \<Longrightarrow> completes (paymentResult i r m k) e g Q"
  by (auto simp: paymentResult_def OrderRepository_FindStatus_def FindStatus_def select_def webhook_result_def
      intro!: completes_intros split: option.splits)

lemma completes_shopResult:
  "text_ok r \<Longrightarrow> (\<And>x. \<not> wr_Duplicate x \<Longrightarrow> wr_Message x = m \<Longrightarrow> Q x g) \<Longrightarrow> completes (shopResult i r m) e g Q"
  by (auto simp: shopResult_def OrderRepository_FindStatus_def FindStatus_def select_def webhook_result_def
      intro!: completes_intros split: option.splits)

text \<open>The due times a job may get, at once or after the hardware delay, are timestamps.\<close>

definition schedulable :: "env \<Rightarrow> Config \<Rightarrow> bool" where
  "schedulable e cfg \<longleftrightarrow> due_ok (env_now e) 0 \<and> due_ok (env_now e) (HardwareSyncDelaySeconds cfg)"

lemma ScheduleSync_total: "due_ok now d \<Longrightarrow> order_exists g i \<Longrightarrow> \<exists>g'. ScheduleSync i d now g = Inr ((), g')"
  by (simp add: ScheduleSync_def Let_def)

lemma completes_MarkPaidAndSchedule:
  assumes "order_exists g i" and "\<And>g'. Q () g'" and sched: "schedulable e cfg"
  shows "completes (MarkPaidAndSchedule cfg i items t) e g Q"
proof -
  have paid: "order_exists (g\<lparr>orders := update_where P f (orders g)\<rparr>) i" if "\<And>r. o_id (f r) = o_id r" for P f
    using assms(1) that by (auto simp: order_exists_def bex_update_where)
  have rest: "completes (bind_op (OrderRepository_MarkPaid i t) (\<lambda>_. OrderRepository_ScheduleSync i d)) e g Q" if "due_ok (env_now e) d" for d
    unfolding OrderRepository_MarkPaid_def OrderRepository_ScheduleSync_def MarkPaid_def
    using assms(2) by (auto intro!: completes_intros ScheduleSync_total paid that)
  show ?thesis
    using sched unfolding MarkPaidAndSchedule_def Let_def schedulable_def
    by (auto intro!: completes_bind [of "SKUClassifier_HasHardware _"] completes_bind [of "ret False"] completes_HasHardware
        completes_ret rest)
qed

section \<open>A new order is accepted\<close>

lemma completes_AddItems:
  assumes "order_exists g i" and "\<forall>x \<in> set items. stored_item x \<noteq> None"
    and "\<And>rows. Q () (g\<lparr>order_items := order_items g @ rows\<rparr>)"
  shows "completes (OrderRepository_AddItems i items) e g Q"
  using assms
proof (induction items arbitrary: g)
  case Nil
  then show ?case using Nil(3) [of "[]"] by (auto intro: completes_ret)
next
  case (Cons x items)
  from Cons.prems(2) obtain y where "stored_item x = Some y" by auto
  then obtain price where "text_ok (SKU x)" "numeric_12_2 (Price x) = Some price" "int4_ok (Quantity x)" "0 < Quantity x" "0 \<le> price"
    by (auto simp: stored_item_def split: option.splits if_splits)
  then obtain row where row: "InsertItem i x (env_now e) g = Inr ((), g\<lparr>order_items := order_items g @ [row]\<rparr>)"
    using Cons.prems(1) by (auto simp: InsertItem_def)
  have "completes (OrderRepository_AddItems i items) e (g\<lparr>order_items := order_items g @ [row]\<rparr>) Q"
    by (rule Cons.IH) (use Cons.prems in \<open>auto simp: order_exists_def\<close>)
  then show ?case using row by (auto intro!: completes_intros)
qed

lemma completes_reconcile:
  assumes "payments_ok g" and "order_exists g' i" and "payments g' = payments g"
    and "\<forall>p \<in> set (payments g). p_order_id p \<noteq> Some i" and "\<forall>j \<in> set (sync_jobs g'). j_order_id j \<noteq> i"
    and "\<And>h. Q () h" and sched: "payment_status g (sw_OrderID p) = Some PaymentStatusCompleted \<Longrightarrow> schedulable e cfg"
  shows "completes (reconcilePayment p i cfg) e g' Q"
proof (cases "find_payment_row g' (sw_OrderID p)")
  case None
  with assms(6) show ?thesis
    unfolding reconcilePayment_def by (auto intro!: completes_intros completes_payment_Find)
next
  case (Some pay)
  then have mem: "pay \<in> set (payments g)" using assms(3) by (auto dest: find_payment_row_Some)
  have settle: "completes (settle_order p i cfg (state_of_payment pay)) e h Q" if "order_exists h i" "sync_jobs h = sync_jobs g'" for h
  proof -
    have "p_status pay = PaymentStatusCompleted \<Longrightarrow> p_paid_at pay \<noteq> None"
      using payments_okD(2) [OF assms(1) mem] .
    moreover have "p_status pay = PaymentStatusCompleted \<Longrightarrow> schedulable e cfg"
      using sched Some assms(3) by (simp add: payment_status_def find_payment_row_def)
    moreover have "completes (OrderRepository_Cancel i) e h (\<lambda>_ _. True)"
      using that assms(5)
      by (auto simp: OrderRepository_Cancel_def CancelOrder_def MarkCancelledOrder_def CancelJob_def select_def intro!: completes_intros)
    ultimately show ?thesis
      using that(1) assms(6)
      by (auto simp: settle_order_def state_of_payment_def
          intro!: completes_bind completes_wrapf completes_ret completes_MarkPaidAndSchedule completes_MarkPaymentEvents
          intro: completes_mono split: option.splits)
  qed
  have "check_payment_order g' (sw_OrderID p) (Some i) = None"
    using assms(2-4) by (auto simp: check_payment_order_def)
  then have link: "completes (PaymentRepository_LinkOrder (sw_OrderID p) i) e g' (\<lambda>_ h. order_exists h i \<and> sync_jobs h = sync_jobs g')"
    using assms(2)
    by (auto simp: PaymentRepository_LinkOrder_def LinkPaymentOrder_def order_exists_def intro!: completes_intros)
  have "completes (if ps_OrderID (state_of_payment pay) = None
          then wrapf ''link payment to order %d: %w'' [ArgD i] (PaymentRepository_LinkOrder (sw_OrderID p) i)
          else ret ()) e g' (\<lambda>_ h. order_exists h i \<and> sync_jobs h = sync_jobs g')"
    using link assms(2) by (auto intro: completes_wrapf completes_ret)
  then have "completes (bind_op (if ps_OrderID (state_of_payment pay) = None
          then wrapf ''link payment to order %d: %w'' [ArgD i] (PaymentRepository_LinkOrder (sw_OrderID p) i)
          else ret ()) (\<lambda>_. settle_order p i cfg (state_of_payment pay))) e g' Q"
    by (intro completes_bind, elim completes_mono) (auto intro: settle)
  then show ?thesis
    unfolding reconcilePayment_def by (auto simp: Some intro!: completes_bind [of "wrapf _ _ (PaymentRepository_Find _)"] completes_wrapf completes_payment_Find)
qed

lemma processShop_accepts:
  assumes ok: "db_ok g" and "stored_event g EventTypeShop (sw_EventID p) = None"
    and new: "find_order_row g (sw_OrderID p) = None" and items: "\<forall>x \<in> set (sw_Items p). stored_item x \<noteq> None"
    and rec: "recordable e g (sw_EventID p) EventTypeShop (ShopPayload p)"
    and sched: "payment_status g (sw_OrderID p) = Some PaymentStatusCompleted \<Longrightarrow> schedulable e cfg"
  shows "completes (processShop p cfg) e g (\<lambda>x g'. \<not> wr_Duplicate x \<and> wr_Message x = ''Order stored'')"
proof -
  let ?Q = "\<lambda>x (g' :: pg). \<not> wr_Duplicate x \<and> wr_Message x = ''Order stored''"
  from ok have wf: "orders_wf g" and pok: "payments_ok g" and out: "outbox_ok g" by (simp_all add: db_ok_def)
  let ?i = "orders_seq g + 1"
  note texts = recordable_texts(1) [OF rec]
  have row: "env_index_row e [sw_OrderID p]" using rec assms(2) by (simp add: recordable_def)
  have pays: "\<forall>q \<in> set (payments g). p_order_id q \<noteq> Some ?i"
    using pok new_id_unused [OF wf] by (auto dest: payments_okD(4))
  have store: "completes (store_shop_order p ?i cfg) e h ?Q"
    if "order_exists h ?i" "payments h = payments g" "sync_jobs h = sync_jobs g" for h
    unfolding store_shop_order_def
  proof (intro completes_bind completes_wrapf completes_AddItems [OF that(1) items])
    fix rows
    show "completes (reconcilePayment p ?i cfg) e (h\<lparr>order_items := order_items h @ rows\<rparr>)
      (\<lambda>_ k. completes (bind_op (wrapf ''mark shop event %q processed: %w'' [ArgS (sw_EventID p)]
          (EventRepository_MarkProcessed EventTypeShop (sw_EventID p)))
        (\<lambda>_. shopResult (sw_EventID p) (sw_OrderID p) ''Order stored'')) e k ?Q)"
      by (rule completes_reconcile [OF pok])
        (use that pays no_job_for_new_id [OF wf out] sched texts in \<open>auto simp: order_exists_def
          intro!: completes_bind completes_wrapf completes_MarkProcessed completes_shopResult\<close>)
  qed
  have create: "completes (OrderRepository_Create (sw_OrderID p) (sw_CustomerEmail p)) e (g\<lparr>webhook_events := ev\<rparr>)
      (\<lambda>i h. i = ?i \<and> order_exists h ?i \<and> payments h = payments g \<and> sync_jobs h = sync_jobs g)" for ev
    using new texts row by (auto simp: OrderRepository_Create_def InsertOrder_def Let_def find_order_row_def find_None_iff order_exists_def
        intro!: completes_intros)
  have "?i \<noteq> 0" using wf by (simp add: orders_wf_def)
  then have "completes (bind_op (wrapf ''create order %q: %w'' [ArgS (sw_OrderID p)]
        (OrderRepository_Create (sw_OrderID p) (sw_CustomerEmail p)))
      (\<lambda>i. if i = 0 then existing_shop_order p else store_shop_order p i cfg)) e (g\<lparr>webhook_events := ev\<rparr>) ?Q" for ev
    by (intro completes_bind completes_wrapf completes_mono [OF create]) (auto intro: store)
  then show ?thesis
    unfolding processShop_def by (intro completes_bind [of "wrapf _ _ (EventRepository_Record _ _ _)"] completes_wrapf completes_Record [OF rec assms(2)]) simp
qed

section \<open>A payment event is accepted\<close>

lemma order_link_free:
  assumes ok: "db_ok g"
  shows "check_payment_order g ref (map_option o_id (find_order_row g ref)) = None"
proof (cases "find_order_row g ref")
  case (Some w)
  then have w: "w \<in> set (orders g)" "o_order_id w = ref" by (auto dest: find_order_row_Some)
  moreover have "p_order_id q = Some (o_id w) \<longleftrightarrow> p_reference_order_id q = ref" if "q \<in> set (payments g)" for q
    using payments_okD(5) [OF _ that w(1)] ok w(2) by (simp add: db_ok_def)
  ultimately show ?thesis using Some by (auto simp: check_payment_order_def order_exists_def)
qed (simp add: check_payment_order_def)

lemma upsert_total:
  assumes ok: "db_ok g" and op: "\<forall>f. payment_status g ref = Some f \<longrightarrow> \<not> finalized f"
    and ref: "text_ok ref" "index_row [ref]"
    and "payment_status_ok (p_status (ins (payments_seq g + 1)))"
    and "p_order_id (ins (payments_seq g + 1)) = map_option o_id (find_order_row g ref)"
    and "\<And>r. find_payment_row g ref = Some r \<Longrightarrow> p_order_id (upd r) = map_option o_id (find_order_row g ref)"
  shows "\<exists>x ps. upsert_payment_row index_row ref ins upd now g = Inr (Some x, g\<lparr>payments_seq := payments_seq g + 1, payments := ps\<rparr>)"
  using order_link_free [OF ok, of ref] op assms(3-)
  by (cases "find_payment_row g ref") (auto simp: upsert_payment_row_def Let_def payment_status_def)

lemma linked_coalesce:
  assumes "db_ok g" and "find_payment_row g ref = Some r"
  shows "coalesce (p_order_id r) (map_option o_id (find_order_row g ref)) = map_option o_id (find_order_row g ref)"
  using linked_order [OF assms] by (cases "find_order_row g ref") (simp_all add: coalesce_def)

lemma completes_Upsert:
  assumes ok: "db_ok g" and op: "\<forall>f. payment_status g ref = Some f \<longrightarrow> \<not> finalized f" and "payment_status_ok st"
    and ref: "text_ok ref" "env_index_row e [ref]"
    and "\<And>p g'. payment_stored g ref p g' \<Longrightarrow> (st = PaymentStatusCompleted \<Longrightarrow> p_paid_at p = map_option timestamptz t) \<Longrightarrow>
      Q (state_of_payment p) g'"
  shows "completes (PaymentRepository_Upsert ref st (map_option o_id (find_order_row g ref)) t) e g Q"
proof -
  have "\<exists>x ps. UpsertPayment (env_index_row e) ref (map_option o_id (find_order_row g ref)) st t (env_now e) g
      = Inr (Some x, g\<lparr>payments_seq := payments_seq g + 1, payments := ps\<rparr>)"
    unfolding UpsertPayment_def using assms(3)
    by (intro upsert_total [OF ok op ref(1)]) (auto simp: ref(2) new_payment_def linked_coalesce [OF ok])
  then obtain x g' where "UpsertPayment (env_index_row e) ref (map_option o_id (find_order_row g ref)) st t (env_now e) g = Inr (Some x, g')"
    by blast
  then have "PaymentRepository_Upsert ref st (map_option o_id (find_order_row g ref)) t e (g, []) = (Inr x, (g', []))"
    by (simp add: PaymentRepository_Upsert_def session_simps)
  moreover from runsI [of "PaymentRepository_Upsert ref st (map_option o_id (find_order_row g ref)) t", OF this]
  have "Q x g'" by (rule runs_Upsert_stored [OF ok]) (use assms(6) in simp)
  ultimately show ?thesis by (rule completesI)
qed

lemma completes_Cancel_payment:
  assumes ok: "db_ok g" and op: "\<forall>f. payment_status g ref = Some f \<longrightarrow> \<not> finalized f"
    and ref: "text_ok ref" "env_index_row e [ref]"
    and "\<And>x p g'. payment_stored g ref p g' \<Longrightarrow> Q x g'"
  shows "completes (PaymentRepository_Cancel ref (map_option o_id (find_order_row g ref))) e g Q"
proof -
  have "\<exists>x ps. CancelPayment (env_index_row e) ref (map_option o_id (find_order_row g ref)) (env_now e) g
      = Inr (Some x, g\<lparr>payments_seq := payments_seq g + 1, payments := ps\<rparr>)"
    unfolding CancelPayment_def
    by (intro upsert_total [OF ok op ref(1)]) (auto simp: ref(2) new_payment_def linked_coalesce [OF ok] payment_status_ok_def)
  then obtain x g' where "CancelPayment (env_index_row e) ref (map_option o_id (find_order_row g ref)) (env_now e) g = Inr (Some x, g')"
    by blast
  then have "PaymentRepository_Cancel ref (map_option o_id (find_order_row g ref)) e (g, []) = (Inr x, (g', []))"
    by (simp add: PaymentRepository_Cancel_def session_simps)
  moreover from runsI [of "PaymentRepository_Cancel ref (map_option o_id (find_order_row g ref))", OF this]
  have "Q x g'" by (rule runs_Cancel_stored [OF ok]) (use assms(5) in simp)
  ultimately show ?thesis by (rule completesI)
qed

lemma payment_stored_order:
  assumes "payment_stored g ref p h"
  shows "order_exists h = order_exists g" and "sync_jobs h = sync_jobs g" and "items_of_order h = items_of_order g"
  using assms by (auto simp: payment_stored_def order_exists_def items_of_order_def fun_eq_iff)

lemma completes_findOrderID:
  assumes "orders_wf g" and "Q (map_option o_id (find_order_row g ref)) g"
  shows "completes (findOrderID ref) e g Q"
proof (cases "find_order_row g ref")
  case (Some w)
  with assms(1) have "o_id w \<noteq> 0" by (auto simp: orders_wf_def dest!: find_order_row_Some)
  with Some assms(2) show ?thesis
    by (auto simp: findOrderID_def OrderRepository_FindID_def FindOrderID_def select_def intro!: completes_intros)
qed (use assms(2) in \<open>auto simp: findOrderID_def OrderRepository_FindID_def FindOrderID_def select_def intro!: completes_intros\<close>)

lemma cancelPayment_accepts:
  assumes ok: "db_ok g" and op: "\<forall>f. payment_status g (pw_ReferenceOrderID p) = Some f \<longrightarrow> \<not> finalized f"
    and ref: "text_ok (pw_ReferenceOrderID p)" "env_index_row e [pw_ReferenceOrderID p]"
    and hw: "\<And>w. find_order_row g (pw_ReferenceOrderID p) = Some w \<Longrightarrow> hardware_order g (items_of_order g (o_id w))"
  shows "completes (cancelPayment p (map_option o_id (find_order_row g (pw_ReferenceOrderID p)))) e g (\<lambda>x g'. \<not> wr_Duplicate x)"
proof (cases "find_order_row g (pw_ReferenceOrderID p)")
  case None
  then have "completes (PaymentRepository_Cancel (pw_ReferenceOrderID p) None) e g (\<lambda>_ _. True)"
    using completes_Cancel_payment [OF ok op ref, of "\<lambda>_ _. True"] by simp
  with None show ?thesis
    by (auto simp: cancelPayment_def webhook_result_def
        intro!: completes_bind completes_wrapf completes_ret completes_MarkProcessed elim!: completes_mono)
next
  case (Some w)
  have cancel: "completes (OrderRepository_Cancel (o_id w)) e h (\<lambda>_ _. True)" if "payment_stored g (pw_ReferenceOrderID p) q h" for q h
  proof -
    have "order_exists g (o_id w)" using Some by (auto simp: order_exists_def dest: find_order_row_Some)
    with no_job_for_open [OF ok op Some] payment_stored_order [OF that] show ?thesis
      by (auto simp: OrderRepository_Cancel_def CancelOrder_def MarkCancelledOrder_def CancelJob_def select_def
          intro!: completes_intros)
  qed
  have cancelled: "completes (OrderRepository_Cancel (o_id w)) e h (\<lambda>_ k. completes (bind_op
      (wrapf ''mark payment event %q processed: %w'' [ArgS (pw_EventID p)] (EventRepository_MarkProcessed EventTypePayment (pw_EventID p)))
      (\<lambda>_. paymentResult (pw_EventID p) (pw_ReferenceOrderID p) MessageOrderCancelled (Some (o_id w)))) e k (\<lambda>x g'. \<not> wr_Duplicate x))"
    if "payment_stored g (pw_ReferenceOrderID p) q h" for q h
    by (rule completes_mono [OF cancel [OF that]])
      (auto intro!: completes_bind completes_wrapf completes_MarkProcessed completes_paymentResult ref(1))
  have "completes (PaymentRepository_Cancel (pw_ReferenceOrderID p) (Some (o_id w))) e g
      (\<lambda>_ h. \<exists>q. payment_stored g (pw_ReferenceOrderID p) q h)"
    using completes_Cancel_payment [OF ok op ref, of "\<lambda>_ h. \<exists>q. payment_stored g (pw_ReferenceOrderID p) q h"] Some by auto
  then have rest: "completes (PaymentRepository_Cancel (pw_ReferenceOrderID p) (Some (o_id w))) e g
      (\<lambda>_ h. completes (bind_op (OrderRepository_Cancel (o_id w)) (\<lambda>_. bind_op
        (wrapf ''mark payment event %q processed: %w'' [ArgS (pw_EventID p)] (EventRepository_MarkProcessed EventTypePayment (pw_EventID p)))
        (\<lambda>_. paymentResult (pw_EventID p) (pw_ReferenceOrderID p) MessageOrderCancelled (Some (o_id w))))) e h (\<lambda>x g'. \<not> wr_Duplicate x))"
    by (rule completes_mono) (auto intro: completes_bind cancelled)
  have "cancel_hardware (items_of_order g (o_id w)) (\<exists>sku \<in> set (paymentItemSKUs (items_of_order g (o_id w))). hardware_sku g sku)"
    using hw [OF Some] by (simp add: cancel_hardware_eq paymentItemSKUs_eq classify_items)
  then show ?thesis
    using rest by (auto simp: cancelPayment_def Some
        intro!: completes_bind completes_wrapf completes_ListItems completes_HasHardware completes_ret)
qed

lemma completePayment_accepts:
  assumes "order_exists g i" and "ps_PaidAt st = Some t" and "\<And>m h. Q m h" and "schedulable e cfg"
  shows "completes (completePayment p st i cfg) e g Q"
  using assms
  by (auto simp: completePayment_def
      intro!: completes_bind completes_wrapf completes_ListItems completes_MarkPaidAndSchedule completes_MarkProcessed completes_ret)

lemma apply_payment_accepts:
  assumes ok: "db_ok g" and op: "\<forall>f. payment_status g (pw_ReferenceOrderID p) = Some f \<longrightarrow> \<not> finalized f"
    and st: "payment_status_ok (pw_PaymentStatus p)" and t: "parse_time (pw_Timestamp p) = Some t"
    and ref: "text_ok (pw_ReferenceOrderID p)" "env_index_row e [pw_ReferenceOrderID p]"
    and sched: "\<And>w. pw_PaymentStatus p = PaymentStatusCompleted \<Longrightarrow> find_order_row g (pw_ReferenceOrderID p) = Some w \<Longrightarrow> schedulable e cfg"
    and hw: "\<And>w. pw_PaymentStatus p = PaymentStatusCancelled \<Longrightarrow> find_order_row g (pw_ReferenceOrderID p) = Some w \<Longrightarrow>
      hardware_order g (items_of_order g (o_id w))"
  shows "completes (apply_payment parse_time p cfg) e g (\<lambda>x g'. \<not> wr_Duplicate x)"
proof (cases "pw_PaymentStatus p = PaymentStatusCancelled")
  case True
  with cancelPayment_accepts [OF ok op ref hw] ok t show ?thesis
    by (auto simp: apply_payment_def db_ok_def intro!: completes_bind completes_findOrderID)
next
  case False
  let ?oid = "map_option o_id (find_order_row g (pw_ReferenceOrderID p))" and ?ref = "pw_ReferenceOrderID p"
  have rest: "completes (if pw_PaymentStatus p \<noteq> PaymentStatusCompleted then
        bind_op (wrapf ''mark payment event %q processed: %w'' [ArgS (pw_EventID p)]
            (EventRepository_MarkProcessed EventTypePayment (pw_EventID p)))
          (\<lambda>_. paymentResult (pw_EventID p) ?ref MessagePaymentRecorded ?oid)
      else case ?oid of
        None \<Rightarrow> bind_op (wrapf ''mark payment event %q processed: %w'' [ArgS (pw_EventID p)]
              (EventRepository_MarkProcessed EventTypePayment (pw_EventID p)))
            (\<lambda>_. ret ((webhook_result MessageAwaitingShopOrder (pw_EventID p) ?ref)\<lparr>wr_PaymentStatus := ps_Status (state_of_payment q)\<rparr>))
      | Some i \<Rightarrow> bind_op (completePayment p (state_of_payment q) i cfg)
            (\<lambda>message. paymentResult (pw_EventID p) ?ref message ?oid)) e h (\<lambda>x g'. \<not> wr_Duplicate x)"
    if q: "payment_stored g ?ref q h" and paid: "pw_PaymentStatus p = PaymentStatusCompleted \<Longrightarrow> p_paid_at q = Some (timestamptz t)" for q h
  proof -
    have "order_exists h (o_id w)" if "find_order_row g ?ref = Some w" for w
      using that payment_stored_order(1) [OF q] by (auto simp: order_exists_def dest: find_order_row_Some)
    with paid sched ref(1) show ?thesis
      by (auto simp: webhook_result_def state_of_payment_def intro!: completes_bind completes_wrapf completes_MarkProcessed
          completes_paymentResult completes_ret completePayment_accepts split: option.split)
  qed
  have "completes (PaymentRepository_Upsert ?ref (pw_PaymentStatus p) ?oid
      (if pw_PaymentStatus p = PaymentStatusCompleted then Some t else None)) e g
    (\<lambda>state h. completes (if pw_PaymentStatus p \<noteq> PaymentStatusCompleted then
        bind_op (wrapf ''mark payment event %q processed: %w'' [ArgS (pw_EventID p)]
            (EventRepository_MarkProcessed EventTypePayment (pw_EventID p)))
          (\<lambda>_. paymentResult (pw_EventID p) ?ref MessagePaymentRecorded ?oid)
      else case ?oid of
        None \<Rightarrow> bind_op (wrapf ''mark payment event %q processed: %w'' [ArgS (pw_EventID p)]
              (EventRepository_MarkProcessed EventTypePayment (pw_EventID p)))
            (\<lambda>_. ret ((webhook_result MessageAwaitingShopOrder (pw_EventID p) ?ref)\<lparr>wr_PaymentStatus := ps_Status state\<rparr>))
      | Some i \<Rightarrow> bind_op (completePayment p state i cfg)
            (\<lambda>message. paymentResult (pw_EventID p) ?ref message ?oid)) e h (\<lambda>x g'. \<not> wr_Duplicate x))"
    by (rule completes_Upsert [OF ok op st ref], rule rest) auto
  then show ?thesis
    using ok False t unfolding apply_payment_def db_ok_def
    by (auto intro!: completes_bind [of "findOrderID _"] completes_bind [of "wrapf _ _ (PaymentRepository_Upsert _ _ _ _)"]
        completes_wrapf completes_findOrderID)
qed

lemma processPayment_accepts:
  assumes ok: "db_ok g" and ev: "stored_event g EventTypePayment (pw_EventID p) = None"
    and op: "\<forall>f. payment_status g (pw_ReferenceOrderID p) = Some f \<longrightarrow> \<not> finalized f"
    and st: "payment_status_ok (pw_PaymentStatus p)" and t: "parse_time (pw_Timestamp p) = Some t"
    and rec: "recordable e g (pw_EventID p) EventTypePayment (PaymentPayload p)"
    and sched: "\<And>w. pw_PaymentStatus p = PaymentStatusCompleted \<Longrightarrow> find_order_row g (pw_ReferenceOrderID p) = Some w \<Longrightarrow> schedulable e cfg"
    and hw: "\<And>w. pw_PaymentStatus p = PaymentStatusCancelled \<Longrightarrow> find_order_row g (pw_ReferenceOrderID p) = Some w \<Longrightarrow>
      hardware_order g (items_of_order g (o_id w))"
  shows "completes (processPayment upper parse_time p cfg) e g (\<lambda>x g'. \<not> wr_Duplicate x)"
proof -
  have ref: "text_ok (pw_ReferenceOrderID p)" "env_index_row e [pw_ReferenceOrderID p]"
    using recordable_texts(2) [OF rec] rec ev by (simp_all add: recordable_def)
  have app: "completes (apply_payment parse_time p cfg) e (g\<lparr>webhook_events := ev'\<rparr>) (\<lambda>x g'. \<not> wr_Duplicate x)" for ev'
  proof (rule apply_payment_accepts [where t = t])
    fix w assume "pw_PaymentStatus p = PaymentStatusCancelled"
      and "find_order_row (g\<lparr>webhook_events := ev'\<rparr>) (pw_ReferenceOrderID p) = Some w"
    then have "hardware_order g (items_of_order g (o_id w))" using hw by simp
    moreover have "items_of_order (g\<lparr>webhook_events := ev'\<rparr>) = items_of_order g" by (simp add: fun_eq_iff items_of_order_def)
    moreover have "hardware_order (g\<lparr>webhook_events := ev'\<rparr>) x = hardware_order g x" for x
      by (rule hardware_order_catalogue) simp
    ultimately show "hardware_order (g\<lparr>webhook_events := ev'\<rparr>) (items_of_order (g\<lparr>webhook_events := ev'\<rparr>) (o_id w))" by simp
  qed (use ok op st t ref sched in simp_all)
  have "\<not> isTerminal (p_status r)" if "find_payment_row g (pw_ReferenceOrderID p) = Some r" for r
    using op that by (simp add: payment_status_def isTerminal_finalized)
  then show ?thesis
    unfolding processPayment_def
    by (auto intro!: completes_bind completes_wrapf completes_Record [OF rec ev] completes_payment_Find app
        simp: state_of_payment_def split: option.split)
qed

section \<open>Rejections\<close>

text \<open>\<open>refuses m e g err\<close>: without faults, \<open>m\<close> fails with the error.\<close>

definition refuses :: "'a op \<Rightarrow> env \<Rightarrow> pg \<Rightarrow> go_error \<Rightarrow> bool" where
  "refuses m e g err \<longleftrightarrow> (\<exists>g'. m e (g, []) = (Inl err, (g', [])))"

lemma refuses_throw: "refuses (throw err) e g err"
  by (simp add: refuses_def throw_def)

lemma refuses_bind: "completes m e g (\<lambda>x h. refuses (f x) e h err) \<Longrightarrow> refuses (bind_op m f) e g err"
  by (fastforce simp: refuses_def completes_def bind_op_def)

lemma refuses_bind_first: "refuses m e g err \<Longrightarrow> refuses (bind_op m f) e g err"
  by (auto simp: refuses_def bind_op_def)

lemma Run_refuses:
  assumes "refuses work e g err"
  shows "\<exists>g'. Run work e (g, []) = (Inl (Wrapf ''run transaction work: %w'' [] err), (g', [])) \<and> same_tables g' g"
  using assms by (auto simp: refuses_def Run_eval_Inl)

lemma completes_Record_any:
  assumes rec: "recordable e g i t p" and Q: "\<And>ev' b. Q b (g\<lparr>webhook_events := ev'\<rparr>)"
  shows "completes (EventRepository_Record i t p) e g Q"
proof (cases "stored_event g t i = None")
  case False
  have "EventRepository_Record i t p e (g, []) = (Inr False, (g, []))" using rec False by (auto simp: recordable_def intro: Record_repeated)
  then show ?thesis by (rule completesI [where m = "EventRepository_Record i t p"]) (use Q [of False "webhook_events g"] in simp)
qed (use completes_Record [OF rec] Q in simp)

lemma processPayment_finalized:
  assumes "stored_event g EventTypePayment (pw_EventID p) = None"
    and "payment_status g (pw_ReferenceOrderID p) = Some f" and "finalized f" and "pw_PaymentStatus p \<noteq> f"
    and rec: "recordable e g (pw_EventID p) EventTypePayment (PaymentPayload p)"
  shows "refuses (processPayment upper parse_time p cfg) e g (Sentinel ErrPaymentFinalized)"
proof -
  from assms(2) obtain r where r: "find_payment_row g (pw_ReferenceOrderID p) = Some r" "p_status r = f"
    by (auto simp: payment_status_def)
  with assms(3,4) show ?thesis
    unfolding processPayment_def finalized_payment_def
    by (auto simp: isTerminal_finalized state_of_payment_def
        intro!: refuses_bind completes_wrapf completes_Record [OF rec assms(1)] completes_payment_Find refuses_throw)
qed

lemma processPayment_conflict:
  assumes "stored_event g EventTypePayment (pw_EventID p) = Some q"
    and "\<not> samePaymentPayload (NormalizePaymentWebhook upper (unmarshal_payment q)) p"
    and texts: "event_text_ok (pw_EventID p) (PaymentPayload p)"
  shows "refuses (processPayment upper parse_time p cfg) e g (Sentinel ErrPaymentPayloadConflict)"
proof -
  have "EventRepository_FindPayload EventTypePayment (pw_EventID p) e (g, []) = (Inr (Some q), (g, []))"
    using assms(1) by (simp add: EventRepository_FindPayload_def FindEventPayload_def select_def session_simps stored_event_def)
  moreover have "EventRepository_Record (pw_EventID p) EventTypePayment (PaymentPayload p) e (g, []) = (Inr False, (g, []))"
    using assms(1) by (intro Record_repeated texts) simp
  ultimately show ?thesis
    using assms(2)
    by (simp add: refuses_def processPayment_def replayed_payment_event_def bind_op_def wrapf_def throw_def)
qed

lemma processPayment_digital:
  assumes ok: "db_ok g" and ev: "stored_event g EventTypePayment (pw_EventID p) = None"
    and op: "\<forall>f. payment_status g (pw_ReferenceOrderID p) = Some f \<longrightarrow> \<not> finalized f"
    and st: "pw_PaymentStatus p = PaymentStatusCancelled" and t: "parse_time (pw_Timestamp p) = Some t"
    and w: "find_order_row g (pw_ReferenceOrderID p) = Some w" and digital: "\<not> hardware_order g (items_of_order g (o_id w))"
    and rec: "recordable e g (pw_EventID p) EventTypePayment (PaymentPayload p)"
  shows "refuses (processPayment upper parse_time p cfg) e g (Sentinel ErrDigitalCancellation)"
proof -
  have "refuses (apply_payment parse_time p cfg) e (g\<lparr>webhook_events := ev'\<rparr>) (Sentinel ErrDigitalCancellation)" for ev'
  proof -
    let ?h = "g\<lparr>webhook_events := ev'\<rparr>"
    have "hardware_order ?h x = hardware_order g x" for x by (rule hardware_order_catalogue) simp
    moreover have "items_of_order ?h = items_of_order g" by (simp add: fun_eq_iff items_of_order_def)
    ultimately have no: "\<not> cancel_hardware (items_of_order ?h (o_id w))
        (\<exists>sku \<in> set (paymentItemSKUs (items_of_order ?h (o_id w))). hardware_sku ?h sku)"
      using digital by (simp add: cancel_hardware_eq paymentItemSKUs_eq classify_items)
    have "refuses (cancelPayment p (Some (o_id w))) e ?h (Sentinel ErrDigitalCancellation)"
      unfolding cancelPayment_def option.case
      by (rule refuses_bind_first, (rule refuses_bind completes_wrapf completes_ListItems completes_HasHardware)+)
        (simp add: no refuses_throw)
    then show ?thesis
      using ok w st t
      by (auto simp: apply_payment_def db_ok_def orders_wf_def intro!: refuses_bind completes_findOrderID)
  qed
  moreover have "\<not> isTerminal (p_status r)" if "find_payment_row g (pw_ReferenceOrderID p) = Some r" for r
    using op that by (simp add: payment_status_def isTerminal_finalized)
  ultimately show ?thesis
    unfolding processPayment_def
    by (auto intro!: refuses_bind completes_wrapf completes_Record [OF rec ev] completes_payment_Find
        simp: state_of_payment_def split: option.split)
qed

lemma completes_Find:
  "Q (map_option (\<lambda>w. \<lparr>so_ID = o_id w, so_CustomerEmail = o_customer_email w, so_Items = items_of_order g (o_id w)\<rparr>)
      (find_order_row g r)) g \<Longrightarrow> completes (OrderRepository_Find r) e g Q"
  unfolding completes_def Find_eval by blast

lemma completes_Create_existing:
  assumes "text_ok r" and "text_ok m" and "find_order_row g r = Some w" and "Q 0 (g\<lparr>orders_seq := orders_seq g + 1\<rparr>)"
  shows "completes (OrderRepository_Create r m) e g Q"
proof -
  have "\<exists>x \<in> set (orders g). o_order_id x = r" using assms(3) by (auto dest: find_order_row_Some)
  with assms(1,2,4) show ?thesis
    by (auto simp: OrderRepository_Create_def InsertOrder_def Let_def intro!: completes_intros)
qed

lemma processShop_conflict:
  assumes w: "find_order_row g (sw_OrderID p) = Some w"
    and diff: "o_customer_email w \<noteq> sw_CustomerEmail p \<or> mset (items_of_order g (o_id w)) \<noteq> mset (sw_Items p)"
    and rec: "recordable e g (sw_EventID p) EventTypeShop (ShopPayload p)"
  shows "refuses (processShop p cfg) e g (Sentinel ErrOrderPayloadConflict)"
proof -
  have find: "completes (OrderRepository_Find (sw_OrderID p)) e h Q"
    if "Q (Some \<lparr>so_ID = o_id w, so_CustomerEmail = o_customer_email w, so_Items = items_of_order g (o_id w)\<rparr>) h"
      "orders h = orders g" "order_items h = order_items g" for Q h
    using that w by (intro completes_Find) (simp add: find_order_row_def items_of_order_def)
  have differs: "\<not> sameOrderPayload \<lparr>so_ID = o_id w, so_CustomerEmail = o_customer_email w, so_Items = items_of_order g (o_id w)\<rparr> p"
    using diff by (auto simp: sameOrderPayload_iff)
  have "refuses (replayed_shop_event p) e h (Sentinel ErrOrderPayloadConflict)"
       "refuses (existing_shop_order p) e h (Sentinel ErrOrderPayloadConflict)"
    if "orders h = orders g" "order_items h = order_items g" for h
    unfolding replayed_shop_event_def existing_shop_order_def
    by (auto intro!: refuses_bind completes_wrapf find [OF _ that] simp: differs refuses_throw)
  then show ?thesis
    unfolding processShop_def
    by (intro refuses_bind completes_wrapf completes_Record_any [OF rec])
      (use recordable_texts(1) [OF rec] in \<open>auto intro!: refuses_bind completes_wrapf completes_Create_existing [where w = w] simp: w\<close>)
qed

text \<open>An event whose texts the tables cannot hold is refused by its first statement, with an error that is no conflict.\<close>

lemma Record_unrecordable:
  assumes "\<not> recordable e g i t p"
  shows "\<exists>err. EventRepository_Record i t p e (g, []) = (Inl (Wrapf ''insert webhook event %q: %w'' [ArgS i] (DbError err)), (g, []))"
proof -
  have "InsertEvent (env_index_row e) i t p (env_now e) g \<noteq> Inr x" for x
    using assms InsertEvent_total [of e i t p "env_now e" g] by blast
  then obtain err where "InsertEvent (env_index_row e) i t p (env_now e) g = Inl err" by (metis sum.exhaust)
  then show ?thesis by (simp add: EventRepository_Record_def session_simps)
qed

lemma process_unrecordable:
  "\<not> recordable e g (sw_EventID p) EventTypeShop (ShopPayload p) \<Longrightarrow>
     \<exists>err. refuses (processShop p cfg) e g err \<and> (\<forall>x. \<not> errors_is err x)"
  "\<not> recordable e g (pw_EventID q) EventTypePayment (PaymentPayload q) \<Longrightarrow>
     \<exists>err. refuses (processPayment upper parse_time q cfg) e g err \<and> (\<forall>x. \<not> errors_is err x)"
  by (auto simp: processShop_def processPayment_def refuses_def bind_op_def wrapf_def dest!: Record_unrecordable)

end
