(* ===== verification/Dispatch.thy ===== *)
theory Dispatch
  imports Progress
begin

text \<open>
  What the worker achieves on a consistent database without database faults: a claim always
  succeeds and hands out the earliest job that is due, a delivery settles the job's row as
  SAP answered, and the drain loop leaves nothing that is due.
\<close>

lemma update_where_mem: "x \<in> set xs \<Longrightarrow> P x \<Longrightarrow> f x \<in> set (update_where P f xs)"
  by (auto simp: set_update_where)

lemma timestamptz_le: "timestamptz t \<le> t"
  by (simp add: timestamptz_def microsecond_def)

lemma timestamptz_mono: "t \<le> u \<Longrightarrow> timestamptz t \<le> timestamptz u"
  by (simp add: timestamptz_def minus_mod_eq_div_mult microsecond_def zdiv_mono1)

section \<open>Claims\<close>

text \<open>The order of a queued job is paid, and its paid time is known.\<close>

lemma job_order_paid:
  assumes ok: "db_ok g" and j: "j \<in> set (sync_jobs g)"
  obtains r t where "List.find (\<lambda>r. o_id r = j_order_id j) (orders g) = Some r" "o_payment_status r = OrderStatePaid"
    "o_paid_at r = Some t" "order_not_cancelled g j"
proof -
  from ok j obtain r where r: "r \<in> set (orders g)" "o_id r = j_order_id j" "o_payment_status r = OrderStatePaid"
    by (auto simp: db_ok_def outbox_ok_def)
  have "unique_on o_id (orders g)" using ok by (simp add: db_ok_def orders_wf_def)
  then have find: "List.find (\<lambda>x. o_id x = j_order_id j) (orders g) = Some r" using r(1,2) by (metis find_unique)
  from ok r have state: "order_state_for (payment_status g (o_order_id r)) = OrderStatePaid"
    "o_paid_at r = paid_at_for (find_payment_row g (o_order_id r))"
    by (auto simp: db_ok_def reconciled_def)
  then obtain p where p: "find_payment_row g (o_order_id r) = Some p" "p_status p = PaymentStatusCompleted"
    by (auto simp: order_state_for_def payment_status_def split: if_splits)
  then have "p \<in> set (payments g)" by (auto simp: find_payment_row_def dest: find_SomeD)
  with ok p(2) obtain t where "p_paid_at p = Some t" by (auto simp: db_ok_def payments_ok_def)
  with state(2) p have "o_paid_at r = Some t" by (simp add: paid_at_for_def)
  moreover have "order_not_cancelled g j" using r by (auto simp: order_not_cancelled_def)
  ultimately show thesis using find r(3) by (intro that)
qed

lemma claim_candidate_None:
  "claim_candidate L t g = None \<longleftrightarrow> (\<forall>j \<in> set (sync_jobs g). claimable t g j \<longrightarrow> j_id j \<in> set L)"
  by (auto simp: claim_candidate_def filter_empty_conv)

text \<open>The answer of a claim on a consistent database.\<close>

definition claim_answer :: "env \<Rightarrow> pg \<Rightarrow> job_row \<Rightarrow> Job" where
  "claim_answer e g j =
     (case List.find (\<lambda>r. o_id r = j_order_id j) (orders g) of
        Some r \<Rightarrow>
          \<lparr>job_ID = j_id j, job_Status = j_status j, job_Attempts = j_attempts j + 1, job_DueAt = Some (j_due_at j),
           job_WaitingSince = j_waiting_since j,
           job_Details = \<lparr>od_OrderID = o_order_id r, od_CustomerEmail = o_customer_email r,
             od_PaidAt = env_rfc3339nano e (the (o_paid_at r)), od_Items = items_of_order g (j_order_id j)\<rparr>\<rparr>)"

definition lock_job :: "time \<Rightarrow> job_row \<Rightarrow> pg \<Rightarrow> pg" where
  "lock_job t j g = g\<lparr>sync_jobs := update_where (\<lambda>k. j_id k = j_id j) (lock_row t) (sync_jobs g)\<rparr>"

lemma ClaimDue_eval:
  assumes ok: "db_ok g"
  shows "ClaimDue e (g, []) =
    (case claim_candidate (env_locked e) (env_now e) g of
       None \<Rightarrow> (Inr None, (g, []))
     | Some j \<Rightarrow> (Inr (Some (claim_answer e g j)), (lock_job (env_now e) j g, [])))"
proof (cases "claim_candidate (env_locked e) (env_now e) g")
  case None
  then show ?thesis
    by (simp add: ClaimDue_def in_transaction_eval claim_work_def claim_query_def bind_op_def wrapf_def statement_eval ClaimJob_def
        select_def ret_def)
next
  case (Some j)
  then have mem: "j \<in> set (sync_jobs g)" by (auto dest: claim_candidate_Some)
  from ok mem obtain r t where r: "List.find (\<lambda>r. o_id r = j_order_id j) (orders g) = Some r" "o_paid_at r = Some t"
    by (rule job_order_paid)
  have "unique_on j_id (sync_jobs g)" using ok by (simp add: db_ok_def outbox_ok_def)
  then have "List.find (\<lambda>k. j_id k = j_id j) (sync_jobs g) = Some j" using mem by (metis find_unique)
  then have "List.find (\<lambda>k. j_id k = j_id j) (update_where (\<lambda>k. j_id k = j_id j) (lock_row (env_now e)) (sync_jobs g))
      = Some (lock_row (env_now e) j)"
    by (simp add: find_update_where_key [where k = j_id])
  then show ?thesis
    using Some r
    by (simp add: ClaimDue_def in_transaction_eval claim_work_def claim_query_def bind_op_def wrapf_def statement_eval ClaimJob_def
        select_def reader_def LockJob_def loadJobItems_def JobItems_def claim_answer_def lock_job_def items_of_order_def)
qed

text \<open>A row that another claim has just locked might as well be passed over.\<close>

lemma candidate_beside_lock:
  assumes "t' < t + stale_after"
  shows "claim_candidate L t' (lock_job t j g) = claim_candidate (j_id j # L) t' g"
proof -
  have "claimable t' (lock_job t j g) k = claimable t' g k" for k by (rule claimable_same_orders) (simp add: lock_job_def)
  moreover have "filter (\<lambda>k. claimable t' g k \<and> j_id k \<notin> set L) (update_where (\<lambda>k. j_id k = j_id j) (lock_row t) js) =
      filter (\<lambda>k. claimable t' g k \<and> j_id k \<notin> set (j_id j # L)) js" for js
    using claimable_lock_row [OF assms] by (induction js) auto
  ultimately show ?thesis by (simp add: claim_candidate_def) (simp add: lock_job_def)
qed

lemma claim_answer_beside_lock: "claim_answer e (lock_job t j g) k = claim_answer e g k"
  by (simp add: claim_answer_def lock_job_def items_of_order_def cong: option.case_cong)

lemma lock_job_commute:
  assumes "j_id j \<noteq> j_id k"
  shows "lock_job t' k (lock_job t j g) = lock_job t j (lock_job t' k g)"
  using assms by (auto simp: lock_job_def update_where_def)

lemma lock_job_ok:
  assumes "db_ok g"
  shows "db_ok (lock_job t j g)"
  using LockJob_ok [OF assms, of "j_id j" t "()" "lock_job t j g"] by (simp add: LockJob_def lock_job_def)

section \<open>Deliveries\<close>

lemma mark_failed_eval:
  "sync_status_ok st \<Longrightarrow> mark_failed_logged w code job st d m e (g, []) =
     ([], (g\<lparr>sync_jobs := update_where (\<lambda>j. j_id j = job_ID job) (failed_row st d m (env_now e)) (sync_jobs g)\<rparr>, []))"
  by (simp add: mark_failed_logged_def MarkFailed_def wrapf_def statement_eval q_MarkFailed_def)

lemma MarkSynced_eval:
  "MarkSynced i sap e (g, []) =
     (Inr (), (g\<lparr>sync_jobs := update_where (\<lambda>j. j_id j = i) (synced_row sap (env_now e)) (sync_jobs g),
       orders := update_where (\<lambda>r. \<exists>j \<in> set (sync_jobs g). j_id j = i \<and> j_order_id j = o_id r)
         (\<lambda>r. r\<lparr>o_sap_id := Some sap, o_updated_at := env_now e\<rparr>) (orders g)\<rparr>, []))"
  by (simp add: MarkSynced_def wrapf_def statement_eval q_MarkSynced_def)

text \<open>When a delivery reaches SAP.\<close>

definition dispatched :: "Config \<Rightarrow> Job \<Rightarrow> time \<Rightarrow> bool" where
  "dispatched cfg job now \<longleftrightarrow>
     job_Status job \<noteq> SyncStatusDead \<and> \<not> recoveryWindowExpired cfg job now \<and> job_Attempts job \<le> maxTotalAttempts cfg"

lemma deliver_success_eval:
  assumes "dispatched cfg job (w_now w)" and "w_sap w (od_OrderID (job_Details job)) (job_Details job) = Inr sap"
  shows "snd (deliver w cfg job e (g, [])) =
    (g\<lparr>sync_jobs := update_where (\<lambda>j. j_id j = job_ID job) (synced_row sap (env_now e)) (sync_jobs g),
       orders := update_where (\<lambda>r. \<exists>j \<in> set (sync_jobs g). j_id j = job_ID job \<and> j_order_id j = o_id r)
         (\<lambda>r. r\<lparr>o_sap_id := Some sap, o_updated_at := env_now e\<rparr>) (orders g)\<rparr>, [])"
  using assms by (simp add: deliver_def dispatched_def Let_def persistDeliverySuccess_def MarkSynced_eval)

lemma failureState_status:
  assumes "failureState cfg int63n job now retryable err = (st, d)"
  shows "sync_status_ok st"
  using assms by (auto simp: failureState_def sync_status_ok_def split: if_splits)

lemma deliver_failure_eval:
  assumes "dispatched cfg job (w_now w)" and "w_sap w (od_OrderID (job_Details job)) (job_Details job) = Inl err"
    and "failureState cfg (w_int63n w) job (w_now w) (isRetryable err) err = (st, d)"
  shows "snd (deliver w cfg job e (g, [])) =
    (g\<lparr>sync_jobs := update_where (\<lambda>j. j_id j = job_ID job) (failed_row st d (w_error_text w err) (env_now e)) (sync_jobs g)\<rparr>, [])"
  using assms failureState_status [OF assms(3)]
  by (simp add: deliver_def dispatched_def Let_def handleDeliveryFailure_def errorMessage_def mark_failed_eval)

text \<open>A job that is out of time or out of attempts is declared dead without a request.\<close>

lemma deliver_dead_eval:
  assumes "\<not> dispatched cfg job (w_now w)" and "job_Status job \<noteq> SyncStatusDead"
  obtains m where "snd (deliver w cfg job e (g, [])) =
    (g\<lparr>sync_jobs := update_where (\<lambda>j. j_id j = job_ID job) (failed_row SyncStatusDead (w_now w) m (env_now e)) (sync_jobs g)\<rparr>, [])"
proof -
  have "sync_status_ok SyncStatusDead" by (simp add: sync_status_ok_def)
  then have "\<exists>m. snd (deliver w cfg job e (g, [])) =
    (g\<lparr>sync_jobs := update_where (\<lambda>j. j_id j = job_ID job) (failed_row SyncStatusDead (w_now w) m (env_now e)) (sync_jobs g)\<rparr>, [])"
    using assms
    by (cases "recoveryWindowExpired cfg job (w_now w)")
      (auto simp: deliver_def dispatched_def expireRecoveryWindow_def exceedMaxAttempts_def mark_failed_eval Let_def)
  with that show thesis by blast
qed

lemma deliver_no_faults: "snd (snd (deliver w cfg job e (g, []))) = []"
proof (cases "deliver w cfg job e (g, [])")
  case (fields acts g' fs')
  show ?thesis
  proof (cases "job_Status job = SyncStatusDead")
    case True
    then show ?thesis by (simp add: deliver_def Let_def)
  next
    case False
    from deliver_effect [OF fields this] fields show ?thesis by auto
  qed
qed

section \<open>The drain loop\<close>

lemma drain_ok:
  assumes "db_ok g"
  shows "\<exists>acts g' fs'. drain ws es cfg n (g, fs) = Some (acts, (g', fs')) \<and> db_ok g'"
  using assms
proof (induction "potential cfg g + length fs" arbitrary: g fs n rule: less_induct)
  case less
  obtain r g1 fs1 where claim: "ClaimDue (es n) (g, fs) = (r, (g1, fs1))" by (metis surj_pair)
  then have ok1: "db_ok g1" by (rule ClaimDue_ok [OF less.prems])
  show ?case
  proof (cases "\<exists>job. r = Inr (Some job)")
    case True
    then obtain job where job: "r = Inr (Some job)" by blast
    obtain acts g2 fs2 where del: "deliver (ws n) cfg job (w_session (ws n)) (g1, fs1) = (acts, (g2, fs2))"
      by (metis surj_pair)
    have "potential cfg g2 + length fs2 < potential cfg g + length fs"
      using round_decreases [OF db_ok_jobs_wf [OF less.prems] claim [unfolded job] del] by simp
    from less.hyps [OF this deliver_ok [OF del ok1], of "Suc n"] claim job del show ?thesis
      by (subst drain.simps) auto
  next
    case False
    with claim ok1 show ?thesis by (subst drain.simps) (auto split: sum.splits option.splits)
  qed
qed

text \<open>
  Without database faults the loop ends because a claim found nothing to do, and it takes at
  most as many rounds as the jobs have attempts left.
\<close>

lemma drain_exhausts:
  assumes "db_ok g"
  shows "\<exists>acts g' k. drain ws es cfg n (g, []) = Some (acts, (g', [])) \<and> db_ok g' \<and>
    k \<le> potential cfg g \<and> claim_candidate (env_locked (es (n + k))) (env_now (es (n + k))) g' = None"
  using assms
proof (induction "potential cfg g" arbitrary: g n rule: less_induct)
  case less
  show ?case
  proof (cases "claim_candidate (env_locked (es n)) (env_now (es n)) g")
    case None
    with ClaimDue_eval [OF less.prems, of "es n"] less.prems show ?thesis
      by (subst drain.simps) (auto intro!: exI [of _ 0])
  next
    case (Some j)
    let ?job = "claim_answer (es n) g j" and ?g1 = "lock_job (env_now (es n)) j g"
    have claim: "ClaimDue (es n) (g, []) = (Inr (Some ?job), (?g1, []))"
      using ClaimDue_eval [OF less.prems, of "es n"] Some by simp
    obtain acts g2 where del: "deliver (ws n) cfg ?job (w_session (ws n)) (?g1, []) = (acts, (g2, []))"
      using deliver_no_faults by (metis surj_pair snd_conv)
    have ok2: "db_ok g2" by (rule deliver_ok [OF del ClaimDue_ok [OF less.prems claim]])
    have dec: "potential cfg g2 < potential cfg g"
      using round_decreases [OF db_ok_jobs_wf [OF less.prems] claim del] by simp
    from less.hyps [OF dec ok2, of "Suc n"] obtain rest g' k where
      "drain ws es cfg (Suc n) (g2, []) = Some (rest, (g', []))" "db_ok g'" "k \<le> potential cfg g2"
      "claim_candidate (env_locked (es (Suc n + k))) (env_now (es (Suc n + k))) g' = None" by blast
    with claim del dec show ?thesis
      by (subst drain.simps) (auto intro!: exI [of _ "Suc k"])
  qed
qed

end
