(* ===== verification/Listener.thy ===== *)
theory Listener
  imports Dispatch
begin

text \<open>
  How the worker learns of new work: the trigger on \<open>sync_jobs\<close>
  (\<open>migrations/001_initial.sql\<close>), the listening connection with its two channels
  (\<open>Watch\<close> in \<open>sync_job_repository.go\<close>) and the loop of \<open>worker.go\<close>, composed with the rest of
  the system. The theorem at the end is that the loop never sleeps through work that is due.
\<close>

section \<open>The listening connection\<close>

text \<open>
  The two channels have one slot each: \<open>ls_wakeup\<close> says whether a wake-up is buffered,
  \<open>ls_error\<close> holds a buffered error, and \<open>ls_closed\<close> that the goroutine has returned, which
  closes both channels and releases the connection.
\<close>

record listener =
  ls_wakeup :: bool
  ls_error :: "go_error option"
  ls_closed :: bool

text \<open>\<open>Watch\<close>: whether a pool is configured, and the outcomes of \<open>Acquire\<close> and of \<open>LISTEN\<close>.\<close>

definition Watch :: "bool \<Rightarrow> go_error option \<Rightarrow> go_error option \<Rightarrow> go_error + listener" where
  "Watch configured acquire listen =
     (if \<not> configured then Inl (Errorf ''sync job listener is not configured'' [])
      else case acquire of
        Some err \<Rightarrow> Inl (Wrapf ''acquire sync job listener connection: %w'' [] err)
      | None \<Rightarrow>
          (case listen of
             Some err \<Rightarrow> Inl (Wrapf ''listen for sync job changes: %w'' [] err)
           | None \<Rightarrow> Inr \<lparr>ls_wakeup = False, ls_error = None, ls_closed = False\<rparr>))"

text \<open>
  One round of the goroutine: \<open>WaitForNotification\<close> returned a notification, or an error
  while the context was alive or ended. A wake-up that finds the slot taken is dropped.
\<close>

datatype wait_outcome = Notification | WaitFailed go_error bool

definition watch_round :: "wait_outcome \<Rightarrow> listener \<Rightarrow> listener" where
  "watch_round outcome l =
     (case outcome of
        Notification \<Rightarrow> l\<lparr>ls_wakeup := True\<rparr>
      | WaitFailed waitErr ctx_ended \<Rightarrow>
          (if ctx_ended then l\<lparr>ls_closed := True\<rparr> else l\<lparr>ls_error := Some waitErr, ls_closed := True\<rparr>))"

text \<open>
  The trigger fires for every inserted row and for every update that sets \<open>status\<close> or
  \<open>due_at\<close>, as all updates of the program do; the server sends the notification when the
  transaction commits. So a commit that changes the table is notified.
\<close>

definition notify_sync_job_change :: "pg \<Rightarrow> pg \<Rightarrow> nat" where
  "notify_sync_job_change g g' = (if sync_jobs g' = sync_jobs g then 0 else 1)"

section \<open>The loop, the listener and the database together\<close>

text \<open>
  Where the loop is: in \<open>drainDue\<close>, about to arm its timer, or blocked in its \<open>select\<close>, for which
  it armed the timer with the given outcome of \<open>NextWake\<close>. \<open>wt_queue\<close> counts the notifications on
  their way to the connection.
\<close>

datatype phase = Draining | Arming | Selecting "go_error + time option"

record watcher =
  wt_sys :: system
  wt_queue :: nat
  wt_listener :: "listener option"
  wt_loop :: loop_state
  wt_phase :: phase

definition loop_start :: "world \<Rightarrow> go_error + listener \<Rightarrow> system \<Rightarrow> watcher" where
  "loop_start lw watch s =
     \<lparr>wt_sys = s, wt_queue = 0, wt_listener = (case watch of Inl _ \<Rightarrow> None | Inr l \<Rightarrow> Some l),
      wt_loop =
        (let l = \<lparr>lp_listening = (\<exists>l. watch = Inr l), lp_reconnectDelay = listenerReconnectMinDelay, lp_timer = None, lp_log = []\<rparr> in
         case watch of Inl err \<Rightarrow> loop_logs lw ''0007'' ''SAP worker listener unavailable'' err l | Inr _ \<Rightarrow> l),
      wt_phase = Draining\<rparr>"

definition wt_initial :: "watcher \<Rightarrow> bool" where
  "wt_initial w \<longleftrightarrow> (\<exists>lw c a l s. db_ok (sys_db s) \<and> w = loop_start lw (Watch c a l) s)"

text \<open>
  The steps: anything the system does (the drain of this worker included) with its
  notification; the goroutine's rounds; the end of a drain; arming the timer; and the four
  cases of the \<open>select\<close>. A notification may also come without a change.
\<close>

inductive wt_step :: "go_lib \<Rightarrow> Config \<Rightarrow> watcher \<Rightarrow> watcher \<Rightarrow> bool" for lib :: go_lib and cfg :: Config where
  system: "sys_step lib cfg (wt_sys w) s \<Longrightarrow>
    wt_step lib cfg w (w\<lparr>wt_sys := s, wt_queue := wt_queue w + notify_sync_job_change (sys_db (wt_sys w)) (sys_db s) + spurious\<rparr>)"
| notified: "wt_listener w = Some l \<Longrightarrow> \<not> ls_closed l \<Longrightarrow> 0 < wt_queue w \<Longrightarrow>
    wt_step lib cfg w (w\<lparr>wt_queue := wt_queue w - 1, wt_listener := Some (watch_round Notification l)\<rparr>)"
| connection_lost: "wt_listener w = Some l \<Longrightarrow> \<not> ls_closed l \<Longrightarrow>
    wt_step lib cfg w (w\<lparr>wt_queue := 0, wt_listener := Some (watch_round (WaitFailed err ended) l)\<rparr>)"
| drained: "wt_phase w = Draining \<Longrightarrow> wt_step lib cfg w (w\<lparr>wt_phase := Arming\<rparr>)"
| arm: "wt_phase w = Arming \<Longrightarrow> env_now e = sys_now (wt_sys w) \<Longrightarrow> SyncJobRepository_NextWake e (sys_db (wt_sys w), fs) = (r, s') \<Longrightarrow>
    wt_step lib cfg w (w\<lparr>wt_loop := loop_arm lw (sys_now (wt_sys w)) r (wt_loop w), wt_phase := Selecting r\<rparr>)"
| select_wakeup: "wt_phase w = Selecting r \<Longrightarrow> wt_listener w = Some l \<Longrightarrow> ls_wakeup l \<Longrightarrow>
    loop_select lw cfg (Wakeup True) (wt_loop w) = Some (lp, True) \<Longrightarrow>
    wt_step lib cfg w (w\<lparr>wt_listener := Some (l\<lparr>ls_wakeup := False\<rparr>), wt_loop := lp, wt_phase := Draining\<rparr>)"
| select_closed: "wt_phase w = Selecting r \<Longrightarrow> wt_listener w = Some l \<Longrightarrow> ls_closed l \<Longrightarrow>
    ev = Wakeup False \<and> \<not> ls_wakeup l \<or> ev = ListenerError (ls_error l) \<Longrightarrow>
    loop_select lw cfg ev (wt_loop w) = Some (lp, False) \<Longrightarrow>
    wt_step lib cfg w (w\<lparr>wt_listener := None, wt_loop := lp, wt_phase := Arming\<rparr>)"
| select_timer: "wt_phase w = Selecting r \<Longrightarrow> lp_timer (wt_loop w) = Some t \<Longrightarrow> t \<le> sys_now (wt_sys w) \<Longrightarrow> wt_listener w \<noteq> None \<Longrightarrow>
    loop_select lw cfg (TimerFired None) (wt_loop w) = Some (lp, True) \<Longrightarrow>
    wt_step lib cfg w (w\<lparr>wt_loop := lp, wt_phase := Draining\<rparr>)"
| reconnect: "wt_phase w = Selecting r \<Longrightarrow> lp_timer (wt_loop w) = Some t \<Longrightarrow> t \<le> sys_now (wt_sys w) \<Longrightarrow> wt_listener w = None \<Longrightarrow>
    watch = Watch True acquire listen \<Longrightarrow>
    loop_select lw cfg (TimerFired (case watch of Inl err \<Rightarrow> Some err | Inr _ \<Rightarrow> None)) (wt_loop w) = Some (lp, False) \<Longrightarrow>
    wt_step lib cfg w (w\<lparr>wt_queue := 0, wt_listener := (case watch of Inl _ \<Rightarrow> None | Inr l \<Rightarrow> Some l), wt_loop := lp, wt_phase := Arming\<rparr>)"

section \<open>The invariant\<close>

text \<open>The earliest wake-up of a database.\<close>

definition wake_time :: "pg \<Rightarrow> time option" where
  "wake_time g = first_min id (List.map_filter job_wake (filter (order_not_cancelled g) (sync_jobs g)))"

text \<open>
  The loop knows whether it listens, and while it does its reconnect delay is the shortest one.
  While it is blocked on a live connection, either news is on the way, or the timer was armed for
  the wake-up of the database as it is now; when \<open>NextWake\<close> failed, the timer was armed with the
  reconnect delay.
\<close>

definition timer_set :: "watcher \<Rightarrow> (time \<Rightarrow> time option) \<Rightarrow> bool" where
  "timer_set w timer \<longleftrightarrow> (\<exists>armed. armed \<le> sys_now (wt_sys w) \<and> lp_timer (wt_loop w) = timer armed)"

definition wt_inv :: "watcher \<Rightarrow> bool" where
  "wt_inv w \<longleftrightarrow>
     db_ok (sys_db (wt_sys w)) \<and> (lp_listening (wt_loop w) \<longleftrightarrow> wt_listener w \<noteq> None) \<and>
     (lp_listening (wt_loop w) \<longrightarrow> lp_reconnectDelay (wt_loop w) = listenerReconnectMinDelay) \<and>
     (\<forall>l err. wt_listener w = Some l \<and> wt_phase w = Selecting (Inl err) \<longrightarrow>
        timer_set w (\<lambda>armed. Some (armed + listenerReconnectMinDelay))) \<and>
     (\<forall>l wake. wt_listener w = Some l \<and> wt_phase w = Selecting (Inr wake) \<longrightarrow>
        ls_wakeup l \<or> ls_closed l \<or> 0 < wt_queue w \<or>
        (wake = wake_time (sys_db (wt_sys w)) \<and> timer_set w (\<lambda>armed. armTimer armed wake)))"

lemma timer_set_later:
  "timer_set w timer \<Longrightarrow> lp_timer (wt_loop w') = lp_timer (wt_loop w) \<Longrightarrow> sys_now (wt_sys w) \<le> sys_now (wt_sys w') \<Longrightarrow>
   timer_set w' timer"
  by (auto simp: timer_set_def intro: order_trans)

lemma wake_time_jobs:
  assumes "db_ok g" and "db_ok g'" and "sync_jobs g' = sync_jobs g"
  shows "wake_time g' = wake_time g"
proof -
  have "wake_time h = first_min id (List.map_filter job_wake (sync_jobs h))" if "db_ok h" for h
  proof -
    have "filter (order_not_cancelled h) (sync_jobs h) = sync_jobs h" using job_order_paid [OF that] by (auto simp: filter_id_conv)
    then show ?thesis by (simp add: wake_time_def)
  qed
  with assms show ?thesis by simp
qed

lemma sys_step_now: "sys_step lib cfg s t \<Longrightarrow> sys_now s \<le> sys_now t"
  by (induction rule: sys_step.induct) simp_all

lemma NextWake_eval: "SyncJobRepository_NextWake e (g, fs) = (Inr wake, s') \<Longrightarrow> wake = wake_time g"
  by (auto simp: SyncJobRepository_NextWake_def NextWake_def select_def wrapf_def statement_def wake_time_def
      split: prod.splits sum.splits fault.splits)

lemmas loop_select_defs = loop_select_def Let_def

lemma wt_step_inv:
  assumes "wt_step lib cfg w w'" and inv: "wt_inv w"
  shows "wt_inv w'"
  using assms(1)
proof cases
  case (system s spurious)
  have ok: "db_ok (sys_db (wt_sys w))" using inv by (simp add: wt_inv_def)
  have ok': "db_ok (sys_db s)" by (rule order_sync.step_inv [OF ok system(2)])
  have later: "timer_set w' timer" if "timer_set w timer" for timer
    using that by (rule timer_set_later) (simp_all add: system(1) sys_step_now [OF system(2)])
  show ?thesis
  proof (cases "sync_jobs (sys_db s) = sync_jobs (sys_db (wt_sys w))")
    case True
    then have "wake_time (sys_db s) = wake_time (sys_db (wt_sys w))" by (rule wake_time_jobs [OF ok ok'])
    with system(1) inv ok' later True show ?thesis by (fastforce simp: wt_inv_def notify_sync_job_change_def)
  next
    case False
    with system(1) inv ok' later show ?thesis by (auto simp: wt_inv_def notify_sync_job_change_def)
  qed
next
  case (arm e fs r s')
  have "wake = wake_time (sys_db (wt_sys w))" if "r = Inr wake" for wake using NextWake_eval arm(4) that by blast
  with arm inv show ?thesis by (auto simp: wt_inv_def timer_set_def loop_arm_def armTimer_def listenerReconnectMinDelay_def millisecond_def intro!: exI [of _ "sys_now (wt_sys w)"] split: sum.splits)
qed (use inv in \<open>auto simp: wt_inv_def timer_set_def watch_round_def loop_select_defs split: if_splits sum.splits option.splits loop_event.splits\<close>)

interpretation watch: invariant_system wt_initial "wt_step lib cfg" wt_inv
  for lib cfg
proof unfold_locales
  fix w assume "wt_initial w"
  then obtain lw c a l s where s: "db_ok (sys_db s)" "w = loop_start lw (Watch c a l) s" by (auto simp: wt_initial_def)
  then show "wt_inv w" by (cases "Watch c a l") (auto simp: wt_inv_def loop_start_def)
qed (rule wt_step_inv)

text \<open>A due job means the wake-up has come.\<close>

lemma wake_time_due:
  assumes "j \<in> set (sync_jobs g)" and "claimable now g j"
  shows "\<exists>t. wake_time g = Some t \<and> t \<le> now"
  using NextWake_due [of 0 g "wake_time g" g now] assms by (auto simp: NextWake_def select_def wake_time_def)

section \<open>Due work is noticed\<close>

text \<open>A select can proceed: a channel has something, or the timer has fired.\<close>

definition select_ready :: "watcher \<Rightarrow> bool" where
  "select_ready w \<longleftrightarrow>
     (\<exists>l. wt_listener w = Some l \<and> (ls_wakeup l \<or> ls_closed l)) \<or>
     (\<exists>t. lp_timer (wt_loop w) = Some t \<and> t \<le> sys_now (wt_sys w))"

lemma select_ready_drains:
  assumes inv: "wt_inv w" and sel: "wt_phase w = Selecting r" and l: "wt_listener w = Some l" and "\<not> ls_closed l" and ready: "select_ready w"
  shows "\<exists>w'. wt_step lib cfg w w' \<and> wt_phase w' = Draining \<and> wt_sys w' = wt_sys w"
proof -
  have lis: "lp_listening (wt_loop w)" using inv l by (simp add: wt_inv_def)
  from ready l assms(4) consider "ls_wakeup l" | t where "lp_timer (wt_loop w) = Some t" "t \<le> sys_now (wt_sys w)"
    by (auto simp: select_ready_def)
  then show ?thesis
  proof cases
    case 1
    have "loop_select undefined cfg (Wakeup True) (wt_loop w) = Some (wt_loop w, True)" by (simp add: loop_select_defs)
    from wt_step.select_wakeup [OF sel l 1 this] show ?thesis by fastforce
  next
    case 2
    have "loop_select undefined cfg (TimerFired None) (wt_loop w) = Some (wt_loop w, True)" using lis by (simp add: loop_select_defs)
    with wt_step.select_timer [OF sel 2] l show ?thesis by fastforce
  qed
qed

lemma due_work_noticed:
  assumes inv: "wt_inv w" and sel: "wt_phase w = Selecting (Inr wake)" and l: "wt_listener w = Some l"
    and due: "j \<in> set (sync_jobs (sys_db (wt_sys w)))" "claimable (sys_now (wt_sys w)) (sys_db (wt_sys w)) j"
  shows "select_ready w \<or> (0 < wt_queue w \<and> \<not> ls_closed l)"
proof -
  from wake_time_due [OF due] obtain t where t: "wake_time (sys_db (wt_sys w)) = Some t" "t \<le> sys_now (wt_sys w)" by blast
  have "lp_timer (wt_loop w) = Some (armed + max (t - armed) 0) \<Longrightarrow> armed \<le> sys_now (wt_sys w) \<Longrightarrow> select_ready w" for armed
    using t(2) by (auto simp: select_ready_def max_def)
  moreover from inv sel l have "ls_wakeup l \<or> ls_closed l \<or> 0 < wt_queue w \<or>
      (wake = wake_time (sys_db (wt_sys w)) \<and> (\<exists>armed. armed \<le> sys_now (wt_sys w) \<and> lp_timer (wt_loop w) = armTimer armed wake))"
    by (simp add: wt_inv_def timer_set_def)
  ultimately show ?thesis using t(1) l by (auto simp: armTimer_def select_ready_def)
qed

text \<open>
  A notification on its way makes the select ready when it arrives. After a failed \<open>NextWake\<close> the
  select is ready once the reconnect delay has passed.
\<close>

lemma due_work_drained:
  assumes inv: "wt_inv w" and sel: "wt_phase w = Selecting (Inr wake)" and l: "wt_listener w = Some l" "\<not> ls_closed l"
    and due: "j \<in> set (sync_jobs (sys_db (wt_sys w)))" "claimable (sys_now (wt_sys w)) (sys_db (wt_sys w)) j"
  shows "\<exists>w' w''. (w' = w \<or> wt_step lib cfg w w') \<and> wt_step lib cfg w' w'' \<and> wt_phase w'' = Draining \<and> wt_sys w'' = wt_sys w"
proof (cases "select_ready w")
  case True
  with select_ready_drains [OF inv sel l] show ?thesis by blast
next
  case False
  then have q: "0 < wt_queue w" using due_work_noticed [OF inv sel l(1) due] by simp
  let ?l = "watch_round Notification l"
  let ?w = "w\<lparr>wt_queue := wt_queue w - 1, wt_listener := Some ?l\<rparr>"
  have step: "wt_step lib cfg w ?w" by (rule wt_step.notified [OF l q])
  have "\<exists>w''. wt_step lib cfg ?w w'' \<and> wt_phase w'' = Draining \<and> wt_sys w'' = wt_sys ?w"
    by (rule select_ready_drains [OF wt_step_inv [OF step inv], where r = "Inr wake" and l = ?l])
      (use sel l in \<open>auto simp: select_ready_def watch_round_def\<close>)
  with step show ?thesis by auto
qed

definition wt_wait :: "int \<Rightarrow> watcher \<Rightarrow> watcher" where
  "wt_wait d w = w\<lparr>wt_sys := wt_sys w\<lparr>sys_now := sys_now (wt_sys w) + d\<rparr>\<rparr>"

lemma wt_wait_simps [simp]:
  "wt_sys (wt_wait d w) = wt_sys w\<lparr>sys_now := sys_now (wt_sys w) + d\<rparr>" "wt_queue (wt_wait d w) = wt_queue w"
  "wt_listener (wt_wait d w) = wt_listener w" "wt_loop (wt_wait d w) = wt_loop w" "wt_phase (wt_wait d w) = wt_phase w"
  "wt_wait 0 w = w"
  by (simp_all add: wt_wait_def)

lemma wt_wait_step: "0 \<le> d \<Longrightarrow> wt_step lib cfg w (wt_wait d w)"
  using wt_step.system [OF sys_step.tick [of "wt_sys w" "sys_now (wt_sys w) + d"], of lib cfg 0]
  by (simp add: wt_wait_def notify_sync_job_change_def)

lemma failed_reconciliation_drained:
  assumes inv: "wt_inv w" and sel: "wt_phase w = Selecting (Inl err)" and l: "wt_listener w = Some l" "\<not> ls_closed l"
  shows "\<exists>d w'. 0 \<le> d \<and> d \<le> listenerReconnectMinDelay \<and> wt_step lib cfg w (wt_wait d w) \<and>
    wt_step lib cfg (wt_wait d w) w' \<and> wt_phase w' = Draining \<and> wt_sys w' = wt_sys (wt_wait d w)"
proof -
  from inv sel l(1) obtain armed where armed: "armed \<le> sys_now (wt_sys w)"
    and timer: "lp_timer (wt_loop w) = Some (armed + listenerReconnectMinDelay)" by (auto simp: wt_inv_def timer_set_def)
  define d where "d = max 0 (armed + listenerReconnectMinDelay - sys_now (wt_sys w))"
  have d: "0 \<le> d" "d \<le> listenerReconnectMinDelay"
    using armed by (simp_all add: d_def listenerReconnectMinDelay_def millisecond_def)
  have step: "wt_step lib cfg w (wt_wait d w)" using d(1) by (rule wt_wait_step)
  have "select_ready (wt_wait d w)" using timer by (simp add: select_ready_def d_def max_def)
  then have "\<exists>w'. wt_step lib cfg (wt_wait d w) w' \<and> wt_phase w' = Draining \<and> wt_sys w' = wt_sys (wt_wait d w)"
    by (intro select_ready_drains [OF wt_step_inv [OF step inv], where r = "Inl err" and l = l]) (use sel l in simp_all)
  with d step show ?thesis by blast
qed

end
