(* ===== verification/Settling.thy ===== *)
theory Settling
  imports Listener
begin

text \<open>
  The loop of the worker over time: it arms its timer for the earliest wake-up, the timer
  fires, and it drains. Without database faults every job is settled, SYNCED or DEAD, after a
  bounded number of rounds, whatever SAP answers.
\<close>

section \<open>Rounds of the loop\<close>

text \<open>
  The database after \<open>k\<close> rounds. Round \<open>k\<close> has its own sequence of worlds and session
  environments, one for each claim of its drain; \<open>None\<close> would be a drain that does not end.
\<close>

fun loop_rounds :: "(nat \<Rightarrow> nat \<Rightarrow> world) \<Rightarrow> (nat \<Rightarrow> nat \<Rightarrow> env) \<Rightarrow> Config \<Rightarrow> nat \<Rightarrow> pg \<Rightarrow> pg option" where
  "loop_rounds ws es cfg 0 g = Some g"
| "loop_rounds ws es cfg (Suc k) g =
     (case loop_rounds ws es cfg k g of
        None \<Rightarrow> None
      | Some h \<Rightarrow>
          (case drainDue (ws k) (es k) cfg (False, (h, [])) of
             None \<Rightarrow> None
           | Some (acts, running, (h', fs)) \<Rightarrow> Some h'))"

definition settled :: "job_row \<Rightarrow> bool" where
  "settled j \<longleftrightarrow> j_status j = SyncStatusSynced \<or> j_status j = SyncStatusDead"

text \<open>The timer of round \<open>k\<close> fires when the earliest wake-up has come, not before.\<close>

definition timer_fires :: "(nat \<Rightarrow> env) \<Rightarrow> pg \<Rightarrow> bool" where
  "timer_fires es h \<longleftrightarrow> (case wake_time h of None \<Rightarrow> True | Some t \<Rightarrow> t \<le> env_now (es 0) \<and> env_locked (es 0) = [])"

section \<open>Progress of a round\<close>

lemma unsettled_wakes:
  assumes ok: "db_ok g" and j: "j \<in> set (sync_jobs g)" "\<not> settled j"
  shows "\<exists>t. job_wake j = Some t"
proof -
  have "job_row_ok j" using ok j(1) by (auto simp: db_ok_def outbox_ok_def)
  with j(2) show ?thesis by (auto simp: job_row_ok_def settled_def job_wake_def scheduled_def split: option.split)
qed

lemma unsettled_wake_time:
  assumes ok: "db_ok g" and j: "j \<in> set (sync_jobs g)" "\<not> settled j"
  shows "wake_time g \<noteq> None"
proof -
  from unsettled_wakes [OF assms] obtain t where t: "job_wake j = Some t" ..
  have "order_not_cancelled g j" using job_order_paid [OF ok j(1)] by blast
  with j(1) t have "t \<in> set (List.map_filter job_wake (filter (order_not_cancelled g) (sync_jobs g)))"
    by (auto simp: map_filter_mem)
  then show ?thesis unfolding wake_time_def by (cases "List.map_filter job_wake (filter (order_not_cancelled g) (sync_jobs g))") (auto split: option.split)
qed

lemma potential_zero: "potential cfg g = 0 \<longleftrightarrow> (\<forall>j \<in> set (sync_jobs g). rounds_left cfg j = 0)"
  by (simp add: potential_def)

lemma rounds_left_settled:
  assumes "job_row_ok j"
  shows "rounds_left cfg j = 0 \<longleftrightarrow> settled j"
  using assms by (auto simp: rounds_left_def settled_def job_row_ok_def)

lemma potential_settled:
  assumes "db_ok g"
  shows "potential cfg g = 0 \<longleftrightarrow> (\<forall>j \<in> set (sync_jobs g). settled j)"
proof -
  have "\<forall>j \<in> set (sync_jobs g). job_row_ok j" using assms by (auto simp: db_ok_def outbox_ok_def)
  then show ?thesis using rounds_left_settled by (auto simp: potential_zero)
qed

text \<open>A drain that finds something due uses up a round of a job.\<close>

lemma drain_progress:
  assumes ok: "db_ok g"
  shows "\<exists>acts g'. drain ws es cfg n (g, []) = Some (acts, (g', [])) \<and> db_ok g' \<and> potential cfg g' \<le> potential cfg g \<and>
    (claim_candidate (env_locked (es n)) (env_now (es n)) g \<noteq> None \<longrightarrow> potential cfg g' < potential cfg g)"
  using ok
proof (induction "potential cfg g" arbitrary: g n rule: less_induct)
  case less
  show ?case
  proof (cases "claim_candidate (env_locked (es n)) (env_now (es n)) g")
    case None
    with ClaimDue_eval [OF less.prems, of "es n"] less.prems show ?thesis by (subst drain.simps) simp
  next
    case (Some j)
    let ?job = "claim_answer (es n) g j" and ?g1 = "lock_job (env_now (es n)) j g"
    have claim: "ClaimDue (es n) (g, []) = (Inr (Some ?job), (?g1, []))"
      using ClaimDue_eval [OF less.prems, of "es n"] Some by simp
    obtain acts g2 where del: "deliver (ws n) cfg ?job (w_session (ws n)) (?g1, []) = (acts, (g2, []))"
      using deliver_no_faults by (metis surj_pair snd_conv)
    have ok2: "db_ok g2" by (rule deliver_ok [OF del ClaimDue_ok [OF less.prems claim]])
    have dec: "potential cfg g2 < potential cfg g"
      using round_decreases [OF db_ok_jobs_wf [OF less.prems] claim del] by simp
    from less.hyps [OF dec ok2, of "Suc n"] obtain rest g' where
      "drain ws es cfg (Suc n) (g2, []) = Some (rest, (g', []))" "db_ok g'" "potential cfg g' \<le> potential cfg g2" by blast
    with claim del dec show ?thesis by (subst drain.simps) auto
  qed
qed

lemma round_progress:
  assumes ok: "db_ok g" and fires: "timer_fires es g"
  shows "\<exists>acts g'. drainDue ws es cfg (False, (g, [])) = Some (acts, False, (g', [])) \<and> db_ok g' \<and>
    (potential cfg g' < potential cfg g \<or> potential cfg g = 0 \<and> potential cfg g' = 0)"
proof -
  obtain acts g' where drain: "drain ws es cfg 0 (g, []) = Some (acts, (g', []))" "db_ok g'" "potential cfg g' \<le> potential cfg g"
    "claim_candidate (env_locked (es 0)) (env_now (es 0)) g \<noteq> None \<longrightarrow> potential cfg g' < potential cfg g"
    using drain_progress [OF ok] by metis
  have "potential cfg g' < potential cfg g" if pot: "potential cfg g \<noteq> 0"
  proof -
    from pot potential_settled [OF ok, of cfg] obtain j where "j \<in> set (sync_jobs g)" "\<not> settled j" by auto
    then obtain t where t: "wake_time g = Some t" using unsettled_wake_time [OF ok] by blast
    with fires have now: "t \<le> env_now (es 0)" "env_locked (es 0) = []" by (simp_all add: timer_fires_def)
    have "NextWake 0 g = Inr (Some t, g)" using t by (simp add: NextWake_def select_def wake_time_def)
    from NextWake_due [OF this, of "env_now (es 0)"] now(1) obtain k where "k \<in> set (sync_jobs g)" "claimable (env_now (es 0)) g k" by auto
    then have "claim_candidate (env_locked (es 0)) (env_now (es 0)) g \<noteq> None" using claim_candidate_None now(2) by auto
    with drain(4) show ?thesis by blast
  qed
  with drain show ?thesis by (auto simp: drainDue_def)
qed

lemma rounds_progress:
  assumes ok: "db_ok g" and fires: "\<And>k h. loop_rounds ws es cfg k g = Some h \<Longrightarrow> timer_fires (es k) h"
  shows "\<exists>h. loop_rounds ws es cfg k g = Some h \<and> db_ok h \<and> potential cfg h \<le> potential cfg g - k"
proof (induction k)
  case (Suc k)
  then obtain h where h: "loop_rounds ws es cfg k g = Some h" "db_ok h" "potential cfg h \<le> potential cfg g - k" by blast
  from round_progress [OF h(2) fires [OF h(1)], of "ws k" cfg] obtain acts h' where
    "drainDue (ws k) (es k) cfg (False, (h, [])) = Some (acts, False, (h', []))" "db_ok h'"
    "potential cfg h' < potential cfg h \<or> potential cfg h = 0 \<and> potential cfg h' = 0" by blast
  with h show ?case by auto
qed (use ok in simp)

lemma rounds_settle:
  assumes "db_ok g" and "\<And>k h. loop_rounds ws es cfg k g = Some h \<Longrightarrow> timer_fires (es k) h" and "potential cfg g \<le> k"
  shows "\<exists>h. loop_rounds ws es cfg k g = Some h \<and> db_ok h \<and> (\<forall>j \<in> set (sync_jobs h). settled j)"
proof -
  from rounds_progress [where ws = ws and es = es and cfg = cfg and k = k, OF assms(1,2)] obtain h where "loop_rounds ws es cfg k g = Some h" "db_ok h" "potential cfg h = 0"
    using assms(3) by auto
  then show ?thesis using potential_settled by blast
qed

text \<open>The number of rounds, in the terms of the configuration.\<close>

lemma potential_bound: "db_ok g \<Longrightarrow> potential cfg g \<le> length (sync_jobs g) * nat (maxTotalAttempts cfg + 1)"
proof -
  assume ok: "db_ok g"
  have "rounds_left cfg j \<le> nat (maxTotalAttempts cfg + 1)" if "j \<in> set (sync_jobs g)" for j
  proof -
    have "0 \<le> j_attempts j" using ok that by (auto simp: db_ok_def outbox_ok_def job_row_ok_def)
    then show ?thesis using maxTotalAttempts_pos [of cfg] by (auto simp: rounds_left_def nat_le_eq_zle nat_add_distrib)
  qed
  then have "sum_list (map (rounds_left cfg) (sync_jobs g)) \<le> sum_list (map (\<lambda>_. nat (maxTotalAttempts cfg + 1)) (sync_jobs g))"
    by (rule sum_list_mono)
  then show ?thesis by (simp add: potential_def sum_list_triv)
qed

end
