(* ===== verification/Overlap.thy ===== *)
theory Overlap
  imports Progress
begin

text \<open>
  Two transactions at once. The service runs its transactions under READ COMMITTED
  (\<open>pool.Begin\<close> with no options): a statement sees what was committed before it began and what its own
  transaction did. The system of theory \<open>System\<close> runs them one after the other; this theory adds
  the overlap in which both transactions run all their statements before either commits.
\<close>

section \<open>Overlapping transactions\<close>

text \<open>The rows a transaction added to a table, if it did nothing else to it.\<close>

definition added :: "'a list \<Rightarrow> 'a list \<Rightarrow> 'a list option" where
  "added before after = (if take (length before) after = before then Some (drop (length before) after) else None)"

definition fresh_keys :: "('a \<Rightarrow> 'k) \<Rightarrow> 'a list \<Rightarrow> 'a list \<Rightarrow> bool" where
  "fresh_keys k xs ys \<longleftrightarrow> k ` set xs \<inter> k ` set ys = {}"

text \<open>
  Two transactions that start from \<open>g\<close> and reach \<open>g1\<close> and \<open>g2\<close> in their own views. If both only add rows,
  no two of them under the same unique key, and do not draw from the same sequence, then neither
  waits for the other and both commit; the database then has the rows of both. Otherwise (\<open>None\<close>)
  one would have to wait or their identifiers would have to be drawn in some order.
\<close>

definition overlap :: "pg \<Rightarrow> pg \<Rightarrow> pg \<Rightarrow> pg option" where
  "overlap g g1 g2 =
     (case (added (orders g) (orders g1), added (orders g) (orders g2)) of (Some o1, Some o2) \<Rightarrow>
     (case (added (order_items g) (order_items g1), added (order_items g) (order_items g2)) of (Some i1, Some i2) \<Rightarrow>
     (case (added (webhook_events g) (webhook_events g1), added (webhook_events g) (webhook_events g2)) of (Some e1, Some e2) \<Rightarrow>
     (case (added (payments g) (payments g1), added (payments g) (payments g2)) of (Some p1, Some p2) \<Rightarrow>
     (case (added (sync_jobs g) (sync_jobs g1), added (sync_jobs g) (sync_jobs g2)) of (Some j1, Some j2) \<Rightarrow>
       if fresh_keys o_order_id o1 o2 \<and> fresh_keys (\<lambda>r. (e_event_type r, e_event_id r)) e1 e2 \<and>
          fresh_keys p_reference_order_id p1 p2 \<and> fresh_keys j_order_id j1 j2 \<and>
          (orders_seq g1 = orders_seq g \<or> orders_seq g2 = orders_seq g) \<and>
          (payments_seq g1 = payments_seq g \<or> payments_seq g2 = payments_seq g) \<and>
          (sync_jobs_seq g1 = sync_jobs_seq g \<or> sync_jobs_seq g2 = sync_jobs_seq g) \<and>
          sku_classifications g1 = sku_classifications g \<and> sku_classifications g2 = sku_classifications g
       then Some (g\<lparr>orders := orders g @ o1 @ o2, order_items := order_items g @ i1 @ i2, webhook_events := webhook_events g @ e1 @ e2,
         payments := payments g @ p1 @ p2, sync_jobs := sync_jobs g @ j1 @ j2,
         orders_seq := max (orders_seq g1) (orders_seq g2), payments_seq := max (payments_seq g1) (payments_seq g2),
         sync_jobs_seq := max (sync_jobs_seq g1) (sync_jobs_seq g2)\<rparr>)
       else None
     | _ \<Rightarrow> None) | _ \<Rightarrow> None) | _ \<Rightarrow> None) | _ \<Rightarrow> None) | _ \<Rightarrow> None)"

lemma added_append [simp]: "added xs (xs @ ys) = Some ys"
  by (simp add: added_def)

lemma added_same [simp]: "added xs xs = Some []"
  by (simp add: added_def)

section \<open>An order and its payment, each unseen by the other\<close>

text \<open>What the two services do when neither the order nor the payment is there.\<close>

lemma bind_step: "m e s = (Inr x, s') \<Longrightarrow> f x e s' = r \<Longrightarrow> bind_op m f e s = r"
  by (simp add: bind_op_def)

lemma bind_wrapf_step: "m e s = (Inr x, s') \<Longrightarrow> f x e s' = r \<Longrightarrow> bind_op (wrapf fmt a m) f e s = r"
  by (simp add: bind_op_def wrapf_def)

lemma mark_own_event:
  assumes "stored_event g t i = None" and "webhook_events h = webhook_events g @ [ev]" and "e_event_type ev = t" and "e_event_id ev = i"
  shows "EventRepository_MarkProcessed t i e (h, []) =
    (Inr (), (h\<lparr>webhook_events := webhook_events g @ [ev\<lparr>e_processed_at := Some (env_now e)\<rparr>]\<rparr>, []))"
proof -
  have "update_where (\<lambda>r. e_event_type r = t \<and> e_event_id r = i) (\<lambda>r. r\<lparr>e_processed_at := Some (env_now e)\<rparr>) (webhook_events g) = webhook_events g"
    using assms(1) by (intro update_where_none) (auto simp: stored_event_None)
  then show ?thesis
    using assms(2-4) by (simp add: EventRepository_MarkProcessed_def wrapf_def statement_eval MarkEventProcessed_def update_where_def)
qed

definition new_event :: "string \<Rightarrow> EventType \<Rightarrow> event_payload \<Rightarrow> time \<Rightarrow> event_row" where
  "new_event i t p now = \<lparr>e_event_id = i, e_event_type = t, e_payload = p, e_processed_at = None, e_created_at = now\<rparr>"

lemma record_new_event:
  "recordable e g i t p \<Longrightarrow> stored_event g t i = None \<Longrightarrow> EventRepository_Record i t p e (g, []) =
     (Inr True, (g\<lparr>webhook_events := webhook_events g @ [new_event i t p (env_now e)]\<rparr>, []))"
  by (simp add: EventRepository_Record_def bind_op_def wrapf_def indexed_statement_eval InsertEvent_def recordable_def stored_event_None
      ret_def new_event_def)

lemma create_new_order:
  assumes "find_order_row g r = None" and "text_ok r" and "text_ok m" and "env_index_row e [r]"
  shows "OrderRepository_Create r m e (g, []) = (Inr (orders_seq g + 1), (g\<lparr>orders_seq := orders_seq g + 1, orders := orders g @
    [\<lparr>o_id = orders_seq g + 1, o_order_id = r, o_customer_email = m, o_payment_status = OrderStatePending, o_sap_id = None,
      o_paid_at = None, o_created_at = env_now e, o_updated_at = env_now e\<rparr>]\<rparr>, []))"
proof -
  have "\<not> (\<exists>w \<in> set (orders g). o_order_id w = r)" using assms(1) by (auto simp: find_order_row_def find_None_iff)
  with assms(2-) show ?thesis by (simp add: OrderRepository_Create_def bind_op_def wrapf_def indexed_statement_eval InsertOrder_def Let_def ret_def)
qed

lemma shop_unseen:
  assumes ev: "stored_event g EventTypeShop (sw_EventID p) = None" and new: "find_order_row g (sw_OrderID p) = None"
    and pay: "find_payment_row g (sw_OrderID p) = None" and items: "\<forall>item \<in> set (sw_Items p). stored_item item \<noteq> None"
    and seq: "0 \<le> orders_seq g" and recordable: "recordable e g (sw_EventID p) EventTypeShop (ShopPayload p)"
  obtains x v rows where "processShop p cfg e (g, []) = (Inr x, (g\<lparr>webhook_events := webhook_events g @ [v],
      orders_seq := orders_seq g + 1, orders := orders g @ [pending_order p (orders_seq g + 1) (env_now e)],
      order_items := order_items g @ rows\<rparr>, []))"
    "\<not> wr_Duplicate x" "e_event_type v = EventTypeShop" "e_event_id v = sw_EventID p"
proof -
  let ?i = "orders_seq g + 1" and ?row = "pending_order p (orders_seq g + 1) (env_now e)"
  let ?v = "new_event (sw_EventID p) EventTypeShop (ShopPayload p) (env_now e)"
  let ?g1 = "g\<lparr>webhook_events := webhook_events g @ [?v]\<rparr>"
  let ?g2 = "?g1\<lparr>orders_seq := ?i, orders := orders g @ [?row]\<rparr>"
  note texts = recordable_texts(1) [OF recordable]
  have row: "env_index_row e [sw_OrderID p]" using recordable ev by (simp add: recordable_def)
  have create: "OrderRepository_Create (sw_OrderID p) (sw_CustomerEmail p) e (?g1, []) = (Inr ?i, (?g2, []))"
    using create_new_order [of ?g1 "sw_OrderID p" "sw_CustomerEmail p" e] new texts row by (simp add: find_order_row_def pending_order_def)
  have "completes (OrderRepository_AddItems ?i (sw_Items p)) e ?g2 (\<lambda>_ h. \<exists>rows. h = ?g2\<lparr>order_items := order_items g @ rows\<rparr>)"
    by (rule completes_AddItems) (use items in \<open>auto simp: order_exists_def pending_order_def\<close>)
  then obtain rows where add: "OrderRepository_AddItems ?i (sw_Items p) e (?g2, []) = (Inr (), (?g2\<lparr>order_items := order_items g @ rows\<rparr>, []))"
    by (auto simp: completes_def)
  let ?g3 = "?g2\<lparr>order_items := order_items g @ rows\<rparr>"
  have find: "PaymentRepository_Find (sw_OrderID p) e (?g3, []) = (Inr None, (?g3, []))"
    using pay by (simp add: PaymentRepository_Find_def FindPayment_def select_def wrapf_def statement_eval find_payment_row_def)
  let ?v' = "?v\<lparr>e_processed_at := Some (env_now e)\<rparr>"
  let ?g4 = "?g3\<lparr>webhook_events := webhook_events g @ [?v']\<rparr>"
  have mark: "EventRepository_MarkProcessed EventTypeShop (sw_EventID p) e (?g3, []) = (Inr (), (?g4, []))"
    by (rule mark_own_event [OF ev]) (simp_all add: new_event_def)
  have "find_order_row ?g4 (sw_OrderID p) = Some ?row"
    using new by (simp add: find_order_row_def find_snoc pending_order_def)
  from shopResult_eval [OF _ this, of "sw_EventID p" "''Order stored''" e] obtain x where
    res: "shopResult (sw_EventID p) (sw_OrderID p) ''Order stored'' e (?g4, []) = (Inr x, (?g4, []))" "\<not> wr_Duplicate x"
    using texts by (simp add: webhook_result_def)
  note rec = record_new_event [OF recordable ev]
  have settle: "reconcilePayment p ?i cfg e (?g3, []) = (Inr (), (?g3, []))"
    unfolding reconcilePayment_def by (rule bind_wrapf_step, rule find) (simp add: ret_def)
  have store: "store_shop_order p ?i cfg e (?g2, []) = (Inr x, (?g4, []))"
    unfolding store_shop_order_def by (rule bind_wrapf_step, rule add, rule bind_step, rule settle, rule bind_wrapf_step, rule mark, rule res(1))
  have "processShop p cfg e (g, []) = (Inr x, (?g4, []))"
    unfolding processShop_def by (rule bind_wrapf_step, rule rec) (simp only: not_True_eq_False if_False, rule bind_wrapf_step, rule create, use store seq in simp)
  moreover have "?g4 = g\<lparr>webhook_events := webhook_events g @ [?v'], orders_seq := ?i, orders := orders g @ [?row], order_items := order_items g @ rows\<rparr>"
    by simp
  ultimately have "processShop p cfg e (g, []) = (Inr x, (g\<lparr>webhook_events := webhook_events g @ [?v'], orders_seq := ?i,
      orders := orders g @ [?row], order_items := order_items g @ rows\<rparr>, []))" by simp
  then show thesis using res(2) by (rule that) (simp_all add: new_event_def)
qed

lemma payment_unseen:
  assumes ev: "stored_event g EventTypePayment (pw_EventID q) = None" and new: "find_order_row g (pw_ReferenceOrderID q) = None"
    and pay: "find_payment_row g (pw_ReferenceOrderID q) = None" and st: "pw_PaymentStatus q = PaymentStatusCompleted"
    and time: "parse_time (pw_Timestamp q) = Some t" and recordable: "recordable e g (pw_EventID q) EventTypePayment (PaymentPayload q)"
  obtains x v where "processPayment upper parse_time q cfg e (g, []) = (Inr x, (g\<lparr>webhook_events := webhook_events g @ [v],
      payments_seq := payments_seq g + 1,
      payments := payments g @ [new_payment (pw_ReferenceOrderID q) None PaymentStatusCompleted (Some t) (env_now e) (payments_seq g + 1)]\<rparr>, []))"
    "\<not> wr_Duplicate x" "wr_Message x = MessageAwaitingShopOrder" "e_event_type v = EventTypePayment" "e_event_id v = pw_EventID q"
proof -
  let ?ref = "pw_ReferenceOrderID q"
  let ?v = "new_event (pw_EventID q) EventTypePayment (PaymentPayload q) (env_now e)"
  let ?g1 = "g\<lparr>webhook_events := webhook_events g @ [?v]\<rparr>"
  let ?row = "new_payment ?ref None PaymentStatusCompleted (Some t) (env_now e) (payments_seq g + 1)"
  let ?g2 = "?g1\<lparr>payments_seq := payments_seq g + 1, payments := payments g @ [?row]\<rparr>"
  have find: "PaymentRepository_Find ?ref e (?g1, []) = (Inr None, (?g1, []))"
    using pay by (simp add: PaymentRepository_Find_def FindPayment_def select_def wrapf_def statement_eval find_payment_row_def)
  have order: "findOrderID ?ref e (?g1, []) = (Inr None, (?g1, []))"
    using new by (simp add: findOrderID_def OrderRepository_FindID_def FindOrderID_def select_def bind_op_def wrapf_def statement_eval ret_def
        find_order_row_def)
  have ref: "text_ok ?ref" "env_index_row e [?ref]"
    using recordable_texts(2) [OF recordable] recordable ev by (simp_all add: recordable_def)
  have upsert: "PaymentRepository_Upsert ?ref PaymentStatusCompleted None (Some t) e (?g1, []) = (Inr (state_of_payment ?row), (?g2, []))"
    using pay ref by (simp add: PaymentRepository_Upsert_def bind_op_def wrapf_def indexed_statement_eval UpsertPayment_def upsert_payment_row_def Let_def
        new_payment_def payment_status_ok_def check_payment_order_def ret_def find_payment_row_def)
  let ?v' = "?v\<lparr>e_processed_at := Some (env_now e)\<rparr>"
  let ?g3 = "?g2\<lparr>webhook_events := webhook_events g @ [?v']\<rparr>"
  have mark: "EventRepository_MarkProcessed EventTypePayment (pw_EventID q) e (?g2, []) = (Inr (), (?g3, []))"
    by (rule mark_own_event [OF ev]) (simp_all add: new_event_def)
  have diff: "PaymentStatusCompleted \<noteq> PaymentStatusCancelled" by (simp add: PaymentStatusCompleted_def PaymentStatusCancelled_def)
  let ?x = "(webhook_result MessageAwaitingShopOrder (pw_EventID q) ?ref)\<lparr>wr_PaymentStatus := ps_Status (state_of_payment ?row)\<rparr>"
  have "processPayment upper parse_time q cfg e (g, []) = (Inr ?x, (?g3, []))"
    using st time diff by (simp add: processPayment_def apply_payment_def bind_op_def wrapf_def record_new_event [OF recordable ev] find order upsert mark ret_def)
  moreover have "?g3 = g\<lparr>webhook_events := webhook_events g @ [?v'], payments_seq := payments_seq g + 1, payments := payments g @ [?row]\<rparr>" by simp
  ultimately have "processPayment upper parse_time q cfg e (g, []) = (Inr ?x, (g\<lparr>webhook_events := webhook_events g @ [?v'],
      payments_seq := payments_seq g + 1, payments := payments g @ [?row]\<rparr>, []))" by simp
  then show thesis by (rule that) (simp_all add: new_event_def webhook_result_def)
qed

text \<open>The two overlap without waiting, and the payment is never applied to the order.\<close>

lemma overlap_unseen:
  assumes ok: "db_ok g" and ev: "stored_event g EventTypeShop (sw_EventID p) = None" "stored_event g EventTypePayment (pw_EventID q) = None"
    and new: "find_order_row g (sw_OrderID p) = None" "find_payment_row g (sw_OrderID p) = None" and ref: "pw_ReferenceOrderID q = sw_OrderID p"
    and items: "\<forall>item \<in> set (sw_Items p). stored_item item \<noteq> None"
    and pay: "pw_PaymentStatus q = PaymentStatusCompleted" "parse_time (pw_Timestamp q) = Some t"
    and rec: "recordable e1 g (sw_EventID p) EventTypeShop (ShopPayload p)" "recordable e2 g (pw_EventID q) EventTypePayment (PaymentPayload q)"
  shows "\<exists>x1 g1 x2 g2 h w. processShop p cfg e1 (g, []) = (Inr x1, (g1, [])) \<and> \<not> wr_Duplicate x1 \<and>
    processPayment upper parse_time q cfg e2 (g, []) = (Inr x2, (g2, [])) \<and> \<not> wr_Duplicate x2 \<and>
    overlap g g1 g2 = Some h \<and> payment_status h (sw_OrderID p) = Some PaymentStatusCompleted \<and>
    find_order_row h (sw_OrderID p) = Some w \<and> o_payment_status w = OrderStatePending \<and>
    (\<forall>j. j \<in> set (sync_jobs h) \<longrightarrow> j_order_id j \<noteq> o_id w)"
proof -
  have wf: "orders_wf g" "outbox_ok g" using ok by (simp_all add: db_ok_def)
  then have seq: "0 \<le> orders_seq g" by (simp add: orders_wf_def)
  obtain x1 v1 rows where shop: "processShop p cfg e1 (g, []) = (Inr x1, (g\<lparr>webhook_events := webhook_events g @ [v1],
      orders_seq := orders_seq g + 1, orders := orders g @ [pending_order p (orders_seq g + 1) (env_now e1)],
      order_items := order_items g @ rows\<rparr>, []))" "\<not> wr_Duplicate x1" "e_event_type v1 = EventTypeShop"
    using shop_unseen [OF ev(1) new items seq rec(1)] by metis
  have new': "find_order_row g (pw_ReferenceOrderID q) = None" "find_payment_row g (pw_ReferenceOrderID q) = None" using new ref by simp_all
  obtain x2 v2 where payment: "processPayment upper parse_time q cfg e2 (g, []) = (Inr x2, (g\<lparr>webhook_events := webhook_events g @ [v2],
      payments_seq := payments_seq g + 1,
      payments := payments g @ [new_payment (pw_ReferenceOrderID q) None PaymentStatusCompleted (Some t) (env_now e2) (payments_seq g + 1)]\<rparr>, []))"
    "\<not> wr_Duplicate x2" "e_event_type v2 = EventTypePayment"
    using payment_unseen [of g q parse_time t, OF ev(2) new' pay rec(2)] by metis
  have types: "EventTypeShop \<noteq> EventTypePayment" by (simp add: EventTypeShop_def EventTypePayment_def)
  have "\<forall>j \<in> set (sync_jobs g). \<exists>r \<in> set (orders g). o_id r = j_order_id j" "\<forall>r \<in> set (orders g). o_id r \<le> orders_seq g"
    using wf by (auto simp: outbox_ok_def orders_wf_def)
  then have "\<forall>j \<in> set (sync_jobs g). j_order_id j \<le> orders_seq g" by metis
  then have jobs: "\<forall>j \<in> set (sync_jobs g). j_order_id j \<noteq> orders_seq g + 1" by auto
  let ?row = "pending_order p (orders_seq g + 1) (env_now e1)"
  let ?pay = "new_payment (pw_ReferenceOrderID q) None PaymentStatusCompleted (Some t) (env_now e2) (payments_seq g + 1)"
  let ?g1 = "g\<lparr>webhook_events := webhook_events g @ [v1], orders_seq := orders_seq g + 1, orders := orders g @ [?row], order_items := order_items g @ rows\<rparr>"
  let ?g2 = "g\<lparr>webhook_events := webhook_events g @ [v2], payments_seq := payments_seq g + 1, payments := payments g @ [?pay]\<rparr>"
  let ?h = "g\<lparr>orders := orders g @ [?row], order_items := order_items g @ rows, webhook_events := webhook_events g @ [v1, v2],
      payments := payments g @ [?pay], orders_seq := orders_seq g + 1, payments_seq := payments_seq g + 1\<rparr>"
  have over: "overlap g ?g1 ?g2 = Some ?h"
    using shop(3) payment(3) types by (simp add: overlap_def fresh_keys_def)
  have status: "payment_status ?h (sw_OrderID p) = Some PaymentStatusCompleted"
    using new(2) ref by (simp add: payment_status_def find_payment_row_def find_snoc new_payment_def)
  have order: "find_order_row ?h (sw_OrderID p) = Some ?row"
    using new(1) by (simp add: find_order_row_def find_snoc pending_order_def)
  have "o_payment_status ?row = OrderStatePending" "\<forall>j. j \<in> set (sync_jobs ?h) \<longrightarrow> j_order_id j \<noteq> o_id ?row"
    using jobs by (simp_all add: pending_order_def)
  with shop(1,2) payment(1,2) over status order show ?thesis by blast
qed

end
