(* ===== verification/Isolation.thy ===== *)
theory Isolation
  imports Dispatch
begin

text \<open>
  Orders do not interfere with each other: every step of the system changes what the database
  holds about one order at most. What it holds about an order is its \<open>account\<close>.
\<close>

section \<open>Accounts\<close>

record account =
  ac_order :: "order_row option"
  ac_items :: "OrderItem list"
  ac_payment :: "payment_row option"
  ac_jobs :: "job_row list"

definition account_of :: "pg \<Rightarrow> string \<Rightarrow> account" where
  "account_of g ref =
     (let jobs = (\<lambda>i. filter (\<lambda>j. j_order_id j = i) (sync_jobs g)) in
      case find_order_row g ref of
        None \<Rightarrow> \<lparr>ac_order = None, ac_items = [], ac_payment = find_payment_row g ref, ac_jobs = []\<rparr>
      | Some w \<Rightarrow> \<lparr>ac_order = Some w, ac_items = items_of_order g (o_id w), ac_payment = find_payment_row g ref, ac_jobs = jobs (o_id w)\<rparr>)"

definition only_account :: "string \<Rightarrow> pg \<Rightarrow> pg \<Rightarrow> bool" where
  "only_account ref g g' \<longleftrightarrow> (\<forall>other. other \<noteq> ref \<longrightarrow> account_of g' other = account_of g other)"

lemma account_of_cong:
  assumes "find_order_row g' ref = find_order_row g ref" and "find_payment_row g' ref = find_payment_row g ref"
    and "\<And>w. find_order_row g ref = Some w \<Longrightarrow> items_of_order g' (o_id w) = items_of_order g (o_id w) \<and>
      filter (\<lambda>j. j_order_id j = o_id w) (sync_jobs g') = filter (\<lambda>j. j_order_id j = o_id w) (sync_jobs g)"
  shows "account_of g' ref = account_of g ref"
  using assms by (auto simp: account_of_def Let_def split: option.split)

lemma only_account_same:
  assumes "orders g' = orders g" and "order_items g' = order_items g" and "payments g' = payments g" and "sync_jobs g' = sync_jobs g"
  shows "only_account ref g g'"
  unfolding only_account_def
  by (intro allI impI account_of_cong) (simp_all add: assms find_order_row_def find_payment_row_def items_of_order_def)

lemma only_account_tables: "same_tables g' g \<Longrightarrow> only_account ref g g'"
  by (rule only_account_same) (simp_all add: same_tables_def)

lemma only_account_business: "same_business g g' \<Longrightarrow> only_account ref g g'"
  by (rule only_account_same) (auto simp: same_business_def)

lemma filter_update_where_other:
  assumes "\<And>x. P x \<Longrightarrow> \<not> Q x \<and> \<not> Q (f x)"
  shows "filter Q (update_where P f xs) = filter Q xs"
  using assms by (induction xs) auto

lemma find_update_where_unmatched:
  assumes "\<And>x. P x \<Longrightarrow> \<not> Q x \<and> \<not> Q (f x)"
  shows "List.find Q (update_where P f xs) = List.find Q xs"
  using assms by (induction xs) auto

section \<open>Webhooks\<close>

lemma arrived_account:
  assumes ok: "db_ok g" and arr: "order_arrived g row due g'"
  shows "only_account (o_order_id row) g g'"
  unfolding only_account_def
proof (intro allI impI)
  fix ref assume ref: "ref \<noteq> o_order_id row"
  from arr obtain now rows where i: "o_id row = orders_seq g + 1" and ords: "orders g' = orders g @ [row]"
    and items: "order_items g' = order_items g @ rows" "\<forall>x \<in> set rows. i_order_id x = o_id row"
    and pays: "payments g' = update_where (\<lambda>p. p_reference_order_id p = o_order_id row \<and> p_order_id p = None)
        (\<lambda>p. p\<lparr>p_order_id := Some (o_id row), p_updated_at := now\<rparr>) (payments g)"
    by (auto simp: order_arrived_def)
  from arr obtain new where jobs: "sync_jobs g' = sync_jobs g @ new" "\<forall>j \<in> set new. j_order_id j = o_id row"
    by (cases "o_payment_status row = OrderStatePaid") (auto simp: order_arrived_def)
  have wf: "orders_wf g" using ok by (simp add: db_ok_def)
  show "account_of g' ref = account_of g ref"
  proof (rule account_of_cong)
    show "find_order_row g' ref = find_order_row g ref"
      using ref by (simp add: find_order_row_def ords find_snoc split: option.split)
    show "find_payment_row g' ref = find_payment_row g ref"
      unfolding find_payment_row_def pays by (rule find_update_where_unmatched) (use ref in auto)
    fix w assume "find_order_row g ref = Some w"
    then have "o_id w \<noteq> o_id row" using wf i by (auto simp: orders_wf_def dest!: find_order_row_Some)
    then show "items_of_order g' (o_id w) = items_of_order g (o_id w) \<and>
        filter (\<lambda>j. j_order_id j = o_id w) (sync_jobs g') = filter (\<lambda>j. j_order_id j = o_id w) (sync_jobs g)"
      using items jobs by (auto simp: items_of_order_def filter_empty_conv)
  qed
qed

lemma applied_account:
  assumes ok: "db_ok g" and app: "payment_applied g ref p due g'"
  shows "only_account ref g g'"
  unfolding only_account_def
proof (intro allI impI)
  fix other assume other: "other \<noteq> ref"
  from app obtain f where ords: "orders g' = update_where (\<lambda>r. o_order_id r = ref) f (orders g)"
    and f: "\<forall>r. o_id (f r) = o_id r \<and> o_order_id (f r) = o_order_id r"
    and rest: "order_items g' = order_items g" "payment_set g ref p g'"
    by (auto simp: payment_applied_def)
  from app obtain new where jobs: "sync_jobs g' = sync_jobs g @ new" "\<forall>j \<in> set new. \<exists>r. find_order_row g ref = Some r \<and> j_order_id j = o_id r"
    by (auto simp: payment_applied_def split: option.splits if_splits)
  have wf: "orders_wf g" and pok: "payments_ok g" using ok by (simp_all add: db_ok_def)
  show "account_of g' other = account_of g other"
  proof (rule account_of_cong)
    show "find_order_row g' other = find_order_row g other"
      unfolding find_order_row_def ords by (rule find_update_where_unmatched) (use other f in auto)
    show "find_payment_row g' other = find_payment_row g other"
      using payment_set_lookup [OF rest(2) pok] other by simp
    fix w assume w: "find_order_row g other = Some w"
    have "j_order_id j \<noteq> o_id w" if "j \<in> set new" for j
    proof
      assume "j_order_id j = o_id w"
      with that jobs(2) obtain r where "find_order_row g ref = Some r" "o_id r = o_id w" by auto
      with w wf other show False by (auto simp: orders_wf_def dest!: find_order_row_Some dest: unique_onD)
    qed
    then show "items_of_order g' (o_id w) = items_of_order g (o_id w) \<and>
        filter (\<lambda>j. j_order_id j = o_id w) (sync_jobs g') = filter (\<lambda>j. j_order_id j = o_id w) (sync_jobs g)"
      using rest(1) jobs(1) by (auto simp: items_of_order_def filter_empty_conv)
  qed
qed

lemma shop_account:
  assumes ok: "db_ok g" and run: "runs (processShop p cfg) e g x g'"
  shows "only_account (sw_OrderID p) g g'"
  using run ok
proof (cases rule: runs_processShop)
  case duplicate
  then show ?thesis by (intro only_account_same) simp_all
next
  case stored
  from arrived_account [OF ok stored(1)] stored(2) show ?thesis by simp
qed

lemma payment_account:
  assumes ok: "db_ok g" and run: "runs (processPayment upper parse_time p cfg) e g x g'"
  shows "only_account (pw_ReferenceOrderID p) g g'"
  using ok run
proof (cases rule: runs_processPayment)
  case duplicate
  then show ?thesis by (intro only_account_business)
next
  case applied
  then show ?thesis by (auto simp: payment_event_applied_def intro: applied_account [OF ok])
qed

lemma shop_Process_account:
  assumes "db_ok g" and "shop_Process cfg p e (g, fs) = (r, (g', fs'))"
  shows "only_account (TrimSpace (sw_OrderID p)) g g'"
  using assms(2) unfolding shop_Process_def
proof (cases rule: Run_cases)
  case failed
  then show ?thesis by (intro only_account_tables)
qed (auto dest!: shop_account [OF assms(1)] simp: NormalizeShopWebhook_def)

lemma payment_Process_account:
  assumes "db_ok g" and "payment_Process upper parse_time cfg p e (g, fs) = (r, (g', fs'))"
  shows "only_account (TrimSpace (pw_ReferenceOrderID p)) g g'"
  using assms(2) unfolding payment_Process_def
proof (cases rule: Run_cases)
  case failed
  then show ?thesis by (intro only_account_tables)
qed (auto dest!: payment_account [OF assms(1)] simp: NormalizePaymentWebhook_def)

section \<open>Claims, deliveries and replays\<close>

text \<open>The order of a job.\<close>

definition order_of_job :: "pg \<Rightarrow> int \<Rightarrow> string" where
  "order_of_job g i =
     (case List.find (\<lambda>j. j_id j = i) (sync_jobs g) of
        None \<Rightarrow> []
      | Some j \<Rightarrow> (case List.find (\<lambda>r. o_id r = j_order_id j) (orders g) of None \<Rightarrow> [] | Some r \<Rightarrow> o_order_id r))"

text \<open>An update of one job, and of the order it belongs to.\<close>

lemma job_account:
  assumes ok: "db_ok g"
    and jobs: "sync_jobs g' = update_where P h (sync_jobs g)" "\<And>j. P j \<Longrightarrow> j_id j = i" "\<And>j. j_order_id (h j) = j_order_id j"
    and ords: "orders g' = update_where (\<lambda>r. Q \<and> (\<exists>j \<in> set (sync_jobs g). j_id j = i \<and> j_order_id j = o_id r)) f (orders g)"
      "\<And>r. o_order_id (f r) = o_order_id r"
    and rest: "order_items g' = order_items g" "payments g' = payments g"
  shows "only_account (order_of_job g i) g g'"
  unfolding only_account_def
proof (intro allI impI)
  fix ref assume ref: "ref \<noteq> order_of_job g i"
  have wf: "orders_wf g" and out: "outbox_ok g" using ok by (simp_all add: db_ok_def)
  have uniq: "unique_on j_id (sync_jobs g)" "unique_on o_id (orders g)" using out wf by (simp_all add: outbox_ok_def orders_wf_def)
  have apart: "o_order_id r \<noteq> ref" if "r \<in> set (orders g)" "j \<in> set (sync_jobs g)" "j_id j = i" "j_order_id j = o_id r" for r j
  proof -
    have "List.find (\<lambda>j. j_id j = i) (sync_jobs g) = Some j" "List.find (\<lambda>r. o_id r = j_order_id j) (orders g) = Some r"
      using uniq that by (metis find_unique)+
    with ref show ?thesis by (auto simp: order_of_job_def)
  qed
  show "account_of g' ref = account_of g ref"
  proof (rule account_of_cong)
    have "List.find (\<lambda>r. o_order_id r = ref) (update_where (\<lambda>r. Q \<and> (\<exists>j \<in> set (sync_jobs g). j_id j = i \<and> j_order_id j = o_id r)) f os)
        = List.find (\<lambda>r. o_order_id r = ref) os" if "set os \<subseteq> set (orders g)" for os
      using that apart ords(2) by (induction os) auto
    then show "find_order_row g' ref = find_order_row g ref" by (simp add: find_order_row_def ords(1))
    show "find_payment_row g' ref = find_payment_row g ref" by (simp add: find_payment_row_def rest(2))
    fix w assume "find_order_row g ref = Some w"
    then have w: "w \<in> set (orders g)" "o_order_id w = ref" by (auto dest: find_order_row_Some)
    have "filter (\<lambda>j. j_order_id j = o_id w) (update_where P h js) = filter (\<lambda>j. j_order_id j = o_id w) js"
      if "set js \<subseteq> set (sync_jobs g)" for js
      using that apart [OF w(1)] w(2) jobs(2,3) by (induction js) auto
    then show "items_of_order g' (o_id w) = items_of_order g (o_id w) \<and>
        filter (\<lambda>j. j_order_id j = o_id w) (sync_jobs g') = filter (\<lambda>j. j_order_id j = o_id w) (sync_jobs g)"
      using rest(1) jobs(1) by (simp add: items_of_order_def)
  qed
qed

lemma jobs_account:
  assumes "db_ok g" and "g' = g\<lparr>sync_jobs := update_where P h (sync_jobs g)\<rparr>" and "\<And>j. P j \<Longrightarrow> j_id j = i"
    and "\<And>j. j_order_id (h j) = j_order_id j"
  shows "only_account (order_of_job g i) g g'"
  using assms by (intro job_account [where P = P and h = h and Q = False and f = "\<lambda>r. r"]) (auto simp: update_where_none)

text \<open>The ids of jobs and orders never change, so a job keeps its order.\<close>

lemma order_of_job_update:
  assumes "sync_jobs g' = update_where P h (sync_jobs g)" and "\<And>j. j_id (h j) = j_id j \<and> j_order_id (h j) = j_order_id j"
    and "orders g' = update_where Q f (orders g)" and "\<And>r. o_id (f r) = o_id r \<and> o_order_id (f r) = o_order_id r"
  shows "order_of_job g' i = order_of_job g i"
proof -
  have "List.find (\<lambda>j. j_id j = i) (sync_jobs g') = map_option (\<lambda>j. if P j then h j else j) (List.find (\<lambda>j. j_id j = i) (sync_jobs g))"
    unfolding assms(1) using assms(2) by (simp add: find_update_where_key [where k = j_id])
  moreover have "List.find (\<lambda>r. o_id r = k) (orders g') = map_option (\<lambda>r. if Q r then f r else r) (List.find (\<lambda>r. o_id r = k) (orders g))" for k
    unfolding assms(3) using assms(4) by (simp add: find_update_where_key [where k = o_id])
  ultimately show ?thesis using assms(2,4) by (auto simp: order_of_job_def split: option.split)
qed

lemma only_account_trans: "only_account ref g h \<Longrightarrow> only_account ref h k \<Longrightarrow> only_account ref g k"
  by (auto simp: only_account_def)

lemma only_account_refl [simp]: "only_account ref g g"
  by (simp add: only_account_def)

lemma mark_failed_account:
  assumes "mark_failed_logged w code job st d m e (g, fs) = (acts, (g', fs'))"
    and "st \<in> {SyncStatusPending, SyncStatusWaiting, SyncStatusDead}" and "db_ok g"
  shows "only_account (order_of_job g (job_ID job)) g g' \<and> order_of_job g' (job_ID job) = order_of_job g (job_ID job)"
proof -
  let ?i = "job_ID job"
  have "sync_status_ok st" using assms(2) by (auto simp: sync_status_ok_def)
  with assms(1) show ?thesis
  proof (cases rule: mark_failed_effect)
    case effective
    have "order_of_job g' ?i = order_of_job g ?i"
      by (rule order_of_job_update [where Q = "\<lambda>_. False" and f = "\<lambda>r. r" and h = "failed_row st d m (env_now e)" and P = "\<lambda>j. j_id j = ?i"]) (auto simp: effective update_where_none failed_row_def)
    moreover have "only_account (order_of_job g ?i) g g'"
      by (rule jobs_account [OF assms(3) effective(1)]) (auto simp: failed_row_def)
    ultimately show ?thesis by simp
  qed simp
qed

lemma MarkSynced_account:
  assumes "MarkSynced i sap e (g, fs) = (r, (g', fs'))" and "db_ok g"
  shows "only_account (order_of_job g i) g g' \<and> order_of_job g' i = order_of_job g i"
  using assms(1)
proof (cases rule: MarkSynced_effect)
  case effective
  let ?Q = "\<lambda>r. \<exists>j \<in> set (sync_jobs g). j_id j = i \<and> j_order_id j = o_id r"
  let ?f = "\<lambda>r. r\<lparr>o_sap_id := Some sap, o_updated_at := env_now e\<rparr>"
  let ?h = "synced_row sap (env_now e)"
  have g': "sync_jobs g' = update_where (\<lambda>j. j_id j = i) ?h (sync_jobs g)" "orders g' = update_where ?Q ?f (orders g)"
    "order_items g' = order_items g" "payments g' = payments g"
    using effective(1) by (auto simp: q_MarkSynced_def)
  have "order_of_job g' i = order_of_job g i"
    by (rule order_of_job_update [OF g'(1) _ g'(2)]) (auto simp: synced_row_def)
  moreover have "only_account (order_of_job g i) g g'"
    using g' by (intro job_account [OF assms(2), where Q = True and f = ?f and h = ?h and P = "\<lambda>j. j_id j = i"]) (auto simp: synced_row_def)
  ultimately show ?thesis by simp
qed simp

lemma deliver_account:
  assumes "deliver w cfg job e (g, fs) = (acts, (g', fs'))" and ok: "db_ok g"
  shows "only_account (order_of_job g (job_ID job)) g g'"
proof -
  let ?i = "job_ID job"
  let ?P = "\<lambda>h. db_ok h \<and> order_of_job h ?i = order_of_job g ?i \<and> only_account (order_of_job g ?i) g h"
  have "?P g'"
  proof (rule deliver_preserves [OF assms(1), where P = ?P])
    show "?P g" using ok by simp
  next
    fix code st d m h hs as h' hs'
    assume step: "mark_failed_logged w code job st d m e (h, hs) = (as, (h', hs'))"
      "st \<in> {SyncStatusPending, SyncStatusWaiting, SyncStatusDead}" "?P h"
    then show "?P h'" using mark_failed_account [OF step(1,2)] mark_failed_logged_ok [OF step(1,2)] by (auto intro: only_account_trans)
  next
    fix sap h hs r h' hs'
    assume step: "MarkSynced ?i sap e (h, hs) = (r, (h', hs'))" "?P h"
    then show "?P h'" using MarkSynced_account [OF step(1)] MarkSynced_ok [OF _ step(1)] by (auto intro: only_account_trans)
  qed
  then show ?thesis by simp
qed

lemma ClaimDue_account:
  assumes "ClaimDue e (g, fs) = (r, (g', fs'))" and ok: "db_ok g"
  shows "\<exists>ref. only_account ref g g'"
proof -
  have "same_tables g' g \<or> (\<exists>x. runs claim_work e g x g')" using assms(1) unfolding ClaimDue_def by (rule in_transaction_atomic)
  then show ?thesis
  proof (elim disjE exE)
    fix x assume "runs claim_work e g x g'"
    then show ?thesis
    proof (cases rule: runs_claim_work)
      case (claimed j)
      from jobs_account [OF ok claimed(4), of "j_id j"] show ?thesis by (auto simp: lock_row_def)
    qed auto
  qed (blast intro: only_account_tables)
qed

lemma NewRouter_account:
  assumes "NewRouter lib cfg route req e (g, fs) = (reply, (g', fs'))" and ok: "db_ok g"
  shows "\<exists>ref. only_account ref g g'"
proof -
  have "\<exists>ref. only_account ref g g'" if "shopWebhookHandler lib cfg req e (g, fs) = (reply, (g', fs'))"
    using shop_endpoint.all_or_nothing [OF that [unfolded shopWebhookHandler_def]] shop_account [OF ok]
    by (blast dest: only_account_tables)
  moreover have "\<exists>ref. only_account ref g g'" if "paymentWebhookHandler lib cfg req e (g, fs) = (reply, (g', fs'))"
    using payment_endpoint.all_or_nothing [OF that [unfolded paymentWebhookHandler_def]] payment_account [OF ok]
    by (blast dest: only_account_tables)
  ultimately show ?thesis
    using assms(1) by (cases route) (auto simp: NewRouter_def webhookAuth_def split: if_splits dest: orderStatusHandler_reads)
qed

lemma replay_account:
  assumes "replayDeadJob i e (g, fs) = (r, (g', fs'))" and ok: "db_ok g"
  shows "\<exists>ref. only_account ref g g'"
proof -
  from replayDeadJob_effect [OF assms(1)] show ?thesis using jobs_account [OF ok, of g' "dead_job i" "replayed_row (env_now e)" i] by (auto simp: dead_job_def)
qed

lemma Migrate_account: "Migrate e (g, fs) = (r, (g', fs')) \<Longrightarrow> only_account ref g g'"
  by (rule only_account_same)
    (auto simp: Migrate_def wrapf_def statement_def migration_sql_def split: prod.splits sum.splits fault.splits)

lemma sys_step_account:
  assumes "sys_step lib cfg s t" and ok: "db_ok (sys_db s)"
  shows "\<exists>ref. only_account ref (sys_db s) (sys_db t)"
  using assms(1)
  by cases (auto dest: NewRouter_account [OF _ ok] ClaimDue_account [OF _ ok] deliver_account [OF _ ok] replay_account [OF _ ok] Migrate_account
      intro: exI [of _ "[]"])

end
