(* ===== verification/Shipments.thy ===== *)
theory Shipments
  imports Isolation
begin

text \<open>
  What SAP is told. The system keeps the exchanges of its deliveries; this theory relates them
  to the tables: SAP only ever sees paid orders, as they are stored; a SAP id in the tables is
  one that SAP gave; and an order is sent at most as often as it may be attempted.
\<close>

section \<open>What a step leaves in place\<close>

text \<open>A paid order keeps everything but its SAP id, and a job keeps its order.\<close>

definition paid_stay :: "pg \<Rightarrow> pg \<Rightarrow> bool" where
  "paid_stay g g' \<longleftrightarrow>
     (\<forall>r \<in> set (orders g). o_payment_status r = OrderStatePaid \<longrightarrow> items_of_order g' (o_id r) = items_of_order g (o_id r) \<and>
        (\<exists>r' \<in> set (orders g'). o_id r' = o_id r \<and> o_order_id r' = o_order_id r \<and> o_customer_email r' = o_customer_email r \<and>
           o_payment_status r' = OrderStatePaid \<and> o_paid_at r' = o_paid_at r)) \<and>
     (\<forall>j \<in> set (sync_jobs g). \<exists>j' \<in> set (sync_jobs g'). j_id j' = j_id j \<and> j_order_id j' = j_order_id j)"

text \<open>No order gets another SAP id, and no job becomes SYNCED.\<close>

definition sap_stay :: "pg \<Rightarrow> pg \<Rightarrow> bool" where
  "sap_stay g g' \<longleftrightarrow>
     (\<forall>r' \<in> set (orders g'). o_sap_id r' \<noteq> None \<longrightarrow>
        (\<exists>r \<in> set (orders g). o_id r = o_id r' \<and> o_order_id r = o_order_id r' \<and> o_sap_id r = o_sap_id r')) \<and>
     (\<forall>r \<in> set (orders g). \<exists>r' \<in> set (orders g'). o_id r' = o_id r \<and> o_sap_id r' = o_sap_id r) \<and>
     (\<forall>j \<in> set (sync_jobs g'). j_status j = SyncStatusSynced \<longrightarrow> j \<in> set (sync_jobs g))"

text \<open>The attempts counted for the job of an order.\<close>

definition attempts_of :: "pg \<Rightarrow> string \<Rightarrow> int option" where
  "attempts_of g ref = Option.bind (find_order_row g ref) (\<lambda>r. map_option j_attempts (job_of_order g (o_id r)))"

definition attempts_stay :: "pg \<Rightarrow> pg \<Rightarrow> bool" where
  "attempts_stay g g' \<longleftrightarrow> (\<forall>ref. attempts_of g' ref = attempts_of g ref \<or> (attempts_of g ref = None \<and> attempts_of g' ref = Some 0))"

definition rows_stay :: "pg \<Rightarrow> pg \<Rightarrow> bool" where
  "rows_stay g g' \<longleftrightarrow> paid_stay g g' \<and> sap_stay g g' \<and> attempts_stay g g'"

lemma paid_stay_refl [simp]: "paid_stay g g"
  by (auto simp: paid_stay_def)

lemma paid_stay_trans:
  assumes "paid_stay g h" and "paid_stay h k"
  shows "paid_stay g k"
  using assms unfolding paid_stay_def by (metis (no_types, lifting))

lemma same_rows_stay:
  assumes "orders g' = orders g" and "order_items g' = order_items g" and "sync_jobs g' = sync_jobs g"
  shows "rows_stay g g'"
  using assms by (auto simp: rows_stay_def paid_stay_def sap_stay_def attempts_stay_def attempts_of_def items_of_order_def find_order_row_def job_of_order_def)

lemma same_tables_stay: "same_tables g' g \<Longrightarrow> rows_stay g g'"
  by (rule same_rows_stay) (simp_all add: same_tables_def)

section \<open>Webhooks\<close>

lemma arrived_stay:
  assumes ok: "db_ok g" and arr: "order_arrived g row due g'"
  shows "rows_stay g g'"
proof -
  from arr obtain rows where new: "o_sap_id row = None" "find_order_row g (o_order_id row) = None" "o_id row = orders_seq g + 1"
    and ords: "orders g' = orders g @ [row]" and items: "order_items g' = order_items g @ rows" "\<forall>x \<in> set rows. i_order_id x = o_id row"
    by (auto simp: order_arrived_def)
  from arr obtain js where jobs: "sync_jobs g' = sync_jobs g @ js" "length js \<le> 1"
      "\<forall>j \<in> set js. j_order_id j = o_id row \<and> j_status j = SyncStatusPending \<and> j_attempts j = 0"
    by (cases "o_payment_status row = OrderStatePaid") (auto simp: order_arrived_def)
  have wf: "orders_wf g" and out: "outbox_ok g" using ok by (simp_all add: db_ok_def)
  have apart: "o_id r \<noteq> o_id row" if "r \<in> set (orders g)" for r
    using new_order_apart [OF wf new(2) that] new(3) by simp
  have "items_of_order g' (o_id r) = items_of_order g (o_id r)" if "r \<in> set (orders g)" for r
    using apart [OF that] items by (auto simp: items_of_order_def filter_empty_conv)
  then have "paid_stay g g'" using jobs(1) ords by (auto simp: paid_stay_def)
  moreover have "sap_stay g g'" using ords new(1) jobs by (auto simp: sap_stay_def)
  moreover have "attempts_stay g g'"
    unfolding attempts_stay_def
  proof
    fix ref
    have "job_of_order g (o_id row) = None" using no_job_for_new_id [OF wf out] new(3) by (auto simp: job_of_order_def find_None_iff)
    moreover have "List.find P (sync_jobs g @ js) = (case List.find P (sync_jobs g) of Some y \<Rightarrow> Some y | None \<Rightarrow> List.find P js)" for P
      using jobs(2) by (cases js) (auto simp: find_snoc split: option.split)
    ultimately show "attempts_of g' ref = attempts_of g ref \<or> attempts_of g ref = None \<and> attempts_of g' ref = Some 0"
      using jobs(2,3) apart new(2)
      by (cases "find_order_row g ref"; cases js)
        (auto simp: attempts_of_def find_order_row_def ords find_snoc job_of_order_def jobs(1) dest: find_SomeD split: option.splits)
  qed
  ultimately show ?thesis by (simp add: rows_stay_def)
qed

lemma applied_stay:
  assumes ok: "db_ok g" and app: "payment_applied g ref p due g'"
  shows "rows_stay g g'"
proof -
  from app obtain f where op: "\<forall>f. payment_status g ref = Some f \<longrightarrow> \<not> finalized f"
    and items: "order_items g' = order_items g"
    and ords: "orders g' = update_where (\<lambda>r. o_order_id r = ref) f (orders g)"
    and f: "\<forall>r. o_id (f r) = o_id r \<and> o_order_id (f r) = o_order_id r \<and> o_sap_id (f r) = o_sap_id r"
    by (auto simp: payment_applied_def)
  from app obtain js where jobs: "sync_jobs g' = sync_jobs g @ js" "length js \<le> 1"
      "\<forall>j \<in> set js. (\<exists>r. find_order_row g ref = Some r \<and> j_order_id j = o_id r) \<and> j_status j = SyncStatusPending \<and> j_attempts j = 0"
    by (auto simp: payment_applied_def split: option.splits if_splits)
  have untouched: "o_order_id r \<noteq> ref" if "r \<in> set (orders g)" "o_payment_status r = OrderStatePaid" for r
    using open_order_pending(1) [OF ok op that(1)] that(2) by (auto simp: OrderStatePaid_def OrderStatePending_def)
  have "paid_stay g g'" using jobs(1) untouched items by (fastforce simp: paid_stay_def ords set_update_where items_of_order_def)
  moreover have "sap_stay g g'"
    unfolding sap_stay_def ords ball_update_where bex_update_where using jobs f by auto
  moreover have "attempts_stay g g'"
    unfolding attempts_stay_def
  proof
    fix k
    have find: "find_order_row g' k = map_option (\<lambda>r. if o_order_id r = ref then f r else r) (find_order_row g k)"
      using f by (simp add: find_order_row_def ords find_update_where_key [where k = o_order_id])
    have "List.find P (sync_jobs g @ js) = (case List.find P (sync_jobs g) of Some y \<Rightarrow> Some y | None \<Rightarrow> List.find P js)" for P
      using jobs(2) by (cases js) (auto simp: find_snoc split: option.split)
    then show "attempts_of g' k = attempts_of g k \<or> attempts_of g k = None \<and> attempts_of g' k = Some 0"
      using jobs(2,3) f
      by (cases "find_order_row g k"; cases js)
        (auto simp: attempts_of_def find job_of_order_def jobs(1) split: option.splits)
  qed
  ultimately show ?thesis by (simp add: rows_stay_def)
qed

lemma NewRouter_stay:
  assumes "NewRouter lib cfg route req e (g, fs) = (reply, (g', fs'))" and ok: "db_ok g"
  shows "rows_stay g g'"
proof -
  have shop: "rows_stay g h" if run: "runs (processShop p cfg) e g x h" for p x h
    using run ok by (cases rule: runs_processShop) (auto intro: same_rows_stay arrived_stay [OF ok])
  have payment: "rows_stay g h" if run: "runs (processPayment upper parse_time p cfg) e g x h" for upper parse_time p x h
    using ok run by (cases rule: runs_processPayment)
      (auto simp: same_business_def payment_event_applied_def intro: same_rows_stay applied_stay [OF ok])
  have "rows_stay g g'" if "shopWebhookHandler lib cfg req e (g, fs) = (reply, (g', fs'))"
    using shop_endpoint.all_or_nothing [OF that [unfolded shopWebhookHandler_def]] shop same_tables_stay by blast
  moreover have "rows_stay g g'" if "paymentWebhookHandler lib cfg req e (g, fs) = (reply, (g', fs'))"
    using payment_endpoint.all_or_nothing [OF that [unfolded paymentWebhookHandler_def]] payment same_tables_stay by blast
  ultimately show ?thesis
    using assms(1) same_rows_stay [of g g]
    by (cases route) (auto simp: NewRouter_def webhookAuth_def split: if_splits dest: orderStatusHandler_reads)
qed

section \<open>Claims, replays and migrations\<close>

lemma attempts_update:
  assumes "sync_jobs g' = update_where P h (sync_jobs g)" and "\<And>j. j_order_id (h j) = j_order_id j"
    and "orders g' = update_where Q f (orders g)" and "\<And>r. o_id (f r) = o_id r \<and> o_order_id (f r) = o_order_id r"
  shows "attempts_of g' ref = Option.bind (find_order_row g ref)
    (\<lambda>r. map_option (\<lambda>j. j_attempts (if P j then h j else j)) (job_of_order g (o_id r)))"
proof -
  have "find_order_row g' ref = map_option (\<lambda>r. if Q r then f r else r) (find_order_row g ref)"
    using assms(3,4) by (simp add: find_order_row_def find_update_where_key [where k = o_order_id])
  moreover have "job_of_order g' i = map_option (\<lambda>j. if P j then h j else j) (job_of_order g i)" for i
    using assms(1,2) by (simp add: job_of_order_def find_update_where_key [where k = j_order_id])
  ultimately show ?thesis
    using assms(4) by (cases "find_order_row g ref") (auto simp: attempts_of_def option.map_comp o_def)
qed

lemma jobs_stay:
  assumes g': "g' = g\<lparr>sync_jobs := update_where P h (sync_jobs g)\<rparr>"
    and h: "\<And>j. j_id (h j) = j_id j \<and> j_order_id (h j) = j_order_id j \<and> j_status (h j) \<noteq> SyncStatusSynced"
  shows "paid_stay g g' \<and> sap_stay g g'"
  using h by (auto simp: g' paid_stay_def sap_stay_def bex_update_where items_of_order_def set_update_where)

text \<open>A claimed job is about a paid order, as that is stored.\<close>

definition claim_ok :: "pg \<Rightarrow> Job \<Rightarrow> bool" where
  "claim_ok g job \<longleftrightarrow>
     (\<exists>j \<in> set (sync_jobs g). \<exists>r \<in> set (orders g). j_id j = job_ID job \<and> o_id r = j_order_id j \<and>
        o_payment_status r = OrderStatePaid \<and> o_order_id r = od_OrderID (job_Details job) \<and>
        o_customer_email r = od_CustomerEmail (job_Details job) \<and> items_of_order g (o_id r) = od_Items (job_Details job))"

lemma claim_ok_stays:
  assumes "claim_ok g job" and "paid_stay g g'"
  shows "claim_ok g' job"
proof -
  from assms(1) obtain j r where j: "j \<in> set (sync_jobs g)" "j_id j = job_ID job"
    and r: "r \<in> set (orders g)" "o_id r = j_order_id j" "o_payment_status r = OrderStatePaid" "o_order_id r = od_OrderID (job_Details job)"
      "o_customer_email r = od_CustomerEmail (job_Details job)" "items_of_order g (o_id r) = od_Items (job_Details job)"
    by (auto simp: claim_ok_def)
  from assms(2) j(1) obtain j' where "j' \<in> set (sync_jobs g')" "j_id j' = j_id j" "j_order_id j' = j_order_id j"
    by (auto simp: paid_stay_def)
  moreover from assms(2) r(1,3) obtain r' where "r' \<in> set (orders g')" "o_id r' = o_id r" "o_order_id r' = o_order_id r"
      "o_customer_email r' = o_customer_email r" "o_payment_status r' = OrderStatePaid" "items_of_order g' (o_id r) = items_of_order g (o_id r)"
    by (auto simp: paid_stay_def)
  ultimately show ?thesis using j r unfolding claim_ok_def by (intro bexI [of _ j'] bexI [of _ r']) auto
qed

lemma claim_effect:
  assumes ok: "db_ok g" and run: "runs claim_work e g (Some job) g'"
  shows "paid_stay g g'" "sap_stay g g'" "claim_ok g' job"
    "attempts_of g (od_OrderID (job_Details job)) = Some (job_Attempts job - 1)"
    "attempts_of g' ref = (if ref = od_OrderID (job_Details job) then Some (job_Attempts job) else attempts_of g ref)"
proof -
  from run obtain j r items where j: "claim_candidate (env_locked e) (env_now e) g = Some j"
    and r: "List.find (\<lambda>r. o_id r = j_order_id j) (orders g) = Some r"
    and g': "g' = g\<lparr>sync_jobs := update_where (\<lambda>k. j_id k = j_id j) (lock_row (env_now e)) (sync_jobs g)\<rparr>"
    and items: "JobItems (j_id j) (env_now e) g' = Inr (items, g')"
    and job: "job_ID job = j_id j" "job_Attempts job = j_attempts j + 1" "od_OrderID (job_Details job) = o_order_id r"
      "od_CustomerEmail (job_Details job) = o_customer_email r" "od_Items (job_Details job) = items"
    by (cases rule: runs_claim_work) auto
  have uniq: "unique_on j_id (sync_jobs g)" "unique_on j_order_id (sync_jobs g)" "unique_on o_order_id (orders g)" "unique_on o_id (orders g)"
    using ok by (simp_all add: db_ok_def outbox_ok_def orders_wf_def)
  have mem: "j \<in> set (sync_jobs g)" using j by (auto dest: claim_candidate_Some)
  from r have rm: "r \<in> set (orders g)" "o_id r = j_order_id j" by (auto dest: find_SomeD)
  have paid: "o_payment_status r = OrderStatePaid" using job_order_paid [OF ok mem] r by fastforce
  show "paid_stay g g'" "sap_stay g g'" using jobs_stay [OF g'] by (auto simp: lock_row_def SyncStatusProcessing_def SyncStatusSynced_def)
  have "List.find (\<lambda>k. j_id k = j_id j) (sync_jobs g') = Some (lock_row (env_now e) j)"
    using find_unique [OF uniq(1) mem] by (simp add: g' find_update_where_key [where k = j_id] lock_row_def)
  then have its: "items = items_of_order g' (j_order_id j)"
    using items by (simp add: JobItems_def select_def lock_row_def)
  show "claim_ok g' job"
    unfolding claim_ok_def
    by (rule bexI [of _ "lock_row (env_now e) j"], rule bexI [of _ r])
      (use job rm mem paid its in \<open>auto simp: g' lock_row_def set_update_where\<close>)
  have find: "find_order_row g (o_order_id r) = Some r" "job_of_order g (o_id r) = Some j"
    using find_unique [OF uniq(3) rm(1)] find_unique [OF uniq(2) mem] rm(2) by (simp_all add: find_order_row_def job_of_order_def)
  then show "attempts_of g (od_OrderID (job_Details job)) = Some (job_Attempts job - 1)" by (simp add: attempts_of_def job)
  have upd: "attempts_of g' ref = Option.bind (find_order_row g ref)
      (\<lambda>r. map_option (\<lambda>k. j_attempts (if j_id k = j_id j then lock_row (env_now e) k else k)) (job_of_order g (o_id r)))"
    by (rule attempts_update [where Q = "\<lambda>_. False" and f = "\<lambda>r. r"]) (auto simp: g' update_where_none)
  have "j_id k \<noteq> j_id j" if "find_order_row g ref = Some q" "job_of_order g (o_id q) = Some k" "ref \<noteq> o_order_id r" for q k
  proof
    assume same: "j_id k = j_id j"
    from that have "k \<in> set (sync_jobs g)" "j_order_id k = o_id q" "q \<in> set (orders g)" "o_order_id q = ref"
      by (auto simp: job_of_order_def dest: find_SomeD find_order_row_Some)
    with same mem uniq rm that(3) show False by (metis unique_onD)
  qed
  then show "attempts_of g' ref = (if ref = od_OrderID (job_Details job) then Some (job_Attempts job) else attempts_of g ref)"
    using upd find job
    by (cases "find_order_row g ref"; cases "job_of_order g (o_id (the (find_order_row g ref)))") (auto simp: attempts_of_def [of g ref])
qed

lemma replay_stay:
  assumes "replayDeadJob i e (g, fs) = (r, (g', fs'))"
  shows "paid_stay g g' \<and> sap_stay g g' \<and> (\<forall>ref. attempts_of g' ref = attempts_of g ref \<or> attempts_of g' ref = Some 0)"
  using replayDeadJob_effect [OF assms]
proof
  assume g': "g' = g\<lparr>sync_jobs := update_where (dead_job i) (replayed_row (env_now e)) (sync_jobs g)\<rparr>"
  have "attempts_of g' ref = Option.bind (find_order_row g ref)
      (\<lambda>r. map_option (\<lambda>k. j_attempts (if dead_job i k then replayed_row (env_now e) k else k)) (job_of_order g (o_id r)))" for ref
    by (rule attempts_update [where Q = "\<lambda>_. False" and f = "\<lambda>r. r"]) (auto simp: g' update_where_none)
  then have "attempts_of g' ref = attempts_of g ref \<or> attempts_of g' ref = Some 0" for ref
    by (cases "find_order_row g ref"; cases "job_of_order g (o_id (the (find_order_row g ref)))")
      (auto simp: attempts_of_def [of g ref])
  with jobs_stay [OF g'] show ?thesis by (auto simp: replayed_row_def SyncStatusPending_def SyncStatusSynced_def)
qed (use same_rows_stay [of g g] in \<open>auto simp: rows_stay_def\<close>)

lemma Migrate_stay: "Migrate e (g, fs) = (r, (g', fs')) \<Longrightarrow> rows_stay g g'"
  by (rule same_rows_stay)
    (auto simp: Migrate_def wrapf_def statement_def migration_sql_def split: prod.splits sum.splits fault.splits)

section \<open>Deliveries\<close>

lemma exchanges_Nil: "(\<And>k x. CallSAP k x \<notin> set acts) \<Longrightarrow> exchanges w acts = []"
  by (induction acts) (auto simp: exchanges_def List.map_filter_def split: action.splits)

lemma exchanges_append: "exchanges w (xs @ ys) = exchanges w xs @ exchanges w ys"
  by (simp add: exchanges_def List.map_filter_def)

lemma exchanges_dispatch: "exchanges w (logDispatch w job @ [CallSAP k x]) = [\<lparr>ex_key = k, ex_order = x, ex_answer = w_sap w k x\<rparr>]"
proof -
  have "exchanges w (logDispatch w job) = []" by (rule exchanges_Nil) (auto simp: logDispatch_def split: option.splits)
  then show ?thesis by (simp add: exchanges_append) (simp add: exchanges_def List.map_filter_def)
qed

text \<open>A delivery asks SAP once, about the claimed order, or not at all.\<close>

lemma deliver_exchanges:
  assumes "deliver w cfg job e s = (acts, s')"
  shows "exchanges w acts = [] \<or> job_Attempts job \<le> maxTotalAttempts cfg \<and>
    exchanges w acts = [\<lparr>ex_key = od_OrderID (job_Details job), ex_order = job_Details job,
      ex_answer = w_sap w (od_OrderID (job_Details job)) (job_Details job)\<rparr>]"
proof (cases "\<exists>k x. CallSAP k x \<in> set acts")
  case True
  then have guards: "job_Status job \<noteq> SyncStatusDead" "\<not> recoveryWindowExpired cfg job (w_now w)" "job_Attempts job \<le> maxTotalAttempts cfg"
    by (auto simp: deliver_calls [OF assms])
  then obtain rest where acts: "acts = (logDispatch w job @ [CallSAP (od_OrderID (job_Details job)) (job_Details job)]) @ rest"
    and none: "\<And>k x. CallSAP k x \<notin> set rest"
    using assms by (auto simp: deliver_def Let_def split: sum.splits prod.splits dest: failure_calls success_calls)
  have "exchanges w acts = [\<lparr>ex_key = od_OrderID (job_Details job), ex_order = job_Details job,
      ex_answer = w_sap w (od_OrderID (job_Details job)) (job_Details job)\<rparr>]"
    by (simp only: acts exchanges_append [of _ _ rest] exchanges_dispatch exchanges_Nil [OF none] append_Nil2)
  with guards(3) show ?thesis by simp
qed (use exchanges_Nil in blast)

text \<open>Every SAP id in the tables is the answer to a question about that order.\<close>

definition ids_given :: "exchange list \<Rightarrow> pg \<Rightarrow> bool" where
  "ids_given xs g \<longleftrightarrow>
     (\<forall>r \<in> set (orders g). \<forall>i. o_sap_id r = Some i \<longrightarrow> (\<exists>x \<in> set xs. ex_key x = o_order_id r \<and> ex_answer x = Inr i)) \<and>
     (\<forall>j \<in> set (sync_jobs g). j_status j = SyncStatusSynced \<longrightarrow>
        (\<exists>r \<in> set (orders g). o_id r = j_order_id j \<and> o_sap_id r = j_sap_internal_id j))"

lemma ids_given_stays:
  assumes "ids_given xs g" and "sap_stay g g'" and "set xs \<subseteq> set ys"
  shows "ids_given ys g'"
  unfolding ids_given_def
proof (intro conjI ballI allI impI)
  fix r' i assume "r' \<in> set (orders g')" "o_sap_id r' = Some i"
  with assms(2) obtain r where "r \<in> set (orders g)" "o_order_id r = o_order_id r'" "o_sap_id r = Some i"
    by (fastforce simp: sap_stay_def)
  with assms(1,3) show "\<exists>x \<in> set ys. ex_key x = o_order_id r' \<and> ex_answer x = Inr i" by (fastforce simp: ids_given_def)
next
  fix j assume "j \<in> set (sync_jobs g')" "j_status j = SyncStatusSynced"
  with assms(1,2) obtain r where "r \<in> set (orders g)" "o_id r = j_order_id j" "o_sap_id r = j_sap_internal_id j"
    by (fastforce simp: ids_given_def sap_stay_def)
  with assms(2) show "\<exists>r \<in> set (orders g'). o_id r = j_order_id j \<and> o_sap_id r = j_sap_internal_id j"
    by (fastforce simp: sap_stay_def)
qed

lemma synced_ids_given:
  assumes ok: "db_ok g" and ids: "ids_given xs g" and claim: "claim_ok g job"
    and upd: "q_MarkSynced (job_ID job) sap now g = Inr ((), g')"
    and x: "x \<in> set xs" "ex_key x = od_OrderID (job_Details job)" "ex_answer x = Inr sap"
  shows "ids_given xs g'"
proof -
  let ?Q = "\<lambda>r. \<exists>j \<in> set (sync_jobs g). j_id j = job_ID job \<and> j_order_id j = o_id r"
  have g': "sync_jobs g' = update_where (\<lambda>j. j_id j = job_ID job) (synced_row sap now) (sync_jobs g)"
    "orders g' = update_where ?Q (\<lambda>r. r\<lparr>o_sap_id := Some sap, o_updated_at := now\<rparr>) (orders g)"
    using upd by (auto simp: q_MarkSynced_def)
  have uniq: "unique_on j_id (sync_jobs g)" "unique_on j_order_id (sync_jobs g)" "unique_on o_id (orders g)"
    using ok by (simp_all add: db_ok_def outbox_ok_def orders_wf_def)
  have key: "o_order_id r = od_OrderID (job_Details job)" if "r \<in> set (orders g)" "?Q r" for r
    using claim that uniq unfolding claim_ok_def by (metis unique_onD)
  have "\<exists>y \<in> set xs. ex_key y = o_order_id r \<and> ex_answer y = Inr sap" if "r \<in> set (orders g)" "?Q r" for r
    using x key [OF that] by auto
  then have "\<forall>r \<in> set (orders g'). \<forall>i. o_sap_id r = Some i \<longrightarrow> (\<exists>y \<in> set xs. ex_key y = o_order_id r \<and> ex_answer y = Inr i)"
    unfolding g' ball_update_where using ids by (auto simp: ids_given_def)
  moreover have "\<exists>r \<in> set (orders g'). o_id r = j_order_id j \<and> o_sap_id r = Some sap"
    if "j \<in> set (sync_jobs g)" "j_id j = job_ID job" for j
  proof -
    from ok that(1) obtain r where "r \<in> set (orders g)" "o_id r = j_order_id j" by (auto simp: db_ok_def outbox_ok_def)
    with that show ?thesis unfolding g' bex_update_where by (intro bexI [of _ r]) auto
  qed
  moreover have "\<exists>r \<in> set (orders g'). o_id r = j_order_id j \<and> o_sap_id r = j_sap_internal_id j"
    if j: "j \<in> set (sync_jobs g)" "j_id j \<noteq> job_ID job" "j_status j = SyncStatusSynced" for j
  proof -
    from ids j obtain r where r: "r \<in> set (orders g)" "o_id r = j_order_id j" "o_sap_id r = j_sap_internal_id j"
      by (auto simp: ids_given_def)
    have "\<not> ?Q r" using j uniq r(2) by (metis unique_onD)
    with r show ?thesis unfolding g' bex_update_where by (intro bexI [of _ r]) auto
  qed
  ultimately show ?thesis
    unfolding ids_given_def by (auto simp: g'(1) ball_update_where synced_row_def)
qed

lemma call_exchanged: "CallSAP k x \<in> set acts \<Longrightarrow> \<lparr>ex_key = k, ex_order = x, ex_answer = w_sap w k x\<rparr> \<in> set (exchanges w acts)"
  by (induction acts) (auto simp: exchanges_def List.map_filter_def split: action.splits)

lemma attempts_kept:
  assumes "sync_jobs g' = update_where P h (sync_jobs g)" and "\<And>j. j_order_id (h j) = j_order_id j \<and> j_attempts (h j) = j_attempts j"
    and "orders g' = update_where Q f (orders g)" and "\<And>r. o_id (f r) = o_id r \<and> o_order_id (f r) = o_order_id r"
  shows "attempts_of g' ref = attempts_of g ref"
proof -
  have "(\<lambda>j. j_attempts (if P j then h j else j)) = j_attempts" using assms(2) by auto
  then show ?thesis using attempts_update [of g' P h g Q f ref] assms by (simp add: attempts_of_def)
qed

lemma mark_failed_stay:
  assumes "mark_failed_logged w code job st d m e (g, fs) = (acts, (g', fs'))"
    and st: "st \<in> {SyncStatusPending, SyncStatusWaiting, SyncStatusDead}"
  shows "paid_stay g g' \<and> sap_stay g g' \<and> (\<forall>ref. attempts_of g' ref = attempts_of g ref)"
proof -
  have "sync_status_ok st" using st by (auto simp: sync_status_ok_def)
  with assms(1) show ?thesis
  proof (cases rule: mark_failed_effect)
    case effective
    have "st \<noteq> SyncStatusSynced"
      using st by (auto simp: SyncStatusPending_def SyncStatusWaiting_def SyncStatusDead_def SyncStatusSynced_def)
    then have "paid_stay g g' \<and> sap_stay g g'" by (intro jobs_stay [OF effective(1)]) auto
    moreover have "attempts_of g' ref = attempts_of g ref" for ref
      by (rule attempts_kept [where P = "\<lambda>j. j_id j = job_ID job" and h = "failed_row st d m (env_now e)" and Q = "\<lambda>_. False" and f = "\<lambda>r. r"])
        (auto simp: effective(1) update_where_none)
    ultimately show ?thesis by blast
  qed (use same_rows_stay [of g g] in \<open>auto simp: rows_stay_def\<close>)
qed

lemma synced_stay:
  assumes "q_MarkSynced i sap now g = Inr ((), g')"
  shows "paid_stay g g' \<and> (\<forall>ref. attempts_of g' ref = attempts_of g ref)"
proof -
  let ?Q = "\<lambda>r. \<exists>j \<in> set (sync_jobs g). j_id j = i \<and> j_order_id j = o_id r"
  have g': "sync_jobs g' = update_where (\<lambda>j. j_id j = i) (synced_row sap now) (sync_jobs g)"
    "orders g' = update_where ?Q (\<lambda>r. r\<lparr>o_sap_id := Some sap, o_updated_at := now\<rparr>) (orders g)" "order_items g' = order_items g"
    using assms by (auto simp: q_MarkSynced_def)
  have "paid_stay g g'"
    unfolding paid_stay_def g' bex_update_where by (auto simp: items_of_order_def g'(3))
  moreover have "attempts_of g' ref = attempts_of g ref" for ref
    by (rule attempts_kept [OF g'(1) _ g'(2)]) auto
  ultimately show ?thesis by blast
qed

text \<open>What a delivery leaves: the paid orders, the attempts, and SAP ids that SAP gave.\<close>

lemma deliver_stay:
  assumes del: "deliver w cfg job e (g, fs) = (acts, (g', fs'))" and ok: "db_ok g" and claim: "claim_ok g job" and ids: "ids_given xs g"
  shows "paid_stay g g'" "\<And>ref. attempts_of g' ref = attempts_of g ref" "ids_given (xs @ exchanges w acts) g'"
proof -
  let ?ys = "xs @ exchanges w acts"
  let ?P = "\<lambda>h. db_ok h \<and> paid_stay g h \<and> (\<forall>ref. attempts_of h ref = attempts_of g ref) \<and> ids_given ?ys h"
  have "?P g'"
  proof (rule deliver_preserves [OF del, where P = ?P])
    have "sap_stay g g" using same_rows_stay [of g g] by (simp add: rows_stay_def)
    then show "?P g" using ok ids_given_stays [OF ids] by simp
  next
    fix code st d m h hs as h' hs'
    assume step: "mark_failed_logged w code job st d m e (h, hs) = (as, (h', hs'))"
      "st \<in> {SyncStatusPending, SyncStatusWaiting, SyncStatusDead}" "?P h"
    then show "?P h'"
      using mark_failed_stay [OF step(1,2)] mark_failed_logged_ok [OF step(1,2)] ids_given_stays [of ?ys h h' ?ys]
      by (auto intro: paid_stay_trans)
  next
    fix sap h hs r h' hs'
    assume call: "CallSAP (od_OrderID (job_Details job)) (job_Details job) \<in> set acts"
      "w_sap w (od_OrderID (job_Details job)) (job_Details job) = Inr sap"
      and step: "MarkSynced (job_ID job) sap e (h, hs) = (r, (h', hs'))" "?P h"
    show "?P h'"
      using step(1)
    proof (cases rule: MarkSynced_effect)
      case effective
      have "ids_given ?ys h'"
        using step(2) claim_ok_stays [OF claim] call_exchanged [OF call(1), of w] call(2)
        by (intro synced_ids_given [OF _ _ _ effective(1), where xs = ?ys]) auto
      moreover have "db_ok h'" using step MarkSynced_ok by blast
      ultimately show ?thesis using synced_stay [OF effective(1)] step(2) by (auto intro: paid_stay_trans)
    qed (use step(2) in simp)
  qed
  then show "paid_stay g g'" "\<And>ref. attempts_of g' ref = attempts_of g ref" "ids_given ?ys g'" by blast+
qed

section \<open>The system\<close>

text \<open>The claims in hand and the exchanges of the past are about paid orders.\<close>

definition order_sent :: "pg \<Rightarrow> exchange \<Rightarrow> bool" where
  "order_sent g x \<longleftrightarrow> ex_key x = od_OrderID (ex_order x) \<and>
     (\<exists>r \<in> set (orders g). o_order_id r = ex_key x \<and> o_payment_status r = OrderStatePaid \<and>
        o_customer_email r = od_CustomerEmail (ex_order x) \<and> items_of_order g (o_id r) = od_Items (ex_order x))"

lemma order_sent_stays:
  assumes "order_sent g x" and "paid_stay g g'"
  shows "order_sent g' x"
proof -
  from assms(1) obtain r where r: "r \<in> set (orders g)" "o_order_id r = ex_key x" "o_payment_status r = OrderStatePaid"
      "o_customer_email r = od_CustomerEmail (ex_order x)" "items_of_order g (o_id r) = od_Items (ex_order x)" "ex_key x = od_OrderID (ex_order x)"
    by (auto simp: order_sent_def)
  from assms(2) r(1,3) obtain r' where "r' \<in> set (orders g')" "o_id r' = o_id r" "o_order_id r' = o_order_id r"
      "o_customer_email r' = o_customer_email r" "o_payment_status r' = OrderStatePaid" "items_of_order g' (o_id r) = items_of_order g (o_id r)"
    by (auto simp: paid_stay_def)
  with r show ?thesis unfolding order_sent_def by (intro conjI bexI [of _ r']) auto
qed

definition shipments_ok :: "system \<Rightarrow> bool" where
  "shipments_ok s \<longleftrightarrow> db_ok (sys_db s) \<and> (\<forall>job \<in> set (sys_claims s). claim_ok (sys_db s) job) \<and>
     (\<forall>x \<in> set (sys_sap s). order_sent (sys_db s) x) \<and> ids_given (sys_sap s) (sys_db s)"

text \<open>A step that keeps the rows keeps the invariant, whatever claims it drops.\<close>

lemma shipments_kept:
  assumes "shipments_ok s" and "paid_stay (sys_db s) (sys_db t)" and "sap_stay (sys_db s) (sys_db t)" and "db_ok (sys_db t)"
    and "set (sys_claims t) \<subseteq> set (sys_claims s)" and "sys_sap t = sys_sap s"
  shows "shipments_ok t"
  using assms(1,3-6) claim_ok_stays [OF _ assms(2)] order_sent_stays [OF _ assms(2)]
    ids_given_stays [of "sys_sap s" "sys_db s" "sys_db t" "sys_sap t"]
  by (auto simp: shipments_ok_def dest: subsetD)

lemma claim_or_nothing:
  assumes "ClaimDue e (g, fs) = (r, (g', fs'))"
  shows "same_tables g' g \<or> (\<exists>x. runs claim_work e g x g')"
  using assms unfolding ClaimDue_def by (rule in_transaction_atomic)

lemma claim_stay:
  assumes "ClaimDue e (g, fs) = (r, (g', fs'))" and "db_ok g"
  shows "paid_stay g g' \<and> sap_stay g g'"
  using claim_or_nothing [OF assms(1)]
proof (elim disjE exE)
  fix x assume run: "runs claim_work e g x g'"
  then show ?thesis
  proof (cases x)
    case None
    with run have "g' = g" by (auto elim: runs_claim_work)
    then show ?thesis using same_rows_stay [of g g] by (simp add: rows_stay_def)
  qed (use claim_effect [OF assms(2)] run in blast)
qed (simp add: same_tables_stay [unfolded rows_stay_def])

lemma step_shipments:
  assumes step: "sys_step lib cfg s t" and inv: "shipments_ok s"
  shows "shipments_ok t"
proof -
  have ok: "db_ok (sys_db s)" using inv by (simp add: shipments_ok_def)
  from this step have ok': "db_ok (sys_db t)" by (rule order_sync.step_inv)
  from step show ?thesis
  proof cases
    case (claim e fs job g fs')
    have run: "runs claim_work e (sys_db s) (Some job) g" using ClaimDue_claimed [OF claim(3)] by simp
    note eff = claim_effect [OF ok run]
    have "ids_given (sys_sap s) g" using inv eff(2) by (auto simp: shipments_ok_def intro: ids_given_stays)
    then show ?thesis
      using inv ok' eff(3) claim_ok_stays [OF _ eff(1)] order_sent_stays [OF _ eff(1)] by (auto simp: claim(1) shipments_ok_def)
  next
    case (deliver_job job e w fs acts g fs')
    have cl: "claim_ok (sys_db s) job" and ids: "ids_given (sys_sap s) (sys_db s)" using inv deliver_job(2) by (auto simp: shipments_ok_def)
    note eff = deliver_stay [OF deliver_job(5) ok cl ids]
    have new: "order_sent (sys_db s) x" if "x \<in> set (exchanges w acts)" for x
      using deliver_exchanges [OF deliver_job(5)] that cl by (auto simp: claim_ok_def order_sent_def)
    have "set (sys_claims t) \<subseteq> set (sys_claims s)" by (simp add: deliver_job(1) set_remove1_subset)
    then show ?thesis
      using inv ok' eff(3) new claim_ok_stays [OF _ eff(1)] order_sent_stays [OF _ eff(1)] by (auto simp: deliver_job(1) shipments_ok_def)
  next
    case (request e r req fs reply g fs')
    from NewRouter_stay [OF request(3) ok] show ?thesis
      using shipments_kept [OF inv _ _ ok'] by (simp add: request(1) rows_stay_def)
  next
    case (claim_nothing e fs r g fs')
    from claim_stay [OF claim_nothing(3) ok] show ?thesis using shipments_kept [OF inv _ _ ok'] by (simp add: claim_nothing(1))
  next
    case (replay e i fs r g fs')
    from replay_stay [OF replay(3)] show ?thesis using shipments_kept [OF inv _ _ ok'] by (simp add: replay(1))
  next
    case (migrate e fs r g fs')
    from Migrate_stay [OF migrate(3)] show ?thesis using shipments_kept [OF inv _ _ ok'] by (simp add: migrate(1) rows_stay_def)
  next
    case (crash job)
    have "set (sys_claims t) \<subseteq> set (sys_claims s)" by (simp add: crash(1) set_remove1_subset)
    then show ?thesis using shipments_kept [OF inv _ _ ok'] same_rows_stay [of "sys_db s" "sys_db s"] by (simp add: crash(1) rows_stay_def)
  next
    case (tick u)
    then show ?thesis using inv by (simp add: shipments_ok_def)
  qed
qed

interpretation shipments: invariant_system sys_initial "sys_step lib cfg" shipments_ok
  for lib cfg
proof unfold_locales
  show "shipments_ok s" if "sys_initial s" for s
    using that db_ok_empty by (simp add: sys_initial_def shipments_ok_def ids_given_def empty_pg_def)
  show "shipments_ok t" if "shipments_ok s" and "sys_step lib cfg s t" for s t
    using that(2,1) by (rule step_shipments)
qed

section \<open>How often SAP is asked\<close>

text \<open>
  For an order: the times SAP was asked, the claims in hand that may still ask, and the attempts
  the job has left. Only a replay adds to the sum.
\<close>

definition asked :: "system \<Rightarrow> string \<Rightarrow> nat" where
  "asked s ref = length (filter (\<lambda>x. ex_key x = ref) (sys_sap s))"

definition may_ask :: "Config \<Rightarrow> string \<Rightarrow> Job \<Rightarrow> bool" where
  "may_ask cfg ref job \<longleftrightarrow> od_OrderID (job_Details job) = ref \<and> job_Attempts job \<le> maxTotalAttempts cfg"

definition attempts_left :: "Config \<Rightarrow> pg \<Rightarrow> string \<Rightarrow> nat" where
  "attempts_left cfg g ref = (case attempts_of g ref of None \<Rightarrow> nat (maxTotalAttempts cfg) | Some n \<Rightarrow> nat (maxTotalAttempts cfg - n))"

definition askings :: "Config \<Rightarrow> system \<Rightarrow> string \<Rightarrow> nat" where
  "askings cfg s ref = asked s ref + length (filter (may_ask cfg ref) (sys_claims s)) + attempts_left cfg (sys_db s) ref"

lemma attempts_left_stay: "attempts_stay g g' \<Longrightarrow> attempts_left cfg g' ref \<le> attempts_left cfg g ref"
  unfolding attempts_stay_def attempts_left_def by (drule spec [of _ ref]) auto

lemma length_remove1_filter: "x \<in> set xs \<Longrightarrow> length (filter P (remove1 x xs)) + (if P x then 1 else 0) = length (filter P xs)"
  by (induction xs) auto

lemma claim_left:
  assumes ok: "db_ok g" and run: "runs claim_work e g (Some job) g'"
  shows "attempts_left cfg g' ref + (if may_ask cfg ref job then 1 else 0) \<le> attempts_left cfg g ref"
  using claim_effect(4) [OF ok run] claim_effect(5) [OF ok run, of ref] by (auto simp: attempts_left_def may_ask_def)

lemma claim_nothing_left:
  assumes "ClaimDue e (g, fs) = (r, (g', fs'))" and ok: "db_ok g"
  shows "attempts_left cfg g' ref \<le> attempts_left cfg g ref"
  using claim_or_nothing [OF assms(1)]
proof (elim disjE exE)
  fix x assume run: "runs claim_work e g x g'"
  then show ?thesis
  proof (cases x)
    case None
    with run have "g' = g" by (auto elim: runs_claim_work)
    then show ?thesis by simp
  next
    case (Some job)
    with claim_left [OF ok, of e job g' cfg ref] run show ?thesis by simp
  qed
qed (simp add: attempts_left_stay same_tables_stay [unfolded rows_stay_def])

lemma step_askings:
  assumes step: "sys_step lib cfg s t" and inv: "shipments_ok s"
  shows "askings cfg t ref + nat (maxTotalAttempts cfg) * sys_replays s \<le> askings cfg s ref + nat (maxTotalAttempts cfg) * sys_replays t"
proof -
  have ok: "db_ok (sys_db s)" using inv by (simp add: shipments_ok_def)
  from step show ?thesis
  proof cases
    case (request e r req fs reply g fs')
    from NewRouter_stay [OF request(3) ok] have "attempts_left cfg g ref \<le> attempts_left cfg (sys_db s) ref"
      by (simp add: rows_stay_def attempts_left_stay)
    then show ?thesis by (simp add: request(1) askings_def asked_def)
  next
    case (claim e fs job g fs')
    have run: "runs claim_work e (sys_db s) (Some job) g" using ClaimDue_claimed [OF claim(3)] by simp
    from claim_left [OF ok run, of cfg ref] show ?thesis by (simp add: claim(1) askings_def asked_def split: if_splits)
  next
    case (claim_nothing e fs r g fs')
    from claim_nothing_left [OF claim_nothing(3) ok, of cfg ref] show ?thesis by (simp add: claim_nothing(1) askings_def asked_def)
  next
    case (deliver_job job e w fs acts g fs')
    have cl: "claim_ok (sys_db s) job" and ids: "ids_given (sys_sap s) (sys_db s)" using inv deliver_job(2) by (auto simp: shipments_ok_def)
    have "attempts_left cfg g ref = attempts_left cfg (sys_db s) ref"
      using deliver_stay(2) [OF deliver_job(5) ok cl ids] by (simp add: attempts_left_def)
    moreover have "length (filter (\<lambda>x. ex_key x = ref) (exchanges w acts)) \<le> (if may_ask cfg ref job then 1 else 0)"
      using deliver_exchanges [OF deliver_job(5)] by (auto simp: may_ask_def)
    ultimately show ?thesis
      using length_remove1_filter [OF deliver_job(2), of "may_ask cfg ref"] by (simp add: deliver_job(1) askings_def asked_def)
  next
    case (crash job)
    from length_remove1_filter [OF crash(2), of "may_ask cfg ref"] show ?thesis by (simp add: crash(1) askings_def asked_def)
  next
    case (replay e i fs r g fs')
    from replay_stay [OF replay(3)] have "attempts_left cfg g ref \<le> attempts_left cfg (sys_db s) ref + nat (maxTotalAttempts cfg)"
      by (auto simp: attempts_left_def split: option.splits dest!: spec [of _ ref])
    then show ?thesis by (simp add: replay(1) askings_def asked_def)
  next
    case (migrate e fs r g fs')
    from Migrate_stay [OF migrate(3)] have "attempts_left cfg g ref \<le> attempts_left cfg (sys_db s) ref"
      by (simp add: rows_stay_def attempts_left_stay)
    then show ?thesis by (simp add: migrate(1) askings_def asked_def)
  next
    case (tick u)
    then show ?thesis by (simp add: askings_def asked_def)
  qed
qed

text \<open>The bound, with the invariant it rests on.\<close>

interpretation askings: invariant_system sys_initial "sys_step lib cfg"
    "\<lambda>s. shipments_ok s \<and> (\<forall>ref. askings cfg s ref \<le> nat (maxTotalAttempts cfg) * (1 + sys_replays s))"
  for lib cfg
proof unfold_locales
  fix s assume init: "sys_initial s"
  then have "shipments_ok s" by (rule shipments.initial_inv)
  moreover have "askings cfg s ref \<le> nat (maxTotalAttempts cfg) * (1 + sys_replays s)" for ref
    using init by (simp add: askings_def asked_def sys_initial_def attempts_left_def attempts_of_def empty_pg_def find_order_row_def)
  ultimately show "shipments_ok s \<and> (\<forall>ref. askings cfg s ref \<le> nat (maxTotalAttempts cfg) * (1 + sys_replays s))" by blast
next
  fix s t
  assume inv: "shipments_ok s \<and> (\<forall>ref. askings cfg s ref \<le> nat (maxTotalAttempts cfg) * (1 + sys_replays s))" and step: "sys_step lib cfg s t"
  have "askings cfg t ref \<le> nat (maxTotalAttempts cfg) * (1 + sys_replays t)" for ref
  proof -
    have "askings cfg s ref \<le> nat (maxTotalAttempts cfg) * (1 + sys_replays s)" using inv by blast
    with step_askings [OF step conjunct1 [OF inv], of ref] show ?thesis by (simp add: algebra_simps)
  qed
  with inv step show "shipments_ok t \<and> (\<forall>ref. askings cfg t ref \<le> nat (maxTotalAttempts cfg) * (1 + sys_replays t))"
    by (blast intro: step_shipments)
qed

end
