(* ===== verification/Startup.thy ===== *)
theory Startup
  imports Admin
begin

text \<open>
  From \<open>cmd/order-sync/main.go\<close> to a running service: the constructors the program hands to fx,
  the connection pool (\<open>internal/db/pool.go\<close>), and the hooks that start and stop the service
  (\<open>internal/app/lifecycle.go\<close>). fx calls each constructor once, after those of its parameters, gives
  up at the first error, and runs the start hook; \<open>pgxpool\<close> and \<open>net.Listen\<close> are arguments.
\<close>

section \<open>Wiring\<close>

datatype part =
    FxLifecycle | ConfigPart | LoggerPart | PoolPart | MigratorPart | TransactionRunnerPart | HealthCheckPart
  | OrderRepositoryPart | JobRepositoryPart | SapClientPart | OrdersAPIPart | ShopAPIPart | PaymentAPIPart
  | WorkerPart | RouterPart | HTTPServerPart

record provider =
  pr_name :: string
  pr_params :: "part list"
  pr_result :: part

definition main_provide :: "provider list" where
  "main_provide =
     [\<lparr>pr_name = ''config.Load'', pr_params = [], pr_result = ConfigPart\<rparr>,
      \<lparr>pr_name = ''shared.NewLogger'', pr_params = [], pr_result = LoggerPart\<rparr>,
      \<lparr>pr_name = ''db.NewPoolFromConfig'', pr_params = [ConfigPart], pr_result = PoolPart\<rparr>,
      \<lparr>pr_name = ''db.NewMigrator'', pr_params = [PoolPart], pr_result = MigratorPart\<rparr>,
      \<lparr>pr_name = ''db.NewTransactionRunner'', pr_params = [PoolPart], pr_result = TransactionRunnerPart\<rparr>,
      \<lparr>pr_name = ''app.NewHealthCheck'', pr_params = [PoolPart], pr_result = HealthCheckPart\<rparr>,
      \<lparr>pr_name = ''repositories.NewPoolOrderRepository'', pr_params = [PoolPart], pr_result = OrderRepositoryPart\<rparr>,
      \<lparr>pr_name = ''repositories.NewSyncJobRepository'', pr_params = [PoolPart], pr_result = JobRepositoryPart\<rparr>,
      \<lparr>pr_name = ''sap.NewClient'', pr_params = [ConfigPart], pr_result = SapClientPart\<rparr>,
      \<lparr>pr_name = ''orders.NewService'', pr_params = [OrderRepositoryPart], pr_result = OrdersAPIPart\<rparr>,
      \<lparr>pr_name = ''shop.NewService'', pr_params = [TransactionRunnerPart, ConfigPart], pr_result = ShopAPIPart\<rparr>,
      \<lparr>pr_name = ''payment.NewService'', pr_params = [TransactionRunnerPart, ConfigPart], pr_result = PaymentAPIPart\<rparr>,
      \<lparr>pr_name = ''gosync.NewWorker'', pr_params = [JobRepositoryPart, SapClientPart, ConfigPart, LoggerPart], pr_result = WorkerPart\<rparr>,
      \<lparr>pr_name = ''app.NewRouter'', pr_params = [ConfigPart, ShopAPIPart, PaymentAPIPart, OrdersAPIPart, LoggerPart, HealthCheckPart],
       pr_result = RouterPart\<rparr>,
      \<lparr>pr_name = ''app.NewHTTPServer'', pr_params = [RouterPart, ConfigPart], pr_result = HTTPServerPart\<rparr>]"

definition main_invoke :: provider where
  "main_invoke = \<lparr>pr_name = ''app.RegisterLifecycle'', pr_params = [FxLifecycle, HTTPServerPart, MigratorPart, PoolPart, WorkerPart, LoggerPart],
     pr_result = FxLifecycle\<rparr>"

text \<open>Each provider finds its parameters among the parts before it and adds a new one.\<close>

fun well_wired :: "part list \<Rightarrow> provider list \<Rightarrow> bool" where
  "well_wired parts [] \<longleftrightarrow> True"
| "well_wired parts (p # ps) \<longleftrightarrow>
     set (pr_params p) \<subseteq> set parts \<and> pr_result p \<notin> set parts \<and> well_wired (pr_result p # parts) ps"

section \<open>The connection pool\<close>

definition NewPoolFromConfig :: "(string \<Rightarrow> go_error + 'c) \<Rightarrow> ('c \<Rightarrow> go_error + 'p) \<Rightarrow> Config \<Rightarrow> go_error + 'p" where
  "NewPoolFromConfig parse_config new_pool cfg =
     (case parse_config (DatabaseURL cfg) of
        Inl err \<Rightarrow> Inl (Wrapf ''parse database URL: %w'' [] err)
      | Inr poolConfig \<Rightarrow> new_pool poolConfig)"

section \<open>The HTTP server\<close>

record http_server =
  sv_Addr :: string
  sv_ReadHeaderTimeout :: int
  sv_ReadTimeout :: int
  sv_WriteTimeout :: int
  sv_IdleTimeout :: int
  sv_MaxHeaderBytes :: nat

definition NewHTTPServer :: "Config \<Rightarrow> http_server" where
  "NewHTTPServer cfg =
     \<lparr>sv_Addr = '':'' @ Itoa (Port cfg), sv_ReadHeaderTimeout = 5 * second, sv_ReadTimeout = 15 * second,
      sv_WriteTimeout = 30 * second, sv_IdleTimeout = 60 * second, sv_MaxHeaderBytes = 2 ^ 20\<rparr>"

definition startHTTPServer :: "(string \<Rightarrow> go_error option) \<Rightarrow> http_server \<Rightarrow> go_error option" where
  "startHTTPServer listen server =
     (case listen (sv_Addr server) of
        Some err \<Rightarrow> Some (Wrapf ''listen on %s: %w'' [ArgS (sv_Addr server)] err)
      | None \<Rightarrow> None)"

text \<open>What the serving goroutine logs when \<open>Serve\<close> returns: nothing after an orderly shutdown.\<close>

datatype serve_result = ServerClosed | ServeFailed go_error

definition serve_returned :: "bool \<Rightarrow> serve_result \<Rightarrow> log_record list" where
  "serve_returned logger result =
     (case result of
        ServerClosed \<Rightarrow> []
      | ServeFailed err \<Rightarrow> logError logger None ''0001'' ''HTTP server failed'' err)"

section \<open>Start and stop\<close>

text \<open>A pool or worker that is nil is \<open>None\<close>; \<open>svc_pool\<close> says whether the pool is open.\<close>

record service =
  svc_server :: http_server
  svc_listening :: bool
  svc_pool :: "bool option"
  svc_worker :: "worker_state option"

definition close_pool :: "service \<Rightarrow> service" where
  "close_pool svc = svc\<lparr>svc_pool := map_option (\<lambda>_. False) (svc_pool svc)\<rparr>"

definition OnStart :: "(string \<Rightarrow> go_error option) \<Rightarrow> service \<Rightarrow> env \<Rightarrow> sess \<Rightarrow> (go_error option \<times> service) \<times> sess" where
  "OnStart listen svc e s =
     (case Migrate e s of
        (Inl err, s') \<Rightarrow> ((Some (Wrapf ''run database migrations: %w'' [] err), close_pool svc), s')
      | (Inr _, s') \<Rightarrow>
          (case startHTTPServer listen (svc_server svc) of
             Some err \<Rightarrow> ((Some (Wrapf ''start HTTP server: %w'' [] err), close_pool svc), s')
           | None \<Rightarrow> ((None, svc\<lparr>svc_listening := True, svc_worker := map_option Start (svc_worker svc)\<rparr>), s')))"

text \<open>The list of stop errors; every part is stopped even when an earlier one fails.\<close>

definition OnStop :: "go_error option \<Rightarrow> go_error option \<Rightarrow> service \<Rightarrow> go_error list \<times> service" where
  "OnStop stop_ctx shutdown svc =
     (let (workerErrors, worker) =
        (case svc_worker svc of
           None \<Rightarrow> ([], None)
         | Some w \<Rightarrow>
             (case Stop stop_ctx w of
                (Some err, w') \<Rightarrow> ([Wrapf ''stop SAP worker: %w'' [] err], Some w')
              | (None, w') \<Rightarrow> ([], Some w')));
        serverErrors = (case shutdown of None \<Rightarrow> [] | Some err \<Rightarrow> [Wrapf ''shutdown HTTP server: %w'' [] err])
      in (workerErrors @ serverErrors, close_pool (svc\<lparr>svc_worker := worker, svc_listening := False\<rparr>)))"

text \<open>
  The start of the process: the configuration, the pool built from it, and the start hook.
  The other constructors cannot fail. \<open>Inl\<close> is the error with which the process exits.
\<close>

definition NewService :: "Config \<Rightarrow> service" where
  "NewService cfg = \<lparr>svc_server = NewHTTPServer cfg, svc_listening = False, svc_pool = Some True, svc_worker = Some NewWorker\<rparr>"

definition order_sync_main ::
  "(string \<Rightarrow> (string \<times> string) option) \<Rightarrow> (string \<Rightarrow> string) \<Rightarrow> (string \<Rightarrow> go_error + 'c) \<Rightarrow> ('c \<Rightarrow> go_error + 'p)
     \<Rightarrow> (string \<Rightarrow> go_error option) \<Rightarrow> env \<Rightarrow> sess \<Rightarrow> (go_error + Config \<times> service) \<times> sess" where
  "order_sync_main parse_uri getenv parse_config new_pool listen e s =
     (case Load parse_uri getenv of
        Inl err \<Rightarrow> (Inl err, s)
      | Inr cfg \<Rightarrow>
          (case NewPoolFromConfig parse_config new_pool cfg of
             Inl err \<Rightarrow> (Inl err, s)
           | Inr pool \<Rightarrow>
               (case OnStart listen (NewService cfg) e s of
                  ((Some err, svc), s') \<Rightarrow> (Inl err, s')
                | ((None, svc), s') \<Rightarrow> (Inr (cfg, svc), s'))))"

section \<open>Facts\<close>

lemma main_well_wired: "well_wired [FxLifecycle] main_provide"
  by code_simp

lemma Migrate_cases:
  assumes "Migrate e (g, fs) = (r, (g', fs'))"
  obtains (migrated) "r = Inr ()" "g' = g\<lparr>sku_classifications := fold seed_sku seeded_skus (sku_classifications g)\<rparr>"
    | (failed) err where "r = Inl err"
        "g' = g \<or> g' = g\<lparr>sku_classifications := fold seed_sku seeded_skus (sku_classifications g)\<rparr>"
  using assms
  by (auto simp: Migrate_def wrapf_def statement_def migration_sql_def split: prod.splits sum.splits fault.splits)

lemma OnStart_cases:
  assumes "OnStart listen svc e s = ((r, svc'), s')"
  obtains (started) "r = None" "Migrate e s = (Inr (), s')" "listen (sv_Addr (svc_server svc)) = None"
      "svc' = svc\<lparr>svc_listening := True, svc_worker := map_option Start (svc_worker svc)\<rparr>"
    | (not_migrated) err where "Migrate e s = (Inl err, s')" "r = Some (Wrapf ''run database migrations: %w'' [] err)" "svc' = close_pool svc"
    | (not_listening) err where "Migrate e s = (Inr (), s')" "listen (sv_Addr (svc_server svc)) = Some err"
        "r = Some (Wrapf ''start HTTP server: %w'' [] (Wrapf ''listen on %s: %w'' [ArgS (sv_Addr (svc_server svc))] err))" "svc' = close_pool svc"
  using assms by (auto simp: OnStart_def startHTTPServer_def split: prod.splits sum.splits option.splits)

end
