(* ===== verification/Samples.thy ===== *)
theory Samples
  imports Settling Overlap Shipments Startup
begin

text \<open>
  A concrete run used to show that the hypotheses of the theorems can hold: a shop order
  with one hardware item, its payment, the claim of its job and the delivery. Every state is
  computed by the model and checked by evaluation.
\<close>

definition sample_config :: Config where
  "sample_config = \<lparr>Port = 3000, DatabaseURL = ''postgres://db'', SAPAPIURL = ''http://sap'', HardwareSyncDelaySeconds = 30,
     SAPTimeoutMS = 3000, SAPMaxAttempts = 3, SAPMaxTotalAttempts = 5, SAPRecoveryWindowSeconds = 900,
     SAPListenerReconnectMaxMS = 1000, WebhookSecret = ''key''\<rparr>"

definition at_time :: "time \<Rightarrow> env" where
  "at_time t = \<lparr>env_now = t, env_locked = [], env_index_row = (\<lambda>_. True), env_rfc3339nano = (\<lambda>_. ''2024-01-01T00:00:00Z'')\<rparr>"

definition sample_item :: OrderItem where
  "sample_item = \<lparr>SKU = ''NUKI-SL3'', Quantity = 1, Price = 169, IsHardware = None\<rparr>"

definition sample_order :: shop_Webhook where
  "sample_order = \<lparr>sw_EventID = ''e1'', sw_OrderID = ''o1'', sw_CustomerEmail = ''a@b.c'', sw_Items = [sample_item]\<rparr>"

definition sample_payment :: "string \<Rightarrow> PaymentStatus \<Rightarrow> payment_Webhook" where
  "sample_payment i st = \<lparr>pw_EventID = i, pw_ReferenceOrderID = ''o1'', pw_PaymentStatus = st, pw_Timestamp = ''t''\<rparr>"

definition sample_lib :: go_lib where
  "sample_lib = \<lparr>lib_logger = True, lib_media = (\<lambda>_. Some ''application/json''),
     lib_shop_decoder = (\<lambda>_ _. (Decoded sample_order, EndOfInput)),
     lib_payment_decoder = (\<lambda>_ body. (Decoded (sample_payment body PaymentStatusCompleted), EndOfInput)),
     lib_address = Some, lib_upper = (\<lambda>s. s), lib_rfc3339 = (\<lambda>_. Some 5000)\<rparr>"

definition sample_request :: "string \<Rightarrow> http_request" where
  "sample_request body = \<lparr>rq_secret = ''key'', rq_request_id = [], rq_content_type = ''application/json'', rq_body = body, rq_context = None\<rparr>"

section \<open>The states of the run\<close>

definition db_order :: pg where
  "db_order = fst (snd (shop_Process sample_config sample_order (at_time 1000) (empty_pg, [])))"

definition pay :: "string \<Rightarrow> PaymentStatus \<Rightarrow> WebhookResult op" where
  "pay i st = payment_Process (lib_upper sample_lib) (lib_rfc3339 sample_lib) sample_config (sample_payment i st)"

definition db_paid :: pg where
  "db_paid = fst (snd (pay ''p1'' PaymentStatusCompleted (at_time 2000) (db_order, [])))"

definition digital_order :: shop_Webhook where
  "digital_order = \<lparr>sw_EventID = ''e1'', sw_OrderID = ''o1'', sw_CustomerEmail = ''a@b.c'',
     sw_Items = [\<lparr>SKU = ''NUKI-SMART-HOSTING'', Quantity = 1, Price = 5, IsHardware = None\<rparr>]\<rparr>"

definition db_digital :: pg where
  "db_digital = fst (snd (shop_Process sample_config digital_order (at_time 1000) (empty_pg, [])))"

definition db_paid_first :: pg where
  "db_paid_first = fst (snd (shop_Process sample_config sample_order (at_time 3000)
     (snd (pay ''p1'' PaymentStatusCompleted (at_time 2000) (empty_pg, [])))))"

definition due :: time where "due = 2000 + 30 * second"

definition db_claimed :: pg where
  "db_claimed = fst (snd (ClaimDue (at_time due) (db_paid, [])))"

definition sample_job :: Job where
  "sample_job = the (projr (fst (ClaimDue (at_time due) (db_paid, []))))"

definition sample_world :: "(go_error + string) \<Rightarrow> time \<Rightarrow> world" where
  "sample_world answer t = \<lparr>w_now = t, w_int63n = (\<lambda>n. n - 1), w_sap = (\<lambda>_ _. answer), w_error_text = (\<lambda>_. ''SAP returned HTTP 503''),
     w_duration_text = (\<lambda>_. ''15m0s''), w_session = at_time t,
     w_logger = True, w_dispatched = t, w_elapsed = 40 * millisecond\<rparr>"

text \<open>Orders with a price of a tenth of a cent, and with a quantity beyond the integer column.\<close>

definition fractional_order :: shop_Webhook where
  "fractional_order = sample_order\<lparr>sw_Items := [sample_item\<lparr>Price := 1 / 1000\<rparr>]\<rparr>"

definition db_fractional :: pg where
  "db_fractional = fst (snd (shop_Process sample_config fractional_order (at_time 1000) (empty_pg, [])))"

definition huge_order :: shop_Webhook where
  "huge_order = sample_order\<lparr>sw_Items := [sample_item\<lparr>Quantity := 2 ^ 31\<rparr>]\<rparr>"

lemma shop_stores: "shop_Process sample_config sample_order (at_time 1000) (empty_pg, []) =
    (Inr (projr (fst (shop_Process sample_config sample_order (at_time 1000) (empty_pg, [])))), (db_order, []))"
  by code_simp

lemma payment_settles: "pay ''p1'' PaymentStatusCompleted (at_time 2000) (db_order, []) =
    (Inr (projr (fst (pay ''p1'' PaymentStatusCompleted (at_time 2000) (db_order, [])))), (db_paid, []))"
  by code_simp

lemma digital_stores: "shop_Process sample_config digital_order (at_time 1000) (empty_pg, []) =
    (Inr (projr (fst (shop_Process sample_config digital_order (at_time 1000) (empty_pg, [])))), (db_digital, []))"
  by code_simp

lemma payment_first: "pay ''p1'' PaymentStatusCompleted (at_time 2000) (empty_pg, []) =
    (Inr (projr (fst (pay ''p1'' PaymentStatusCompleted (at_time 2000) (empty_pg, [])))),
     (fst (snd (pay ''p1'' PaymentStatusCompleted (at_time 2000) (empty_pg, []))), []))"
  by code_simp

lemma shop_second: "shop_Process sample_config sample_order (at_time 3000)
      (fst (snd (pay ''p1'' PaymentStatusCompleted (at_time 2000) (empty_pg, []))), []) =
    (Inr (projr (fst (shop_Process sample_config sample_order (at_time 3000)
      (fst (snd (pay ''p1'' PaymentStatusCompleted (at_time 2000) (empty_pg, []))), [])))), (db_paid_first, []))"
  by code_simp

lemma job_claimed: "ClaimDue (at_time due) (db_paid, []) = (Inr (Some sample_job), (db_claimed, []))"
  by code_simp

lemma sample_ok: "db_ok db_order" "db_ok db_paid" "db_ok db_claimed" "db_ok db_digital"
proof -
  show order: "db_ok db_order" by (rule shop_Process_ok [OF db_ok_empty shop_stores])
  show paid: "db_ok db_paid" by (rule payment_Process_ok [OF order payment_settles [unfolded pay_def]])
  show "db_ok db_claimed" by (rule ClaimDue_ok [OF paid job_claimed])
  show "db_ok db_digital" by (rule shop_Process_ok [OF db_ok_empty digital_stores])
qed

definition sample_system :: "pg \<Rightarrow> time \<Rightarrow> Job list \<Rightarrow> system" where
  "sample_system g t claims = \<lparr>sys_db = g, sys_now = t, sys_claims = claims, sys_sap = [], sys_replays = 0\<rparr>"

lemma sample_initial: "sys_initial (sample_system empty_pg 0 [])"
  by (simp add: sys_initial_def sample_system_def)

lemma shop_request: "NewRouter sample_lib sample_config ShopRoute (sample_request []) (at_time 1000) (empty_pg, []) =
    (fst (NewRouter sample_lib sample_config ShopRoute (sample_request []) (at_time 1000) (empty_pg, [])), (db_order, []))"
  by code_simp

lemma payment_request: "NewRouter sample_lib sample_config PaymentRoute (sample_request ''p1'') (at_time 2000) (db_order, []) =
    (fst (NewRouter sample_lib sample_config PaymentRoute (sample_request ''p1'') (at_time 2000) (db_order, [])), (db_paid, []))"
  by code_simp

lemma sample_ticks: "t \<le> t' \<Longrightarrow> sys_step lib cfg (sample_system g t c) (sample_system g t' c)"
  using sys_step.tick [of "sample_system g t c" t' lib cfg] by (simp add: sample_system_def)

text \<open>From the empty database to the paid order, and on to the claim of its job.\<close>

lemma sample_run_order: "(sys_step sample_lib sample_config)\<^sup>*\<^sup>* (sample_system empty_pg 0 []) (sample_system db_order 1000 [])"
proof -
  have "sys_step sample_lib sample_config (sample_system empty_pg 0 []) (sample_system empty_pg 1000 [])"
    by (rule sample_ticks) simp
  moreover have "sys_step sample_lib sample_config (sample_system empty_pg 1000 []) (sample_system db_order 1000 [])"
    using sys_step.request [of "at_time 1000" "sample_system empty_pg 1000 []" sample_lib sample_config] shop_request
    by (simp add: sample_system_def at_time_def)
  ultimately show ?thesis by (meson converse_rtranclp_into_rtranclp rtranclp.rtrancl_refl)
qed

lemma sample_run_paid: "(sys_step sample_lib sample_config)\<^sup>*\<^sup>* (sample_system db_order 1000 []) (sample_system db_paid 2000 [])"
proof -
  have "sys_step sample_lib sample_config (sample_system db_order 1000 []) (sample_system db_order 2000 [])"
    by (rule sample_ticks) simp
  moreover have "sys_step sample_lib sample_config (sample_system db_order 2000 []) (sample_system db_paid 2000 [])"
    using sys_step.request [of "at_time 2000" "sample_system db_order 2000 []" sample_lib sample_config] payment_request
    by (simp add: sample_system_def at_time_def)
  ultimately show ?thesis by (meson converse_rtranclp_into_rtranclp rtranclp.rtrancl_refl)
qed

lemma sample_run_claimed:
  "(sys_step sample_lib sample_config)\<^sup>*\<^sup>* (sample_system db_paid 2000 []) (sample_system db_claimed due [sample_job])"
proof -
  have "sys_step sample_lib sample_config (sample_system db_paid 2000 []) (sample_system db_paid due [])"
    by (rule sample_ticks) (simp add: due_def second_def)
  moreover have "sys_step sample_lib sample_config (sample_system db_paid due []) (sample_system db_claimed due [sample_job])"
    using sys_step.claim [of "at_time due" "sample_system db_paid due []"] job_claimed
    by (simp add: sample_system_def at_time_def)
  ultimately show ?thesis by (meson converse_rtranclp_into_rtranclp rtranclp.rtrancl_refl)
qed

lemmas sample_run = rtranclp_trans [OF sample_run_order sample_run_paid]

section \<open>Two callers of the SAP client\<close>

text \<open>With the same order the first posts, the second waits.\<close>

definition flight :: sap_system where
  "flight = \<lparr>sy_client = snd (startCall ''k'' [] NewClient), sy_callers = (\<lambda>_. Idle)(0 := Posting ''k'' 0, 1 := Waiting ''k'' 0)\<rparr>"

lemma flight_run: "(sap_step (\<lambda>_. Inr []))\<^sup>*\<^sup>* \<lparr>sy_client = NewClient, sy_callers = (\<lambda>_. Idle)\<rparr> flight"
proof -
  let ?m = "\<lambda>_ :: OrderDetails. Inr [] :: go_error + string" and ?c = "snd (startCall ''k'' [] NewClient)"
  let ?s0 = "\<lparr>sy_client = NewClient, sy_callers = (\<lambda>_. Idle)\<rparr>" and ?s1 = "\<lparr>sy_client = ?c, sy_callers = (\<lambda>_. Idle)(0 := Posting ''k'' 0)\<rparr>"
  have "beginSyncOrder ?m ''k'' undefined NewClient = (Inr (0, True), ?c)" "beginSyncOrder ?m ''k'' undefined ?c = (Inr (0, False), ?c)"
    by (simp_all add: beginSyncOrder_def marshalOrder_def startCall_def NewClient_def)
  then have "sap_step ?m ?s0 ?s1" "sap_step ?m ?s1 flight"
    using sap_step.owns [of ?s0 0 ?m "''k''" undefined 0 ?c] sap_step.joins [of ?s1 1 ?m "''k''" undefined 0 ?c] by (simp_all add: flight_def)
  then show ?thesis by (meson converse_rtranclp_into_rtranclp rtranclp.rtrancl_refl)
qed

text \<open>The first has the answer of SAP, and the second returns it.\<close>

definition landed :: sap_system where
  "landed = \<lparr>sy_client = finishCall ''k'' 0 (Inr ''sap-1'') (sy_client flight),
     sy_callers = (\<lambda>_. Idle)(0 := Returned (Inr ''sap-1''), 1 := Returned (Inr ''sap-1''))\<rparr>"

lemma landed_run: "(sap_step (\<lambda>_. Inr []))\<^sup>*\<^sup>* flight landed"
proof -
  let ?m = "\<lambda>_ :: OrderDetails. Inr [] :: go_error + string"
  let ?s = "\<lparr>sy_client = finishCall ''k'' 0 (Inr ''sap-1'') (sy_client flight),
    sy_callers = (\<lambda>_. Idle)(0 := Returned (Inr ''sap-1''), 1 := Waiting ''k'' 0)\<rparr>"
  have "sap_step ?m flight ?s"
    using sap_step.posted [of flight 0 "''k''" 0 ?m "Inr ''sap-1''"] by (simp add: flight_def fun_upd_twist)
  moreover have "sap_step ?m ?s landed"
    using sap_step.shared [of ?s 1 "''k''" 0 ?m]
    by (simp add: landed_def flight_def finishCall_def startCall_def NewClient_def fun_upd_twist)
  ultimately show ?thesis by (meson converse_rtranclp_into_rtranclp rtranclp.rtrancl_refl)
qed

definition dns_failure :: transport_error where
  "dns_failure = \<lparr>is_canceled = False, is_deadline_exceeded = False, is_unexpected_eof = False, is_op_error = False, is_dns_error = True,
     is_net_error = False, net_timeout = False\<rparr>"

section \<open>A sleeping worker\<close>

definition idle_listener :: listener where
  "idle_listener = \<lparr>ls_wakeup = False, ls_error = None, ls_closed = False\<rparr>"

definition asleep :: "time \<Rightarrow> watcher" where
  "asleep t = \<lparr>wt_sys = sample_system db_paid t [], wt_queue = 0, wt_listener = Some idle_listener,
     wt_loop = \<lparr>lp_listening = True, lp_reconnectDelay = listenerReconnectMinDelay, lp_timer = Some due, lp_log = []\<rparr>,
     wt_phase = Selecting (Inr (Some due))\<rparr>"

lemma asleep_reached:
  "(wt_step sample_lib sample_config)\<^sup>*\<^sup>* (loop_start (sample_world (Inr []) 2000) (Watch True None None) (sample_system db_paid 2000 [])) (asleep due)"
proof -
  let ?s = "sample_system db_paid 2000 []" and ?step = "wt_step sample_lib sample_config"
  let ?w0 = "loop_start (sample_world (Inr []) 2000) (Watch True None None) ?s"
  let ?w1 = "?w0\<lparr>wt_phase := Arming\<rparr>"
  have "?step ?w0 ?w1" by (rule wt_step.drained) (simp add: loop_start_def)
  moreover have "SyncJobRepository_NextWake (at_time 2000) (db_paid, []) = (Inr (Some due), (db_paid, []))" by code_simp
  then have "?step ?w1 (asleep 2000)"
    using wt_step.arm [of ?w1 "at_time 2000" "[]" "Inr (Some due)" "(db_paid, [])" sample_lib sample_config]
    by (simp add: loop_start_def Watch_def sample_system_def at_time_def asleep_def idle_listener_def loop_arm_def armTimer_def due_def second_def)
  moreover have "?step (asleep 2000) (asleep due)"
  proof -
    have "sys_step sample_lib sample_config ?s (sample_system db_paid due [])" by (rule sample_ticks) (simp add: due_def second_def)
    then show ?thesis
      using wt_step.system [of sample_lib sample_config "asleep 2000" "sample_system db_paid due []" 0]
      by (simp add: asleep_def sample_system_def notify_sync_job_change_def)
  qed
  ultimately show ?thesis by (meson converse_rtranclp_into_rtranclp rtranclp.rtrancl_refl)
qed

section \<open>Overlapping transactions\<close>

definition db_overlap :: pg where
  "db_overlap = the (overlap empty_pg
     (fst (snd (processShop sample_order sample_config (at_time 1000) (empty_pg, []))))
     (fst (snd (processPayment (lib_upper sample_lib) (lib_rfc3339 sample_lib) (sample_payment ''p1'' PaymentStatusCompleted) sample_config (at_time 2000) (empty_pg, [])))))"

section \<open>An expired claim\<close>

definition db_synced :: pg where
  "db_synced = (let (r, s) = ClaimDue (at_time (due + 120 * second)) (db_claimed, []) in
     fst (snd (deliver (sample_world (Inr ''sap-1'') (due + 121 * second)) sample_config (the (projr r)) (at_time (due + 121 * second)) s)))"

definition late_failure :: world where
  "late_failure = sample_world (Inl (wrapError (Errorf ''SAP returned HTTP %d'' [ArgD 503]) True)) (due + 122 * second)"

section \<open>A dead job\<close>

definition permanent_failure :: world where
  "permanent_failure = sample_world (Inl (wrapError (Errorf ''SAP returned HTTP %d'' [ArgD 400]) False)) due"

definition db_dead :: pg where
  "db_dead = fst (snd (deliver permanent_failure sample_config sample_job (at_time due) (db_claimed, [])))"

lemma dead_ok: "db_ok db_dead"
proof -
  have "deliver permanent_failure sample_config sample_job (at_time due) (db_claimed, []) =
      (fst (deliver permanent_failure sample_config sample_job (at_time due) (db_claimed, [])), (db_dead, []))"
    by (simp add: db_dead_def prod_eq_iff deliver_no_faults)
  then show ?thesis by (rule deliver_ok) (rule sample_ok(3))
qed

section \<open>A worker whose jobs are accepted\<close>

definition accepting :: "nat \<Rightarrow> nat \<Rightarrow> world" where
  "accepting k n = sample_world (Inr ''sap-1'') due"

definition db_settled :: pg where
  "db_settled = fst (snd (deliver (sample_world (Inr ''sap-1'') due) sample_config sample_job (at_time due) (db_claimed, [])))"

lemma settles_drain:
  "\<exists>acts. drain (\<lambda>_. sample_world (Inr ''sap-1'') due) (\<lambda>_. at_time due) sample_config n (db_settled, []) = Some (acts, (db_settled, []))"
  "\<exists>acts. drain (\<lambda>_. sample_world (Inr ''sap-1'') due) (\<lambda>_. at_time due) sample_config n (db_paid, []) = Some (acts, (db_settled, []))"
proof -
  let ?w = "sample_world (Inr ''sap-1'') due"
  have "ClaimDue (at_time due) (db_settled, []) = (Inr None, (db_settled, []))" by code_simp
  then show settled: "\<exists>acts. drain (\<lambda>_. ?w) (\<lambda>_. at_time due) sample_config n (db_settled, []) = Some (acts, (db_settled, []))" for n
    by (subst drain.simps) simp
  have "snd (deliver ?w sample_config sample_job (w_session ?w) (db_claimed, [])) = (db_settled, [])" by code_simp
  then show "\<exists>acts. drain (\<lambda>_. ?w) (\<lambda>_. at_time due) sample_config n (db_paid, []) = Some (acts, (db_settled, []))"
    using settled [of "Suc n"] job_claimed by (subst drain.simps) (auto split: prod.splits)
qed

lemma settles_rounds:
  "loop_rounds accepting (\<lambda>_ _. at_time due) sample_config k db_paid = Some (if k = 0 then db_paid else db_settled)"
proof (induction k)
  case (Suc k)
  have acc: "accepting k = (\<lambda>_. sample_world (Inr ''sap-1'') due)" by (simp add: accepting_def fun_eq_iff)
  from settles_drain [of 0] Suc show ?case by (auto simp: drainDue_def acc split: if_splits)
qed simp

section \<open>A delivered order\<close>

definition sample_exchange :: exchange where
  "sample_exchange = \<lparr>ex_key = ''o1'', ex_order = job_Details sample_job, ex_answer = Inr ''sap-1''\<rparr>"

definition delivered_system :: system where
  "delivered_system = (sample_system db_settled due [])\<lparr>sys_sap := [sample_exchange]\<rparr>"

lemma job_delivered:
  "deliver (sample_world (Inr ''sap-1'') due) sample_config sample_job (at_time due) (db_claimed, []) =
    (fst (deliver (sample_world (Inr ''sap-1'') due) sample_config sample_job (at_time due) (db_claimed, [])), (db_settled, []))"
  by code_simp

lemma sample_run_delivered:
  "(sys_step sample_lib sample_config)\<^sup>*\<^sup>* (sample_system empty_pg 0 []) delivered_system"
proof -
  let ?w = "sample_world (Inr ''sap-1'') due" and ?s = "sample_system db_claimed due [sample_job]"
  let ?acts = "fst (deliver ?w sample_config sample_job (at_time due) (db_claimed, []))"
  have call: "exchanges ?w ?acts = [sample_exchange]" by code_simp
  have del: "deliver ?w sample_config sample_job (at_time due) (sys_db ?s, []) = (?acts, (db_settled, []))"
    using job_delivered by (simp add: sample_system_def)
  have "sys_step sample_lib sample_config ?s
      (?s\<lparr>sys_db := db_settled, sys_claims := remove1 sample_job (sys_claims ?s), sys_sap := sys_sap ?s @ exchanges ?w ?acts\<rparr>)"
    by (rule sys_step.deliver_job [OF _ _ _ del]) (simp_all add: sample_system_def at_time_def sample_world_def)
  then have "sys_step sample_lib sample_config ?s delivered_system"
    by (simp add: call) (simp add: sample_system_def delivered_system_def)
  then show ?thesis
    by (rule rtranclp.rtrancl_into_rtrancl [OF rtranclp_trans [OF sample_run sample_run_claimed]])
qed

end
