(* ===== verification/Webhook_Properties.thy ===== *)
theory Webhook_Properties
  imports Samples
begin

text \<open>The properties of the webhook services, each with a concrete instance.\<close>

section \<open>Transactions\<close>

text \<open>C10: whatever faults the database shows, a transaction either leaves every table as it was or takes
  the database through one complete run of its work; an answer without error means the latter.\<close>

theorem transaction_atomic:
  assumes "Run work e (g, fs) = (r, (g', fs'))"
  shows "(\<forall>x. r = Inr x \<longrightarrow> runs work e g x g') \<and>
    (same_tables g' g \<or> (\<exists>x. runs work e g x g'))"
  using assms by (cases rule: Run_cases) auto

theorem transaction_atomic_witness:
  "runs (processShop (NormalizeShopWebhook sample_order) sample_config) (at_time 1000) empty_pg
     (projr (fst (shop_Process sample_config sample_order (at_time 1000) (empty_pg, [])))) db_order"
  using transaction_atomic [OF shop_stores [unfolded shop_Process_def]] by (simp add: shop_Process_def)

section \<open>At-least-once delivery\<close>



lemma ledger_steps_payment:
  "ledger_step\<^sup>*\<^sup>* a b \<Longrightarrow> ld_payments a ref \<noteq> None \<Longrightarrow> ld_payments b ref \<noteq> None"
proof (induction rule: rtranclp_induct)
  case (step b c)
  from step.hyps(2) step.IH step.prems show ?case by (cases rule: ledger_step.cases) auto
qed simp

text \<open>C12: a payment webhook that was answered without error may be delivered again at any later time: it is answered
  as a duplicate carrying the payment status of that moment, and changes nothing.\<close>

theorem payment_redelivery:
  assumes "db_ok (sys_db s)" and "payment_Process (lib_upper lib) (lib_rfc3339 lib) cfg p e (sys_db s, fs) = (Inr x, (g, fs'))"
    and "NormalizePaymentWebhook (lib_upper lib) (NormalizePaymentWebhook (lib_upper lib) p) = NormalizePaymentWebhook (lib_upper lib) p"
    and "(sys_step lib cfg)\<^sup>*\<^sup>* (s\<lparr>sys_db := g\<rparr>) t"
  shows "\<exists>x'. payment_Process (lib_upper lib) (lib_rfc3339 lib) cfg p e' (sys_db t, []) = (Inr x', (sys_db t, [])) \<and> wr_Duplicate x' \<and>
    payment_status (sys_db t) (TrimSpace (pw_ReferenceOrderID p)) = Some (wr_PaymentStatus x')"
proof -
  let ?p = "NormalizePaymentWebhook (lib_upper lib) p"
  have run: "runs (processPayment (lib_upper lib) (lib_rfc3339 lib) ?p cfg) e (sys_db s) x g"
    using Run_success assms(2) unfolding payment_Process_def by blast
  have ok: "db_ok g" using assms(1) run by (rule processPayment_ok)
  have ref: "pw_ReferenceOrderID ?p = TrimSpace (pw_ReferenceOrderID p)" by (simp add: NormalizePaymentWebhook_def)
  have steps: "ledger_step\<^sup>*\<^sup>* (ledger_of g) (ledger_of (sys_db t))"
    using order_sync.run_refines [OF assms(4)] ok by simp
  have "ld_payments (ledger_of g) (pw_ReferenceOrderID ?p) \<noteq> None"
    using assms(1) run
  proof (cases rule: runs_processPayment)
    case duplicate
    then show ?thesis using ledger_of_business [of "sys_db s" g] by (auto simp: ledger_of_def)
  next
    case applied
    then show ?thesis using ledger_payment_applied(1) [OF assms(1)] by (auto simp: payment_event_applied_def)
  qed
  then obtain st where st: "payment_status (sys_db t) (pw_ReferenceOrderID ?p) = Some st"
    using ledger_steps_payment [OF steps] by (auto simp: ledger_of_def)
  obtain q where q: "stored_event g EventTypePayment (pw_EventID ?p) = Some q"
    "samePaymentPayload (NormalizePaymentWebhook (lib_upper lib) (unmarshal_payment q)) ?p"
    using recorded_payment_event [OF run assms(3)] .
  have "events_le g (sys_db t)" using run_events [OF assms(4)] by simp
  then have "stored_event (sys_db t) EventTypePayment (pw_EventID ?p) = Some q" using q(1) by (simp add: events_le_def)
  from payment_replay_eval [OF processed_texts(2) [OF run] this q(2) st] obtain x' where
    "processPayment (lib_upper lib) (lib_rfc3339 lib) ?p cfg e' (sys_db t, []) = (Inr x', (sys_db t, []))"
    "wr_Duplicate x'" "wr_PaymentStatus x' = st" by blast
  with ref st show ?thesis unfolding payment_Process_def by (auto simp: Run_eval_Inr)
qed

theorem payment_redelivery_witness:
  "\<exists>x'. pay ''p1'' PaymentStatusCompleted (at_time 9000000) (db_claimed, []) = (Inr x', (db_claimed, [])) \<and> wr_Duplicate x' \<and>
     wr_PaymentStatus x' = PaymentStatusCompleted"
proof -
  have norm: "NormalizePaymentWebhook (lib_upper sample_lib) (sample_payment ''p1'' PaymentStatusCompleted) = sample_payment ''p1'' PaymentStatusCompleted"
    by code_simp
  have st: "payment_status db_claimed (TrimSpace (pw_ReferenceOrderID (sample_payment ''p1'' PaymentStatusCompleted))) = Some PaymentStatusCompleted"
    by code_simp
  have "\<exists>x'. pay ''p1'' PaymentStatusCompleted (at_time 9000000) (db_claimed, []) = (Inr x', (db_claimed, [])) \<and> wr_Duplicate x' \<and>
      payment_status db_claimed (TrimSpace (pw_ReferenceOrderID (sample_payment ''p1'' PaymentStatusCompleted))) = Some (wr_PaymentStatus x')"
    unfolding pay_def
    using payment_redelivery [where s = "sample_system db_order 2000 []" and lib = sample_lib and cfg = sample_config and g = db_paid
        and p = "sample_payment ''p1'' PaymentStatusCompleted" and e = "at_time 2000" and fs = "[]" and fs' = "[]"
        and t = "sample_system db_claimed due [sample_job]" and e' = "at_time 9000000"]
      payment_settles [unfolded pay_def] sample_ok(1) norm sample_run_claimed
    by (simp add: sample_system_def)
  then show ?thesis unfolding st by auto
qed

section \<open>Either webhook may arrive first\<close>

text \<open>The ledger after a stored order, and the payment row after an applied event.\<close>

lemma stored_items_of:
  "map stored_item xs = map (\<lambda>r. Some (item_of_row r)) rows \<Longrightarrow> map item_of_row rows = map (\<lambda>x. the (stored_item x)) xs"
proof (induction xs arbitrary: rows)
  case (Cons x xs)
  then show ?case by (cases rows) auto
qed simp

lemma new_order_ledger:
  assumes ok: "db_ok g" and new: "find_order_row g (sw_OrderID p) = None" and run: "runs (processShop p cfg) e g x g'"
  shows "ledger_of g' = (ledger_of g)\<lparr>ld_orders := (ld_orders (ledger_of g))(sw_OrderID p \<mapsto>
      (sw_CustomerEmail p, mset (map (\<lambda>x. the (stored_item x)) (sw_Items p))))\<rparr>"
    and "paid_at_for (find_payment_row g' ref) = paid_at_for (find_payment_row g ref)"
    and "\<exists>w. find_order_row g' (sw_OrderID p) = Some w \<and> items_of_order g' (o_id w) = map (\<lambda>x. the (stored_item x)) (sw_Items p)"
proof -
  from run ok obtain row rows due where arr: "order_arrived g row due g'" "o_order_id row = sw_OrderID p"
      "o_customer_email row = sw_CustomerEmail p" "map stored_item (sw_Items p) = map (\<lambda>r. Some (item_of_row r)) rows"
      "\<forall>r \<in> set rows. i_order_id r = o_id row" "order_items g' = order_items g @ rows"
    by (cases rule: runs_processShop) (use new in auto)
  have "orders_wf g" using ok by (simp add: db_ok_def)
  then have "filter (\<lambda>r. i_order_id r = o_id row) (order_items g) = []"
    using arr(1) by (auto simp: orders_wf_def order_arrived_def filter_empty_conv)
  then have items: "items_of_order g' (o_id row) = map (\<lambda>x. the (stored_item x)) (sw_Items p)"
    using arr(5,6) stored_items_of [OF arr(4)] by (auto simp: items_of_order_def)
  with ledger_order_arrived(1) [OF ok arr(1)] arr(2,3)
  show "ledger_of g' = (ledger_of g)\<lparr>ld_orders := (ld_orders (ledger_of g))(sw_OrderID p \<mapsto>
      (sw_CustomerEmail p, mset (map (\<lambda>x. the (stored_item x)) (sw_Items p))))\<rparr>" by simp
  from arr(1) show "paid_at_for (find_payment_row g' ref) = paid_at_for (find_payment_row g ref)"
    by (auto simp: order_arrived_def linked_lookup(2))
  have "find_order_row g' (sw_OrderID p) = Some row"
    using arr(1,2) new by (auto simp: order_arrived_def find_order_row_def find_snoc)
  with items show "\<exists>w. find_order_row g' (sw_OrderID p) = Some w \<and> items_of_order g' (o_id w) = map (\<lambda>x. the (stored_item x)) (sw_Items p)"
    by blast
qed

lemma shop_items_stored:
  assumes ok: "db_ok g" and new: "find_order_row g (sw_OrderID p) = None" and run: "runs (processShop p cfg) e g x g'"
  shows "\<forall>item \<in> set (sw_Items p). stored_item item \<noteq> None"
  using run ok
proof (cases rule: runs_processShop)
  case (stored row rows)
  then have "set (map stored_item (sw_Items p)) = set (map (\<lambda>r. Some (item_of_row r)) rows)" by simp
  then show ?thesis by auto
qed (use new in simp)

lemma applied_payment_ledger:
  assumes ok: "db_ok g" and run: "runs (processPayment upper parse_time q cfg) e g x g'" and "\<not> wr_Duplicate x"
  shows "ledger_of g' = (ledger_of g)\<lparr>ld_payments := (ld_payments (ledger_of g))(pw_ReferenceOrderID q \<mapsto> pw_PaymentStatus q)\<rparr>"
    and "paid_at_for (find_payment_row g' (pw_ReferenceOrderID q)) =
      (if pw_PaymentStatus q = PaymentStatusCompleted then map_option timestamptz (parse_time (pw_Timestamp q)) else None)"
proof -
  from ok run assms(3) obtain p t due where p: "parse_time (pw_Timestamp q) = Some t"
      "payment_applied g (pw_ReferenceOrderID q) p due g'" "p_status p = pw_PaymentStatus q"
      "pw_PaymentStatus q = PaymentStatusCompleted \<longrightarrow> p_paid_at p = Some (timestamptz t)"
    by (cases rule: runs_processPayment) (auto simp: payment_event_applied_def)
  then show "ledger_of g' = (ledger_of g)\<lparr>ld_payments := (ld_payments (ledger_of g))(pw_ReferenceOrderID q \<mapsto> pw_PaymentStatus q)\<rparr>"
    using ledger_payment_applied(1) [OF ok p(2)] by simp
  have "payment_set g (pw_ReferenceOrderID q) p g'" "payments_ok g"
    using p(2) ok by (simp_all add: payment_applied_def db_ok_def)
  then have "find_payment_row g' (pw_ReferenceOrderID q) = Some p" by (simp add: payment_set_lookup)
  with p show "paid_at_for (find_payment_row g' (pw_ReferenceOrderID q)) =
      (if pw_PaymentStatus q = PaymentStatusCompleted then map_option timestamptz (parse_time (pw_Timestamp q)) else None)"
    by (auto simp: paid_at_for_def)
qed

lemma order_view:
  assumes "db_ok g" and "find_order_row g ref = Some w"
  shows "(o_payment_status w, o_paid_at w) = (order_state_for (payment_status g ref), paid_at_for (find_payment_row g ref))"
  using assms by (auto simp: db_ok_def reconciled_def dest!: find_order_row_Some)

text \<open>When both orders of arrival succeed, they agree.\<close>

lemma arrival_orders_agree:
  assumes ok: "db_ok g" and new: "find_order_row g (sw_OrderID p) = None" and ref: "pw_ReferenceOrderID q = sw_OrderID p"
    and shop_first: "runs (processShop p cfg) e1 g x1 g1" "runs (processPayment upper parse_time q cfg) e2 g1 x2 g2" "\<not> wr_Duplicate x2"
    and payment_first: "runs (processPayment upper parse_time q cfg) e3 g y1 h1" "\<not> wr_Duplicate y1" "runs (processShop p cfg) e4 h1 y2 h2"
  shows "ledger_of g2 = ledger_of h2 \<and>
    (\<exists>w w'. find_order_row g2 (sw_OrderID p) = Some w \<and> find_order_row h2 (sw_OrderID p) = Some w' \<and>
      o_payment_status w = o_payment_status w' \<and> o_paid_at w = o_paid_at w')"
proof -
  have ok1: "db_ok g1" "db_ok h1" using ok shop_first(1) payment_first(1) by (blast intro: processShop_ok processPayment_ok)+
  have ok2: "db_ok g2" "db_ok h2" using ok1 shop_first(2) payment_first(3) by (blast intro: processShop_ok processPayment_ok)+
  note s1 = new_order_ledger [OF ok new shop_first(1)] and p1 = applied_payment_ledger [OF ok1(1) shop_first(2,3)]
  note p2 = applied_payment_ledger [OF ok payment_first(1,2)]
  have new': "find_order_row h1 (sw_OrderID p) = None"
    using arg_cong [OF p2(1), of "\<lambda>a. ld_orders a (sw_OrderID p)"] new by (simp add: ledger_of_def)
  note s2 = new_order_ledger [OF ok1(2) new' payment_first(3)]
  have led: "ledger_of g2 = ledger_of h2" using s1(1) p1(1) s2(1) p2(1) by simp
  then have same: "payment_status g2 = payment_status h2" by (simp add: ledger_of_def)
  from s2(3) obtain w' where w': "find_order_row h2 (sw_OrderID p) = Some w'" by blast
  then obtain w where w: "find_order_row g2 (sw_OrderID p) = Some w"
    using arg_cong [OF led, of "\<lambda>a. ld_orders a (sw_OrderID p)"] by (auto simp: ledger_of_def)
  have "paid_at_for (find_payment_row g2 (sw_OrderID p)) = paid_at_for (find_payment_row h2 (sw_OrderID p))"
    using p1(2) p2(2) s2(2) ref by simp
  with order_view [OF ok2(1) w] order_view [OF ok2(2) w'] same led w w' show ?thesis by simp
qed

text \<open>The two webhooks are accepted, alone or after each other.\<close>

lemma accepted_shop_run:
  assumes "db_ok g" and "stored_event g EventTypeShop (sw_EventID p) = None" and "find_order_row g (sw_OrderID p) = None"
    and "\<forall>item \<in> set (sw_Items p). stored_item item \<noteq> None" and "shop_storable e p"
    and "payment_status g (sw_OrderID p) = Some PaymentStatusCompleted \<Longrightarrow> schedulable e cfg"
  obtains x g' where "processShop p cfg e (g, []) = (Inr x, (g', []))" "runs (processShop p cfg) e g x g'" "\<not> wr_Duplicate x"
proof -
  have "completes (processShop p cfg) e g (\<lambda>x g'. \<not> wr_Duplicate x \<and> wr_Message x = ''Order stored'')"
    using assms by (intro processShop_accepts storable_recordable) auto
  then show thesis by (auto simp: completes_def intro: that runsI)
qed

lemma accepted_payment_run:
  assumes "db_ok g" and "stored_event g EventTypePayment (pw_EventID q) = None"
    and "\<forall>f. payment_status g (pw_ReferenceOrderID q) = Some f \<longrightarrow> \<not> finalized f" and "ValidatePaymentWebhook parse_time q = []"
    and "payment_storable e q"
    and "\<And>w. pw_PaymentStatus q = PaymentStatusCompleted \<Longrightarrow> find_order_row g (pw_ReferenceOrderID q) = Some w \<Longrightarrow> schedulable e cfg"
    and "\<And>w. pw_PaymentStatus q = PaymentStatusCancelled \<Longrightarrow> find_order_row g (pw_ReferenceOrderID q) = Some w \<Longrightarrow>
      hardware_order g (items_of_order g (o_id w))"
  obtains x g' where "processPayment upper parse_time q cfg e (g, []) = (Inr x, (g', []))"
    "runs (processPayment upper parse_time q cfg) e g x g'" "\<not> wr_Duplicate x"
proof -
  from assms(4) obtain t where "payment_status_ok (pw_PaymentStatus q)" "parse_time (pw_Timestamp q) = Some t"
    by (auto simp: ValidatePaymentWebhook_def payment_status_ok_def split: if_splits)
  then have "completes (processPayment upper parse_time q cfg) e g (\<lambda>x g'. \<not> wr_Duplicate x)"
    using assms(1-3,5-7) by (intro processPayment_accepts storable_recordable) auto
  then show thesis by (auto simp: completes_def intro: that runsI)
qed

lemma hardware_stored:
  assumes "\<forall>x \<in> set xs. stored_item x \<noteq> None"
  shows "hardware_order g (map (\<lambda>x. the (stored_item x)) xs) = hardware_order g xs"
proof -
  have "hardware_item g (the (stored_item x)) = hardware_item g x" if "stored_item x \<noteq> None" for x
    using that by (auto simp: stored_item_def hardware_item_def split: option.splits if_splits)
  with assms show ?thesis by (auto simp: hardware_order_def)
qed

text \<open>C13: a new order and a valid new event of its open payment may arrive in either order, provided the tables can hold their
  texts and items, the due time of its job is a timestamp and, when the event is a cancellation, the order has hardware: each
  order of arrival is accepted without faults, none of the answers is a duplicate, and both sequences end with the same ledger of
  orders and payments, and with the same payment state and paid time on the order.\<close>

theorem arrival_order_irrelevant:
  assumes ok: "db_ok g" and ref: "pw_ReferenceOrderID q = sw_OrderID p"
    and new: "find_order_row g (sw_OrderID p) = None" "stored_event g EventTypeShop (sw_EventID p) = None"
      "stored_event g EventTypePayment (pw_EventID q) = None"
    and unsettled: "\<forall>f. payment_status g (sw_OrderID p) = Some f \<longrightarrow> \<not> finalized f"
    and valid: "ValidatePaymentWebhook parse_time q = []"
    and items: "\<forall>item \<in> set (sw_Items p). stored_item item \<noteq> None"
    and env: "\<forall>e \<in> {e1, e2, e3, e4}. shop_storable e p \<and> payment_storable e q \<and> schedulable e cfg"
    and hardware: "pw_PaymentStatus q = PaymentStatusCancelled \<Longrightarrow> hardware_order g (sw_Items p)"
  shows "\<exists>x1 g1 x2 g2 y1 h1 y2 h2 w w'.
    processShop p cfg e1 (g, []) = (Inr x1, (g1, [])) \<and> processPayment upper parse_time q cfg e2 (g1, []) = (Inr x2, (g2, [])) \<and>
    processPayment upper parse_time q cfg e3 (g, []) = (Inr y1, (h1, [])) \<and> processShop p cfg e4 (h1, []) = (Inr y2, (h2, [])) \<and>
    \<not> wr_Duplicate x1 \<and> \<not> wr_Duplicate x2 \<and> \<not> wr_Duplicate y1 \<and> \<not> wr_Duplicate y2 \<and> ledger_of g2 = ledger_of h2 \<and>
    find_order_row g2 (sw_OrderID p) = Some w \<and> find_order_row h2 (sw_OrderID p) = Some w' \<and>
    o_payment_status w = o_payment_status w' \<and> o_paid_at w = o_paid_at w'"
proof -
  from env have storable: "shop_storable e1 p" "payment_storable e2 q" "payment_storable e3 q" "shop_storable e4 p"
    and sched: "schedulable e1 cfg" "schedulable e2 cfg" "schedulable e3 cfg" "schedulable e4 cfg" by simp_all
  obtain x1 g1 where shop1: "processShop p cfg e1 (g, []) = (Inr x1, (g1, []))" "runs (processShop p cfg) e1 g x1 g1" "\<not> wr_Duplicate x1"
    using accepted_shop_run [OF ok new(2,1) items storable(1) sched(1)] .
  have ok1: "db_ok g1" using shop1(2) ok by (rule processShop_ok)
  note led1 = new_order_ledger [OF ok new(1) shop1(2)]
  have open1: "\<forall>f. payment_status g1 (pw_ReferenceOrderID q) = Some f \<longrightarrow> \<not> finalized f"
    using arg_cong [OF led1(1), of ld_payments] unsettled ref by (simp add: ledger_of_def)
  have ev1: "stored_event g1 EventTypePayment (pw_EventID q) = None"
    using new(3) by (simp add: processShop_events [OF shop1(2)])
  have hw1: "hardware_order g1 (items_of_order g1 (o_id w))"
    if "pw_PaymentStatus q = PaymentStatusCancelled" "find_order_row g1 (pw_ReferenceOrderID q) = Some w" for w
    using led1(3) that ref hardware [OF that(1)] hardware_stored [OF items] hardware_order_catalogue [OF processShop_catalogue [OF shop1(2)]]
    by auto
  obtain x2 g2 where pay2: "processPayment upper parse_time q cfg e2 (g1, []) = (Inr x2, (g2, []))"
    "runs (processPayment upper parse_time q cfg) e2 g1 x2 g2" "\<not> wr_Duplicate x2"
    using accepted_payment_run [OF ok1 ev1 open1 valid storable(2) sched(2) hw1] .
  have absent: "find_order_row g (pw_ReferenceOrderID q) \<noteq> Some w" for w using new(1) ref by simp
  obtain y1 h1 where pay1: "processPayment upper parse_time q cfg e3 (g, []) = (Inr y1, (h1, []))"
    "runs (processPayment upper parse_time q cfg) e3 g y1 h1" "\<not> wr_Duplicate y1"
    by (rule accepted_payment_run [OF ok new(3) _ valid storable(3), where cfg = cfg and upper = upper])
      (use unsettled ref absent in auto)
  have okh: "db_ok h1" using ok pay1(2) by (rule processPayment_ok)
  have newh: "find_order_row h1 (sw_OrderID p) = None"
    using arg_cong [OF applied_payment_ledger(1) [OF ok pay1(2,3)], of "\<lambda>a. ld_orders a (sw_OrderID p)"] new(1) by (simp add: ledger_of_def)
  have evh: "stored_event h1 EventTypeShop (sw_EventID p) = None"
    using new(2) by (simp add: processPayment_events [OF pay1(2)])
  obtain y2 h2 where shop2: "processShop p cfg e4 (h1, []) = (Inr y2, (h2, []))" "runs (processShop p cfg) e4 h1 y2 h2" "\<not> wr_Duplicate y2"
    using accepted_shop_run [OF okh evh newh items storable(4) sched(4)] .
  from arrival_orders_agree [OF ok new(1) ref shop1(2) pay2(2,3) pay1(2,3) shop2(2)] shop1 pay2 pay1 shop2 show ?thesis by blast
qed

theorem arrival_order_irrelevant_witness:
  "\<exists>g2 h2 w w'. ledger_of g2 = ledger_of h2 \<and> find_order_row g2 ''o1'' = Some w \<and> find_order_row h2 ''o1'' = Some w' \<and>
     o_payment_status w = o_payment_status w' \<and> o_paid_at w = o_paid_at w'"
proof -
  let ?q = "sample_payment ''p1'' PaymentStatusCancelled"
  have hyps: "pw_ReferenceOrderID ?q = sw_OrderID sample_order" "find_order_row empty_pg (sw_OrderID sample_order) = None"
    "stored_event empty_pg EventTypeShop (sw_EventID sample_order) = None" "stored_event empty_pg EventTypePayment (pw_EventID ?q) = None"
    "payment_status empty_pg (sw_OrderID sample_order) = None" "ValidatePaymentWebhook (lib_rfc3339 sample_lib) ?q = []"
    "\<forall>item \<in> set (sw_Items sample_order). stored_item item \<noteq> None" "hardware_order empty_pg (sw_Items sample_order)"
    "sw_OrderID sample_order = ''o1''"
    by (code_simp, code_simp, code_simp, code_simp, code_simp, code_simp, code_simp, code_simp, code_simp)
  have env: "shop_storable (at_time 1000) sample_order" "payment_storable (at_time 1000) ?q" "schedulable (at_time 1000) sample_config"
    by (code_simp, code_simp, code_simp)
  show ?thesis
    using arrival_order_irrelevant [of empty_pg ?q sample_order "lib_rfc3339 sample_lib" "at_time 1000" "at_time 1000" "at_time 1000"
        "at_time 1000" sample_config "lib_upper sample_lib", OF db_ok_empty hyps(1-4) _ hyps(6,7) _ hyps(8)] hyps(5) env
    unfolding hyps(9) by (simp add: payment_status_def) blast
qed

section \<open>Progress\<close>

text \<open>C15: a new shop order that the tables can hold is stored, answered as no duplicate, and takes at once the state that a
  payment already known for it implies. The tables can hold it when its texts are UTF-8 without the zero byte and short enough for the
  indexes, its items fit their columns and, if its payment is COMPLETED, the configured delay leads to a timestamp.\<close>

theorem shop_order_accepted:
  assumes "db_ok g" and "stored_event g EventTypeShop (TrimSpace (sw_EventID p)) = None"
    and "find_order_row g (TrimSpace (sw_OrderID p)) = None"
    and items: "\<forall>item \<in> set (sw_Items (NormalizeShopWebhook p)). stored_item item \<noteq> None"
    and texts: "shop_storable e (NormalizeShopWebhook p)"
    and sched: "payment_status g (TrimSpace (sw_OrderID p)) = Some PaymentStatusCompleted \<Longrightarrow> schedulable e cfg"
  shows "\<exists>x g' w. shop_Process cfg p e (g, []) = (Inr x, (g', [])) \<and> \<not> wr_Duplicate x \<and>
    find_order_row g' (TrimSpace (sw_OrderID p)) = Some w \<and> o_customer_email w = TrimSpace (sw_CustomerEmail p) \<and>
    o_payment_status w = order_state_for (payment_status g (TrimSpace (sw_OrderID p)))"
proof -
  let ?p = "NormalizeShopWebhook p"
  have p: "sw_EventID ?p = TrimSpace (sw_EventID p)" "sw_OrderID ?p = TrimSpace (sw_OrderID p)"
    "sw_CustomerEmail ?p = TrimSpace (sw_CustomerEmail p)" by (simp_all add: NormalizeShopWebhook_def)
  obtain x g' where run: "processShop ?p cfg e (g, []) = (Inr x, (g', []))" "runs (processShop ?p cfg) e g x g'" "\<not> wr_Duplicate x"
    by (rule accepted_shop_run [OF assms(1) _ _ items texts, where cfg = cfg]) (use assms(2,3) sched p in auto)
  have ok: "db_ok g'" using run(2) assms(1) by (rule processShop_ok)
  from new_order_ledger [OF assms(1) _ run(2)] assms(3) p obtain w where w: "find_order_row g' (sw_OrderID ?p) = Some w"
    and led: "ledger_of g' = (ledger_of g)\<lparr>ld_orders := (ld_orders (ledger_of g))(sw_OrderID ?p \<mapsto>
      (sw_CustomerEmail ?p, mset (map (\<lambda>x. the (stored_item x)) (sw_Items ?p))))\<rparr>" by auto
  have "o_customer_email w = sw_CustomerEmail ?p"
    using arg_cong [OF led, of "\<lambda>a. ld_orders a (sw_OrderID ?p)"] w by (simp add: ledger_of_def)
  moreover have "payment_status g' = payment_status g"
    using arg_cong [OF led, of ld_payments] by (simp add: ledger_of_def)
  ultimately show ?thesis
    using run order_view [OF ok w] w p by (auto simp: shop_Process_def Run_eval_Inr)
qed

theorem shop_order_accepted_witness:
  "\<exists>x g' w. shop_Process sample_config sample_order (at_time 1000) (empty_pg, []) = (Inr x, (g', [])) \<and> \<not> wr_Duplicate x \<and>
     find_order_row g' (TrimSpace (sw_OrderID sample_order)) = Some w \<and>
     o_payment_status w = order_state_for (payment_status empty_pg (TrimSpace (sw_OrderID sample_order)))"
proof -
  have "stored_event empty_pg EventTypeShop (TrimSpace (sw_EventID sample_order)) = None"
    "find_order_row empty_pg (TrimSpace (sw_OrderID sample_order)) = None"
    "\<forall>item \<in> set (sw_Items (NormalizeShopWebhook sample_order)). stored_item item \<noteq> None"
    "shop_storable (at_time 1000) (NormalizeShopWebhook sample_order)"
    by (code_simp, code_simp, code_simp, code_simp)
  moreover have "schedulable (at_time 1000) sample_config" by code_simp
  ultimately show ?thesis using shop_order_accepted [OF db_ok_empty, of sample_order "at_time 1000" sample_config] by blast
qed

text \<open>C16: a valid new payment event of an open payment is applied, for an order that is stored or not: the payment takes the
  event's status. This holds for texts that are UTF-8 without the zero byte and short enough for the indexes; a completion of a stored order needs a
  configured delay that leads to a timestamp, and a cancellation of a stored order needs an order with hardware.\<close>

theorem payment_event_accepted:
  assumes "db_ok g" and "NormalizePaymentWebhook upper p = p" and "stored_event g EventTypePayment (pw_EventID p) = None"
    and "\<forall>f. payment_status g (pw_ReferenceOrderID p) = Some f \<longrightarrow> \<not> finalized f"
    and "ValidatePaymentWebhook parse_time p = []"
    and "payment_storable e p"
    and "\<And>w. pw_PaymentStatus p = PaymentStatusCompleted \<Longrightarrow> find_order_row g (pw_ReferenceOrderID p) = Some w \<Longrightarrow> schedulable e cfg"
    and "\<And>w. pw_PaymentStatus p = PaymentStatusCancelled \<Longrightarrow> find_order_row g (pw_ReferenceOrderID p) = Some w \<Longrightarrow>
      hardware_order g (items_of_order g (o_id w))"
  shows "\<exists>x g'. payment_Process upper parse_time cfg p e (g, []) = (Inr x, (g', [])) \<and> \<not> wr_Duplicate x \<and>
    payment_status g' = (payment_status g)(pw_ReferenceOrderID p \<mapsto> pw_PaymentStatus p)"
proof -
  obtain x g' where run: "processPayment upper parse_time p cfg e (g, []) = (Inr x, (g', []))"
    "runs (processPayment upper parse_time p cfg) e g x g'" "\<not> wr_Duplicate x"
    using accepted_payment_run [OF assms(1,3-8)] .
  from arg_cong [OF applied_payment_ledger(1) [OF assms(1) run(2,3)], of ld_payments]
  have "payment_status g' = (payment_status g)(pw_ReferenceOrderID p \<mapsto> pw_PaymentStatus p)" by (simp add: ledger_of_def)
  with run show ?thesis by (auto simp: payment_Process_def assms(2) Run_eval_Inr)
qed

theorem payment_event_accepted_witness:
  "\<exists>x g'. pay ''p9'' PaymentStatusCancelled (at_time 2000) (db_order, []) = (Inr x, (g', [])) \<and> \<not> wr_Duplicate x \<and>
     payment_status g' ''o1'' = Some PaymentStatusCancelled"
proof -
  let ?p = "sample_payment ''p9'' PaymentStatusCancelled"
  have hyps: "NormalizePaymentWebhook (lib_upper sample_lib) ?p = ?p" "stored_event db_order EventTypePayment (pw_EventID ?p) = None"
    "ValidatePaymentWebhook (lib_rfc3339 sample_lib) ?p = []" "payment_storable (at_time 2000) ?p"
    "payment_status db_order (pw_ReferenceOrderID ?p) = None" "pw_ReferenceOrderID ?p = ''o1''" "pw_PaymentStatus ?p = PaymentStatusCancelled"
    "find_order_row db_order ''o1'' = Some (hd (orders db_order))" "hardware_order db_order (items_of_order db_order (o_id (hd (orders db_order))))"
    by (code_simp, code_simp, code_simp, code_simp, code_simp, code_simp, code_simp, code_simp, code_simp)
  have "schedulable (at_time 2000) sample_config" by code_simp
  then show ?thesis
    using payment_event_accepted [OF sample_ok(1) hyps(1,2) _ hyps(3,4), of sample_config] hyps by (auto simp: pay_def)
qed

text \<open>The zero character passes validation, and the request ends in an internal error; so does a delay beyond the timestamps.\<close>

definition zero_order :: shop_Webhook where
  "zero_order = sample_order\<lparr>sw_OrderID := [CHR ''o'', CHR 0x00]\<rparr>"

theorem zero_character_internal_error:
  "ValidateShopWebhook Some zero_order = [] \<and>
   rp_status (writeWebhookProcessError True None ''0004'' (projl (fst (shop_Process sample_config zero_order (at_time 1000) (empty_pg, []))))) = 500"
  by (rule conjI; code_simp)

theorem huge_delay_internal_error:
  "valid_config (sample_config\<lparr>HardwareSyncDelaySeconds := 10 ^ 13\<rparr>) \<and>
   rp_status (writeWebhookProcessError True None ''0005'' (projl (fst (payment_Process (lib_upper sample_lib) (lib_rfc3339 sample_lib)
     (sample_config\<lparr>HardwareSyncDelaySeconds := 10 ^ 13\<rparr>) (sample_payment ''p1'' PaymentStatusCompleted) (at_time 2000) (db_order, []))))) = 500"
  by (rule conjI; code_simp)

text \<open>C14: a COMPLETED payment event of a stored order marks the order PAID at the event's time and queues a PENDING job for it, due
  after the hardware delay when the order has hardware and at once when it is digital.\<close>

theorem completed_payment_schedules:
  assumes ok: "db_ok g" and run: "runs (processPayment upper parse_time p cfg) e g x g'" and "\<not> wr_Duplicate x"
    and st: "pw_PaymentStatus p = PaymentStatusCompleted" and w: "find_order_row g (pw_ReferenceOrderID p) = Some w"
  shows "\<exists>t w' j. parse_time (pw_Timestamp p) = Some t \<and> find_order_row g' (pw_ReferenceOrderID p) = Some w' \<and>
    o_payment_status w' = OrderStatePaid \<and> o_paid_at w' = Some (timestamptz t) \<and>
    j \<in> set (sync_jobs g') \<and> j_order_id j = o_id w' \<and> j_status j = SyncStatusPending \<and> j_attempts j = 0 \<and>
    j_due_at j = env_now e + (if hardware_order g (items_of_order g (o_id w)) then HardwareSyncDelaySeconds cfg * second else 0)"
proof -
  let ?ref = "pw_ReferenceOrderID p"
  from ok run assms(3) obtain r t where r: "parse_time (pw_Timestamp p) = Some t"
      "payment_applied g ?ref r (settle_due cfg e g ?ref) g'" "p_status r = PaymentStatusCompleted" "p_paid_at r = Some (timestamptz t)"
    using st by (cases rule: runs_processPayment) (auto simp: payment_event_applied_def)
  have ok': "db_ok g'" using ok run by (rule processPayment_ok)
  from r(2) obtain f where ords: "orders g' = update_where (\<lambda>r. o_order_id r = ?ref) f (orders g)"
    and f: "\<forall>r. o_id (f r) = o_id r \<and> o_order_id (f r) = o_order_id r"
    by (auto simp: payment_applied_def)
  have w': "find_order_row g' ?ref = Some (f w)"
    using ords f w by (auto simp: find_order_row_def find_update_where_key [where k = o_order_id] dest!: find_SomeD)
  have "payment_set g ?ref r g'" "payments_ok g" using r(2) ok by (simp_all add: payment_applied_def db_ok_def)
  then have pay: "find_payment_row g' ?ref = Some r" by (simp add: payment_set_lookup)
  have view: "o_payment_status (f w) = OrderStatePaid" "o_paid_at (f w) = Some (timestamptz t)"
    using order_view [OF ok' w'] pay r(3,4) by (auto simp: payment_status_def order_state_for_def paid_at_for_def)
  from r(2,3) w obtain now where "sync_jobs g' = sync_jobs g @ [new_job (sync_jobs_seq g + 1) (o_id w) (settle_due cfg e g ?ref) now]"
    by (auto simp: payment_applied_def)
  then have "new_job (sync_jobs_seq g + 1) (o_id w) (settle_due cfg e g ?ref) now \<in> set (sync_jobs g')" by simp
  then show ?thesis
    using r(1) w' view f w by (intro exI conjI) (auto simp: settle_due_def sync_delay_def)
qed

theorem completed_payment_schedules_witness:
  "\<exists>w' j. find_order_row db_paid ''o1'' = Some w' \<and> o_payment_status w' = OrderStatePaid \<and>
     j \<in> set (sync_jobs db_paid) \<and> j_order_id j = o_id w' \<and> j_due_at j = 2000 + 30 * second"
proof -
  let ?p = "sample_payment ''p1'' PaymentStatusCompleted"
  have norm: "NormalizePaymentWebhook (lib_upper sample_lib) ?p = ?p" by code_simp
  have run: "runs (processPayment (lib_upper sample_lib) (lib_rfc3339 sample_lib) ?p sample_config) (at_time 2000) db_order
      (projr (fst (pay ''p1'' PaymentStatusCompleted (at_time 2000) (db_order, [])))) db_paid"
    using Run_success [OF payment_settles [unfolded pay_def payment_Process_def]] by (simp add: norm pay_def payment_Process_def)
  have facts: "\<not> wr_Duplicate (projr (fst (pay ''p1'' PaymentStatusCompleted (at_time 2000) (db_order, []))))"
    "pw_PaymentStatus ?p = PaymentStatusCompleted" "pw_ReferenceOrderID ?p = ''o1''"
    "find_order_row db_order ''o1'' = Some (hd (orders db_order))"
    "hardware_order db_order (items_of_order db_order (o_id (hd (orders db_order))))"
    "HardwareSyncDelaySeconds sample_config = 30" "env_now (at_time 2000) = 2000"
    by (code_simp, code_simp, code_simp, code_simp, code_simp, code_simp, code_simp)
  show ?thesis
    using completed_payment_schedules [OF sample_ok(1) run facts(1,2), unfolded facts(3), OF facts(4)] facts(5-7) by auto
qed

section \<open>Rejected webhooks\<close>

lemma Run_internal_error:
  assumes "refuses work e g err0" and "\<forall>x. \<not> errors_is err0 x"
  shows "\<exists>err g'. Run work e (g, []) = (Inl err, (g', [])) \<and> same_tables g' g \<and>
    (\<forall>logger ctx code. rp_status (writeWebhookProcessError logger ctx code err) = 500)"
proof -
  have "\<not> business_error (Wrapf ''run transaction work: %w'' [] err0)" using assms(2) unfolding business_error_iff by auto
  with Run_refuses [OF assms(1)] show ?thesis
    by (intro exI [of _ "Wrapf ''run transaction work: %w'' [] err0"]) (auto simp: writeWebhookProcessError_status)
qed

lemma Run_rejects:
  assumes "refuses work e g (Sentinel x)"
  shows "\<exists>err g'. Run work e (g, []) = (Inl err, (g', [])) \<and> same_tables g' g \<and>
    errors_is err x \<and> (\<forall>logger ctx code. rp_status (writeWebhookProcessError logger ctx code err) = 409)"
proof -
  have "business_error (Wrapf ''run transaction work: %w'' [] (Sentinel x))" unfolding business_error_iff by auto
  with Run_refuses [OF assms] show ?thesis
    by (intro exI [of _ "Wrapf ''run transaction work: %w'' [] (Sentinel x)"]) (auto simp: writeWebhookProcessError_status)
qed

text \<open>C28: a new event that would change a COMPLETED or CANCELLED payment is refused and leaves every table as it was. The
  refusal is the finalized error, answered 409; only an event whose own texts the tables cannot hold is refused before that,
  with an internal error.\<close>

theorem finalized_payment_rejected:
  assumes "NormalizePaymentWebhook upper p = p" and "stored_event g EventTypePayment (pw_EventID p) = None"
    and "payment_status g (pw_ReferenceOrderID p) = Some f" and "f = PaymentStatusCompleted \<or> f = PaymentStatusCancelled"
    and "pw_PaymentStatus p \<noteq> f"
  shows "\<exists>err g'. payment_Process upper parse_time cfg p e (g, []) = (Inl err, (g', [])) \<and> same_tables g' g \<and>
    (if payment_storable e p
     then errors_is err ErrPaymentFinalized \<and> (\<forall>logger ctx code. rp_status (writeWebhookProcessError logger ctx code err) = 409)
     else \<forall>logger ctx code. rp_status (writeWebhookProcessError logger ctx code err) = 500)"
proof (cases "payment_storable e p")
  case True
  then have "refuses (processPayment upper parse_time p cfg) e g (Sentinel ErrPaymentFinalized)"
    using assms(2-) by (intro processPayment_finalized storable_recordable) (auto simp: finalized_def)
  from Run_rejects [OF this] True show ?thesis by (simp add: payment_Process_def assms(1))
next
  case False
  then have "\<not> recordable e g (pw_EventID p) EventTypePayment (PaymentPayload p)"
    using assms(2) by (simp add: recordable_def payment_storable_def)
  from process_unrecordable(2) [OF this] obtain err where "refuses (processPayment upper parse_time p cfg) e g err" "\<forall>x. \<not> errors_is err x"
    by blast
  from Run_internal_error [OF this] False show ?thesis by (simp add: payment_Process_def assms(1))
qed

theorem finalized_payment_rejected_witness:
  "\<exists>err g'. pay ''p2'' PaymentStatusCancelled (at_time 9000) (db_paid, []) = (Inl err, (g', [])) \<and> same_tables g' db_paid \<and>
     errors_is err ErrPaymentFinalized"
proof -
  let ?p = "sample_payment ''p2'' PaymentStatusCancelled"
  have "NormalizePaymentWebhook (lib_upper sample_lib) ?p = ?p" "stored_event db_paid EventTypePayment (pw_EventID ?p) = None"
    "payment_status db_paid (pw_ReferenceOrderID ?p) = Some PaymentStatusCompleted" "pw_PaymentStatus ?p \<noteq> PaymentStatusCompleted"
    by (code_simp, code_simp, code_simp, code_simp)
  moreover have "payment_storable (at_time 9000) ?p" by code_simp
  ultimately show ?thesis
    using finalized_payment_rejected [of "lib_upper sample_lib" ?p db_paid PaymentStatusCompleted "lib_rfc3339 sample_lib" sample_config "at_time 9000"]
    by (simp add: pay_def) blast
qed

text \<open>A CANCELLED event of a stored order without hardware is refused with the digital-cancellation error, answered 409,
  and leaves every table as it was.\<close>

theorem digital_cancellation_rejected:
  assumes "db_ok g" and "NormalizePaymentWebhook upper p = p" and "stored_event g EventTypePayment (pw_EventID p) = None"
    and "\<forall>f. payment_status g (pw_ReferenceOrderID p) = Some f \<longrightarrow> \<not> finalized f"
    and "pw_PaymentStatus p = PaymentStatusCancelled" and "parse_time (pw_Timestamp p) = Some t"
    and "find_order_row g (pw_ReferenceOrderID p) = Some w" and "payment_storable e p"
    and "\<forall>item \<in> set (items_of_order g (o_id w)). IsHardware item \<noteq> Some True \<and>
      (IsHardware item = None \<longrightarrow> (SKU item, ''HARDWARE'') \<notin> set (sku_classifications g))"
  shows "\<exists>err g'. payment_Process upper parse_time cfg p e (g, []) = (Inl err, (g', [])) \<and> same_tables g' g \<and>
    errors_is err ErrDigitalCancellation \<and> (\<forall>logger ctx code. rp_status (writeWebhookProcessError logger ctx code err) = 409)"
proof -
  have "\<not> hardware_order g (items_of_order g (o_id w))"
    using assms(9) by (auto simp: hardware_order_def hardware_item_iff hardware_sku_def)
  then have "refuses (processPayment upper parse_time p cfg) e g (Sentinel ErrDigitalCancellation)"
    using assms(1-8) by (intro processPayment_digital storable_recordable) auto
  from Run_rejects [OF this] show ?thesis by (simp add: payment_Process_def assms(2))
qed

theorem digital_cancellation_rejected_witness:
  "\<exists>err g'. pay ''p2'' PaymentStatusCancelled (at_time 9000) (db_digital, []) = (Inl err, (g', [])) \<and> same_tables g' db_digital \<and>
     errors_is err ErrDigitalCancellation"
proof -
  let ?p = "sample_payment ''p2'' PaymentStatusCancelled" and ?w = "hd (orders db_digital)"
  have hyps: "NormalizePaymentWebhook (lib_upper sample_lib) ?p = ?p" "stored_event db_digital EventTypePayment (pw_EventID ?p) = None"
    "payment_status db_digital (pw_ReferenceOrderID ?p) = None" "pw_PaymentStatus ?p = PaymentStatusCancelled"
    "lib_rfc3339 sample_lib (pw_Timestamp ?p) = Some 5000" "find_order_row db_digital (pw_ReferenceOrderID ?p) = Some ?w" "payment_storable (at_time 9000) ?p"
    "\<forall>item \<in> set (items_of_order db_digital (o_id ?w)). IsHardware item \<noteq> Some True \<and>
      (IsHardware item = None \<longrightarrow> (SKU item, ''HARDWARE'') \<notin> set (sku_classifications db_digital))"
    by (code_simp, code_simp, code_simp, code_simp, code_simp, code_simp, code_simp, code_simp)
  then show ?thesis
    using digital_cancellation_rejected [where p = ?p and upper = "lib_upper sample_lib" and parse_time = "lib_rfc3339 sample_lib"
        and w = ?w and cfg = sample_config and e = "at_time 9000", OF sample_ok(4) hyps(1,2) _ hyps(4-8)] by (auto simp: pay_def)
qed

text \<open>A payment event identifier that comes back with another payload is refused with the payload conflict, answered 409,
  and leaves every table as it was.\<close>

theorem payment_event_conflict:
  assumes "stored_event g EventTypePayment (TrimSpace (pw_EventID p)) = Some (PaymentPayload q)"
    and "NormalizePaymentWebhook upper q = q"
    and "\<not> (pw_ReferenceOrderID q = TrimSpace (pw_ReferenceOrderID p) \<and>
      pw_PaymentStatus q = ToUpper upper (TrimSpace (pw_PaymentStatus p)) \<and> pw_Timestamp q = TrimSpace (pw_Timestamp p))"
    and "event_text_ok (TrimSpace (pw_EventID p)) (PaymentPayload (NormalizePaymentWebhook upper p))"
  shows "\<exists>err g'. payment_Process upper parse_time cfg p e (g, []) = (Inl err, (g', [])) \<and> same_tables g' g \<and>
    errors_is err ErrPaymentPayloadConflict \<and> (\<forall>logger ctx code. rp_status (writeWebhookProcessError logger ctx code err) = 409)"
proof -
  have "refuses (processPayment upper parse_time (NormalizePaymentWebhook upper p) cfg) e g (Sentinel ErrPaymentPayloadConflict)"
    using assms by (intro processPayment_conflict [where q = "PaymentPayload q"])
      (auto simp: samePaymentPayload_def, auto simp: NormalizePaymentWebhook_def)
  from Run_rejects [OF this] show ?thesis by (simp add: payment_Process_def)
qed

theorem payment_event_conflict_witness:
  "\<exists>err g'. pay ''p1'' PaymentStatusFailed (at_time 9000) (db_paid, []) = (Inl err, (g', [])) \<and> same_tables g' db_paid \<and>
     errors_is err ErrPaymentPayloadConflict"
proof -
  let ?p = "sample_payment ''p1'' PaymentStatusFailed" and ?q = "sample_payment ''p1'' PaymentStatusCompleted"
  have hyps: "stored_event db_paid EventTypePayment (TrimSpace (pw_EventID ?p)) = Some (PaymentPayload ?q)"
    "NormalizePaymentWebhook (lib_upper sample_lib) ?q = ?q"
    "\<not> (pw_ReferenceOrderID ?q = TrimSpace (pw_ReferenceOrderID ?p) \<and>
      pw_PaymentStatus ?q = ToUpper (lib_upper sample_lib) (TrimSpace (pw_PaymentStatus ?p)) \<and> pw_Timestamp ?q = TrimSpace (pw_Timestamp ?p))"
    "event_text_ok (TrimSpace (pw_EventID ?p)) (PaymentPayload (NormalizePaymentWebhook (lib_upper sample_lib) ?p))"
    by (code_simp, code_simp, code_simp, code_simp)
  show ?thesis
    using payment_event_conflict [OF hyps, of "lib_rfc3339 sample_lib" sample_config "at_time 9000"] by (auto simp: pay_def)
qed

text \<open>C29: a shop order identifier that comes back with another customer or another bag of items is refused and leaves every
  table as it was. The refusal is the payload conflict, answered 409; only a webhook whose own texts the tables cannot hold may be
  refused before that, with an internal error.\<close>

theorem shop_order_conflict:
  assumes "find_order_row g (TrimSpace (sw_OrderID p)) = Some w"
    and "o_customer_email w \<noteq> TrimSpace (sw_CustomerEmail p) \<or>
      mset (items_of_order g (o_id w)) \<noteq> mset (map (\<lambda>item. item\<lparr>SKU := TrimSpace (SKU item)\<rparr>) (sw_Items p))"
  shows "\<exists>err g'. shop_Process cfg p e (g, []) = (Inl err, (g', [])) \<and> same_tables g' g \<and>
    (errors_is err ErrOrderPayloadConflict \<and> (\<forall>logger ctx code. rp_status (writeWebhookProcessError logger ctx code err) = 409) \<or>
     \<not> shop_storable e (NormalizeShopWebhook p) \<and> (\<forall>logger ctx code. rp_status (writeWebhookProcessError logger ctx code err) = 500))"
proof (cases "recordable e g (sw_EventID (NormalizeShopWebhook p)) EventTypeShop (ShopPayload (NormalizeShopWebhook p))")
  case True
  then have "refuses (processShop (NormalizeShopWebhook p) cfg) e g (Sentinel ErrOrderPayloadConflict)"
    using assms by (intro processShop_conflict) (auto simp: NormalizeShopWebhook_def)
  from Run_rejects [OF this] show ?thesis unfolding shop_Process_def by blast
next
  case False
  with storable_recordable(1) have "\<not> shop_storable e (NormalizeShopWebhook p)" by blast
  moreover obtain err where "refuses (processShop (NormalizeShopWebhook p) cfg) e g err" "\<forall>x. \<not> errors_is err x"
    using process_unrecordable(1) [OF False] by blast
  from Run_internal_error [OF this] have "\<exists>err g'. shop_Process cfg p e (g, []) = (Inl err, (g', [])) \<and> same_tables g' g \<and>
      (\<forall>logger ctx code. rp_status (writeWebhookProcessError logger ctx code err) = 500)" unfolding shop_Process_def .
  ultimately show ?thesis by blast
qed

theorem shop_order_conflict_witness:
  "\<exists>err g'. shop_Process sample_config (sample_order\<lparr>sw_EventID := ''e2'', sw_CustomerEmail := ''x@y.z''\<rparr>) (at_time 9000) (db_order, [])
       = (Inl err, (g', [])) \<and> same_tables g' db_order \<and> errors_is err ErrOrderPayloadConflict"
proof -
  let ?p = "sample_order\<lparr>sw_EventID := ''e2'', sw_CustomerEmail := ''x@y.z''\<rparr>" and ?w = "hd (orders db_order)"
  have "find_order_row db_order (TrimSpace (sw_OrderID ?p)) = Some ?w" "o_customer_email ?w \<noteq> TrimSpace (sw_CustomerEmail ?p)"
    "shop_storable (at_time 9000) (NormalizeShopWebhook ?p)"
    by (code_simp, code_simp, code_simp)
  then show ?thesis using shop_order_conflict [of db_order ?p ?w sample_config "at_time 9000"] by blast
qed

section \<open>Payloads\<close>

text \<open>The counting comparison of a stored order with a webhook is equality of the customer and of the items as
  multisets: the order of the items does not matter, their multiplicities do.\<close>

theorem same_order_payload_exact:
  "sameOrderPayload existing payload \<longleftrightarrow>
     so_CustomerEmail existing = sw_CustomerEmail payload \<and> mset (so_Items existing) = mset (sw_Items payload)"
  by (rule sameOrderPayload_iff)

text \<open>C38: a shop webhook passes validation exactly when its identifiers are present, its address is a bare mail address, and it
  has items, each with an article number, a positive quantity and a price that is not negative. A payment webhook passes
  exactly when its identifiers are present, its timestamp parses, and its status is one of the four known ones.\<close>

theorem validation_exact:
  "(ValidateShopWebhook parse_address p = []) =
     (sw_EventID p \<noteq> [] \<and> sw_OrderID p \<noteq> [] \<and> sw_CustomerEmail p \<noteq> [] \<and>
      parse_address (sw_CustomerEmail p) = Some (sw_CustomerEmail p) \<and> sw_Items p \<noteq> [] \<and>
      list_all (\<lambda>item. SKU item \<noteq> [] \<and> 0 < Quantity item \<and> 0 \<le> Price item) (sw_Items p)) \<and>
   (ValidatePaymentWebhook parse_time q = []) =
     (pw_EventID q \<noteq> [] \<and> pw_ReferenceOrderID q \<noteq> [] \<and> parse_time (pw_Timestamp q) \<noteq> None \<and>
      pw_PaymentStatus q \<in> {''PENDING'', ''COMPLETED'', ''FAILED'', ''CANCELLED''})"
  by (auto simp: ValidateShopWebhook_def item_issues_Nil valid_item_def list_all_iff ValidatePaymentWebhook_def
      PaymentStatusPending_def PaymentStatusCompleted_def PaymentStatusFailed_def PaymentStatusCancelled_def)

text \<open>A valid status survives a second normalization, whatever the Unicode tables say.\<close>

lemma ToUpper_status:
  "ToUpper upper (TrimSpace ''PENDING'') = ''PENDING''" "ToUpper upper (TrimSpace ''COMPLETED'') = ''COMPLETED''"
  "ToUpper upper (TrimSpace ''FAILED'') = ''FAILED''" "ToUpper upper (TrimSpace ''CANCELLED'') = ''CANCELLED''"
proof -
  have "TrimSpace ''PENDING'' = ''PENDING''" "TrimSpace ''COMPLETED'' = ''COMPLETED''" "TrimSpace ''FAILED'' = ''FAILED''"
    "TrimSpace ''CANCELLED'' = ''CANCELLED''" "is_ascii ''PENDING''" "is_ascii ''COMPLETED''" "is_ascii ''FAILED''" "is_ascii ''CANCELLED''"
    "map upper_char ''PENDING'' = ''PENDING''" "map upper_char ''COMPLETED'' = ''COMPLETED''" "map upper_char ''FAILED'' = ''FAILED''"
    "map upper_char ''CANCELLED'' = ''CANCELLED''"
    by (code_simp, code_simp, code_simp, code_simp, code_simp, code_simp, code_simp, code_simp, code_simp, code_simp, code_simp, code_simp)
  then show "ToUpper upper (TrimSpace ''PENDING'') = ''PENDING''" "ToUpper upper (TrimSpace ''COMPLETED'') = ''COMPLETED''"
    "ToUpper upper (TrimSpace ''FAILED'') = ''FAILED''" "ToUpper upper (TrimSpace ''CANCELLED'') = ''CANCELLED''"
    unfolding ToUpper_def by simp_all
qed

text \<open>Normalizing a payment webhook that passes validation a second time changes nothing, whatever the Unicode case
  tables say: the comparison with the recorded payload therefore compares equals with equals.\<close>

theorem validated_payload_normal:
  assumes "ValidatePaymentWebhook parse_time (NormalizePaymentWebhook upper p) = []"
  shows "NormalizePaymentWebhook upper (NormalizePaymentWebhook upper p) = NormalizePaymentWebhook upper p"
proof -
  let ?st = "pw_PaymentStatus (NormalizePaymentWebhook upper p)"
  from assms have "?st = ''PENDING'' \<or> ?st = ''COMPLETED'' \<or> ?st = ''FAILED'' \<or> ?st = ''CANCELLED''"
    by (auto simp: ValidatePaymentWebhook_def PaymentStatusPending_def PaymentStatusCompleted_def PaymentStatusFailed_def
        PaymentStatusCancelled_def split: if_splits)
  then have "ToUpper upper (TrimSpace ?st) = ?st" using ToUpper_status by auto
  then show ?thesis by (simp add: NormalizePaymentWebhook_def)
qed

theorem validated_payload_normal_witness:
  "NormalizePaymentWebhook (\<lambda>s. s) (NormalizePaymentWebhook (\<lambda>s. s) (sample_payment '' p1 '' '' completed''))
     = NormalizePaymentWebhook (\<lambda>s. s) (sample_payment '' p1 '' '' completed'')"
  by (rule validated_payload_normal [of "\<lambda>_. Some 0"]) code_simp

section \<open>Prices and quantities\<close>

lemma numeric_12_2_nonneg:
  assumes "0 \<le> p"
  shows "numeric_12_2 p = (let c = \<lfloor>p * 100 + 1 / 2\<rfloor> in if c < 10 ^ 12 then Some (of_int c / 100) else None)"
proof (cases "p = 0")
  case False
  with assms have p: "0 < p" by simp
  then have c: "0 \<le> \<lfloor>p * 100 + 1 / 2\<rfloor>" by simp
  have "\<bar>of_int \<lfloor>p * 100 + 1 / 2\<rfloor> :: rat\<bar> < 10 ^ 12 \<longleftrightarrow> \<lfloor>p * 100 + 1 / 2\<rfloor> < 10 ^ 12"
    using c by (metis abs_of_nonneg of_int_0_le_iff of_int_less_iff of_int_numeral of_int_power)
  with p show ?thesis by (simp add: numeric_12_2_def Let_def)
next
  case True
  have "\<lfloor>1 / 2 :: rat\<rfloor> = 0" by (rule floor_unique) simp_all
  with True show ?thesis by (simp add: numeric_12_2_def)
qed

text \<open>An item with a text the database stores, a quantity below two to the thirty-first and a price of at most 9999999999.99 is stored, with its price
  moved by half a cent at most.\<close>

theorem storable_item:
  assumes "0 < Quantity item" and "Quantity item < 2 ^ 31" and "0 \<le> Price item" and "Price item \<le> 9999999999 + 99 / 100"
    and "text_ok (SKU item)"
  shows "\<exists>y. stored_item item = Some y \<and> SKU y = SKU item \<and> Quantity y = Quantity item \<and> IsHardware y = IsHardware item \<and>
    \<bar>Price y - Price item\<bar> \<le> 1 / 200"
proof -
  let ?c = "\<lfloor>Price item * 100 + 1 / 2\<rfloor>"
  have "Price item * 100 + 1 / 2 < 10 ^ 12" using assms(4) by simp
  then have "?c < 10 ^ 12" by (simp add: floor_less_iff)
  then have num: "numeric_12_2 (Price item) = Some (of_int ?c / 100)" using assms(3) by (simp add: numeric_12_2_nonneg Let_def)
  have "0 \<le> ?c" using assms(3) by simp
  then have "0 \<le> (of_int ?c / 100 :: rat)" by simp
  with num assms(1,2,5) have "stored_item item = Some (item\<lparr>Price := of_int ?c / 100\<rparr>)" by (simp add: stored_item_def int4_ok_def)
  moreover have "\<bar>of_int ?c / 100 - Price item\<bar> \<le> 1 / 200"
  proof -
    have "of_int ?c \<le> Price item * 100 + 1 / 2" "Price item * 100 + 1 / 2 < of_int ?c + 1"
      using floor_correct [of "Price item * 100 + 1 / 2"] by simp_all
    then have "of_int ?c / 100 - Price item \<le> 1 / 200" "- (of_int ?c / 100 - Price item) \<le> 1 / 200" by linarith+
    then show ?thesis unfolding abs_le_iff by (rule conjI)
  qed
  ultimately show ?thesis by simp
qed

theorem storable_item_witness:
  "\<exists>y. stored_item sample_item = Some y \<and> SKU y = SKU sample_item \<and> \<bar>Price y - Price sample_item\<bar> \<le> 1 / 200"
proof -
  have "0 < Quantity sample_item" "Quantity sample_item < 2 ^ 31" "0 \<le> Price sample_item" "Price sample_item \<le> 9999999999 + 99 / 100"
    by (simp_all add: sample_item_def)
  moreover have "text_ok (SKU sample_item)" by code_simp
  ultimately have "\<exists>y. stored_item sample_item = Some y \<and> SKU y = SKU sample_item \<and> Quantity y = Quantity sample_item \<and>
      IsHardware y = IsHardware sample_item \<and> \<bar>Price y - Price sample_item\<bar> \<le> 1 / 200" by (rule storable_item)
  then show ?thesis by blast
qed

section \<open>Deviations from the documented behaviour\<close>

lemma stored_item_rounded: "stored_item x = Some y \<Longrightarrow> exact_price y"
  by (auto simp: stored_item_def exact_price_def numeric_12_2_stored split: option.splits if_splits)

text \<open>C39: a price that two decimals cannot express is stored rounded, and an exact redelivery of such a webhook is later
  refused as a payload conflict, with 409, although the documentation promises that redeliveries are accepted.\<close>

theorem inexact_price_conflict:
  assumes ok: "db_ok (sys_db s)" and new: "find_order_row (sys_db s) (TrimSpace (sw_OrderID p)) = None"
    and res: "shop_Process cfg p e (sys_db s, fs) = (Inr x, (g, fs'))"
    and inexact: "item \<in> set (sw_Items p)" "\<not> exact_price item"
    and later: "(sys_step lib cfg)\<^sup>*\<^sup>* (s\<lparr>sys_db := g\<rparr>) t"
  shows "\<exists>err g'. shop_Process cfg p e' (sys_db t, []) = (Inl err, (g', [])) \<and> same_tables g' (sys_db t) \<and>
    errors_is err ErrOrderPayloadConflict \<and> (\<forall>logger ctx code. rp_status (writeWebhookProcessError logger ctx code err) = 409)"
proof -
  let ?p = "NormalizeShopWebhook p" and ?stored = "\<lambda>x. the (stored_item x)"
  have run: "runs (processShop ?p cfg) e (sys_db s) x g" using Run_success res unfolding shop_Process_def by blast
  have ids: "sw_OrderID ?p = TrimSpace (sw_OrderID p)" by (simp add: NormalizeShopWebhook_def)
  have ok': "db_ok g" using run ok by (rule processShop_ok)
  have "ld_orders (ledger_of g) (sw_OrderID ?p) = Some (sw_CustomerEmail ?p, mset (map ?stored (sw_Items ?p)))"
    using new_order_ledger(1) [OF ok _ run] new ids by simp
  then have "ld_orders (ledger_of (sys_db t)) (sw_OrderID ?p) = Some (sw_CustomerEmail ?p, mset (map ?stored (sw_Items ?p)))"
    using ledger_steps_order [OF order_sync.run_refines [OF later]] ok' by simp
  then obtain w where w: "find_order_row (sys_db t) (sw_OrderID ?p) = Some w"
    "mset (items_of_order (sys_db t) (o_id w)) = mset (map ?stored (sw_Items ?p))"
    by (auto simp: ledger_of_def)
  have "\<forall>x \<in> set (sw_Items ?p). stored_item x \<noteq> None" using shop_items_stored [OF ok _ run] new ids by simp
  then have "\<forall>y \<in> set (map ?stored (sw_Items ?p)). exact_price y" using stored_item_rounded by fastforce
  moreover have "\<exists>x \<in> set (sw_Items ?p). \<not> exact_price x"
    using inexact by (auto simp: NormalizeShopWebhook_def exact_price_def)
  ultimately have "mset (map ?stored (sw_Items ?p)) \<noteq> mset (sw_Items ?p)" by (metis set_mset_mset)
  with w(2) have "mset (items_of_order (sys_db t) (o_id w)) \<noteq> mset (sw_Items ?p)" by simp
  moreover have "recordable e' (sys_db t) (sw_EventID ?p) EventTypeShop (ShopPayload ?p)"
    using processed_texts(1) [OF run] recorded_shop_event [OF run] run_events [OF later]
    by (auto simp: events_le_def intro: recordable_stored)
  ultimately have "refuses (processShop ?p cfg) e' (sys_db t) (Sentinel ErrOrderPayloadConflict)"
    using w(1) by (intro processShop_conflict) auto
  from Run_rejects [OF this] show ?thesis by (simp add: shop_Process_def)
qed

theorem inexact_price_conflict_witness:
  "\<exists>err g'. shop_Process sample_config fractional_order (at_time 3000) (db_fractional, []) = (Inl err, (g', [])) \<and>
     errors_is err ErrOrderPayloadConflict"
proof -
  have res: "shop_Process sample_config fractional_order (at_time 1000) (empty_pg, []) =
      (Inr (projr (fst (shop_Process sample_config fractional_order (at_time 1000) (empty_pg, [])))), (db_fractional, []))"
    by code_simp
  have item: "hd (sw_Items fractional_order) \<in> set (sw_Items fractional_order)" "\<not> exact_price (hd (sw_Items fractional_order))"
    "find_order_row empty_pg (TrimSpace (sw_OrderID fractional_order)) = None"
    by (code_simp, code_simp, code_simp)
  show ?thesis
    using inexact_price_conflict [where s = "sample_system empty_pg 1000 []" and t = "sample_system db_fractional 1000 []"
        and lib = sample_lib and cfg = sample_config and p = fractional_order and e = "at_time 1000" and fs = "[]" and g = db_fractional
        and fs' = "[]" and e' = "at_time 3000" and item = "hd (sw_Items fractional_order)", OF _ _ _ item(1,2)] db_ok_empty res item(3)
    by (simp add: sample_system_def) blast
qed

text \<open>A quantity beyond the integer column passes validation, and the request ends in an internal error.\<close>

theorem huge_quantity_internal_error:
  "ValidateShopWebhook Some huge_order = [] \<and>
   rp_status (writeWebhookProcessError True None ''0004'' (projl (fst (shop_Process sample_config huge_order (at_time 1000) (empty_pg, []))))) = 500"
  by (rule conjI; code_simp)

text \<open>A cancellation that precedes its digital order cancels the order, which the cancellation after it may not.\<close>

theorem digital_order_cancelled_early:
  "map o_payment_status (orders (fst (snd (shop_Process sample_config digital_order (at_time 3000)
     (snd (pay ''p1'' PaymentStatusCancelled (at_time 2000) (empty_pg, []))))))) = [OrderStateCancelled]"
  by code_simp

text \<open>An event of an unknown order that is not COMPLETED is answered 200, not 202.\<close>

theorem early_failed_payment_status:
  "map_option payment_reply_status (case fst (pay ''p1'' PaymentStatusFailed (at_time 2000) (empty_pg, [])) of
     Inr x \<Rightarrow> Some x | Inl _ \<Rightarrow> None) = Some 200"
  by code_simp

section \<open>Overlapping transactions\<close>

text \<open>C17: the race of an order with its payment. When neither is stored and the transactions of both webhooks overlap,
  both succeed and both commit, each blind to the other, if the tables can hold them: the order stays PENDING without a job although its payment is
  COMPLETED. So the consistency of reachable states depends on transactions that do not overlap, which READ COMMITTED
  does not provide.\<close>

theorem overlapping_webhooks_unreconciled:
  assumes "db_ok g" and "stored_event g EventTypeShop (sw_EventID p) = None" and "stored_event g EventTypePayment (pw_EventID q) = None"
    and "find_order_row g (sw_OrderID p) = None" and "find_payment_row g (sw_OrderID p) = None"
    and "pw_ReferenceOrderID q = sw_OrderID p" and "\<forall>item \<in> set (sw_Items p). stored_item item \<noteq> None"
    and "pw_PaymentStatus q = PaymentStatusCompleted" and "parse_time (pw_Timestamp q) = Some t"
    and "shop_storable e1 p" and "payment_storable e2 q"
  shows "\<exists>x1 g1 x2 g2 h w. processShop p cfg e1 (g, []) = (Inr x1, (g1, [])) \<and>
    processPayment upper parse_time q cfg e2 (g, []) = (Inr x2, (g2, [])) \<and> overlap g g1 g2 = Some h \<and>
    payment_status h (sw_OrderID p) = Some PaymentStatusCompleted \<and> find_order_row h (sw_OrderID p) = Some w \<and>
    o_payment_status w = OrderStatePending \<and> (\<forall>j. j \<in> set (sync_jobs h) \<longrightarrow> j_order_id j \<noteq> o_id w) \<and> \<not> db_ok h"
proof -
  have "\<not> db_ok h" if "payment_status h (sw_OrderID p) = Some PaymentStatusCompleted" "find_order_row h (sw_OrderID p) = Some w"
    "o_payment_status w = OrderStatePending" for h w
  proof
    assume "db_ok h"
    then have "o_payment_status w = order_state_for (payment_status h (o_order_id w))" "o_order_id w = sw_OrderID p"
      using find_order_row_Some [OF that(2)] by (auto simp: db_ok_def reconciled_def)
    with that show False by (simp add: order_state_for_def OrderStatePending_def OrderStatePaid_def)
  qed
  with overlap_unseen [where parse_time = parse_time, OF assms(1-9) storable_recordable(1) [OF assms(10)] storable_recordable(2) [OF assms(11)],
      of cfg upper] show ?thesis by blast
qed

theorem overlapping_webhooks_unreconciled_witness:
  "payment_status db_overlap ''o1'' = Some PaymentStatusCompleted \<and>
   (\<exists>w. find_order_row db_overlap ''o1'' = Some w \<and> o_payment_status w = OrderStatePending) \<and> \<not> db_ok db_overlap"
proof -
  have "stored_event empty_pg t i = None" "find_order_row empty_pg r = None" "find_payment_row empty_pg r = None" for t i r
    by (simp_all add: stored_event_None find_order_row_def find_payment_row_def empty_pg_def)
  moreover have "\<forall>item \<in> set (sw_Items sample_order). stored_item item \<noteq> None" by code_simp
  moreover have "shop_storable (at_time 1000) sample_order" "payment_storable (at_time 2000) (sample_payment ''p1'' PaymentStatusCompleted)"
    by (code_simp, code_simp)
  ultimately show ?thesis
    using overlapping_webhooks_unreconciled [of empty_pg sample_order "sample_payment ''p1'' PaymentStatusCompleted" "lib_rfc3339 sample_lib" 5000
        "at_time 1000" "at_time 2000" sample_config "lib_upper sample_lib"] db_ok_empty
    by (auto simp: db_overlap_def sample_order_def sample_payment_def sample_lib_def)
qed

text \<open>Redelivering both webhooks does not repair it: both are duplicates.\<close>

theorem overlap_not_repaired:
  "snd (shop_Process sample_config sample_order (at_time 5000) (db_overlap, [])) = (db_overlap, [])"
  "snd (pay ''p1'' PaymentStatusCompleted (at_time 6000) (db_overlap, [])) = (db_overlap, [])"
  by (code_simp, code_simp)

end
