(* ===== verification/Worker_Properties.thy ===== *)
theory Worker_Properties
  imports Dispatch Samples
begin

text \<open>The properties of the job queue, the worker and the SAP client, each with a concrete instance.\<close>

section \<open>The drain loop\<close>



text \<open>C19: without database faults a drain runs until a claim finds nothing: no job is left that was due at the time of
  its last claim and that no other worker holds, and it takes no more rounds than the jobs have attempts left.\<close>

theorem drain_leaves_nothing_due:
  assumes "db_ok g"
  shows "\<exists>acts g' k. drainDue ws es cfg (False, (g, [])) = Some (acts, False, (g', [])) \<and> k \<le> potential cfg g \<and>
    (\<forall>j. j \<in> set (sync_jobs g') \<and> claimable (env_now (es k)) g' j \<longrightarrow> j_id j \<in> set (env_locked (es k)))"
  using drain_exhausts [OF assms, of ws es cfg 0] by (fastforce simp: drainDue_def claim_candidate_None)

theorem drain_leaves_nothing_due_witness:
  "\<exists>acts g'. drainDue (\<lambda>n. sample_world (Inr ''sap-1'') due) (\<lambda>n. at_time due) sample_config (False, (db_paid, [])) =
      Some (acts, False, (g', [])) \<and> (\<forall>j. j \<in> set (sync_jobs g') \<longrightarrow> \<not> claimable due g' j)"
  using drain_leaves_nothing_due [OF sample_ok(2), of "\<lambda>n. sample_world (Inr ''sap-1'') due" "\<lambda>n. at_time due" sample_config]
  by (auto simp: at_time_def)

text \<open>C20: every job is settled. If the worker's loop drains whenever its timer has fired (no database faults, no other worker holding
  rows), then after as many rounds as the jobs may have attempts every job is SYNCED or DEAD, whatever SAP answers and however late
  the rounds come; the loop never gets stuck and the tables stay consistent.\<close>

theorem every_job_settles:
  assumes "db_ok g" and "\<And>k h. loop_rounds ws es cfg k g = Some h \<Longrightarrow> timer_fires (es k) h"
    and "length (sync_jobs g) * nat (maxTotalAttempts cfg + 1) \<le> k"
  shows "\<exists>h. loop_rounds ws es cfg k g = Some h \<and> db_ok h \<and>
    (\<forall>j. j \<in> set (sync_jobs h) \<longrightarrow> j_status j = SyncStatusSynced \<or> j_status j = SyncStatusDead)"
proof -
  have "potential cfg g \<le> k" using potential_bound [OF assms(1), of cfg] assms(3) by simp
  from rounds_settle [where ws = ws and es = es and cfg = cfg and k = k, OF assms(1,2) this] show ?thesis
    by (auto simp: settled_def)
qed

theorem every_job_settles_witness:
  "\<exists>h. loop_rounds accepting (\<lambda>_ _. at_time due) sample_config 6 db_paid = Some h \<and>
     (\<forall>j. j \<in> set (sync_jobs h) \<longrightarrow> j_status j = SyncStatusSynced \<or> j_status j = SyncStatusDead)"
proof -
  have "timer_fires (\<lambda>_. at_time due) db_paid" "timer_fires (\<lambda>_. at_time due) db_settled" by (code_simp, code_simp)
  then have "timer_fires (\<lambda>_. at_time due) h" if "loop_rounds accepting (\<lambda>_ _. at_time due) sample_config k db_paid = Some h" for k h
    using that by (auto simp: settles_rounds split: if_splits)
  moreover have "length (sync_jobs db_paid) * nat (maxTotalAttempts sample_config + 1) \<le> 6" by code_simp
  ultimately show ?thesis
    using every_job_settles [where ws = accepting and es = "\<lambda>_ _. at_time due" and cfg = sample_config and k = 6, OF sample_ok(2)] by blast
qed

section \<open>Claims\<close>

text \<open>C22: a claim answers with no job exactly when no unlocked job is due. Otherwise it hands out the one with the earliest
  due time, together with its paid order and items, counts the attempt and marks the row PROCESSING.\<close>

theorem claim_earliest_due:
  assumes ok: "db_ok g"
  shows "(ClaimDue e (g, []) = (Inr None, (g, [])) \<and>
      (\<forall>j. j \<in> set (sync_jobs g) \<and> claimable (env_now e) g j \<longrightarrow> j_id j \<in> set (env_locked e))) \<or>
    (\<exists>job g' j r. ClaimDue e (g, []) = (Inr (Some job), (g', [])) \<and>
      j \<in> set (sync_jobs g) \<and> claimable (env_now e) g j \<and> j_id j \<notin> set (env_locked e) \<and>
      (\<forall>k. k \<in> set (sync_jobs g) \<and> claimable (env_now e) g k \<and> j_id k \<notin> set (env_locked e) \<longrightarrow> claim_key j \<le> claim_key k) \<and>
      job_ID job = j_id j \<and> job_Attempts job = j_attempts j + 1 \<and>
      r \<in> set (orders g) \<and> o_id r = j_order_id j \<and> o_payment_status r = OrderStatePaid \<and> o_paid_at r \<noteq> None \<and>
      od_PaidAt (job_Details job) = env_rfc3339nano e (the (o_paid_at r)) \<and>
      od_OrderID (job_Details job) = o_order_id r \<and> od_CustomerEmail (job_Details job) = o_customer_email r \<and>
      od_Items (job_Details job) = items_of_order g (o_id r) \<and>
      g' = g\<lparr>sync_jobs := update_where (\<lambda>k. j_id k = j_id j) (lock_row (env_now e)) (sync_jobs g)\<rparr>)"
proof (cases "claim_candidate (env_locked e) (env_now e) g")
  case None
  then have "ClaimDue e (g, []) = (Inr None, (g, []))" using ClaimDue_eval [OF ok, of e] by simp
  moreover from None have "\<forall>j \<in> set (sync_jobs g). claimable (env_now e) g j \<longrightarrow> j_id j \<in> set (env_locked e)"
    unfolding claim_candidate_None .
  ultimately show ?thesis by blast
next
  case (Some j)
  then have j: "j \<in> set (sync_jobs g)" "claimable (env_now e) g j" "j_id j \<notin> set (env_locked e)"
    "\<forall>k \<in> set (sync_jobs g). claimable (env_now e) g k \<and> j_id k \<notin> set (env_locked e) \<longrightarrow> claim_key j \<le> claim_key k"
    by (auto dest: claim_candidate_Some)
  from ok j(1) obtain r t where r: "List.find (\<lambda>r. o_id r = j_order_id j) (orders g) = Some r" "o_payment_status r = OrderStatePaid"
    "o_paid_at r = Some t" by (rule job_order_paid)
  then have "r \<in> set (orders g)" "o_id r = j_order_id j" by (auto dest: find_SomeD)
  with Some j r show ?thesis
    using ClaimDue_eval [OF ok, of e] 
    by (intro disjI2 exI [of _ "claim_answer e g j"] exI [of _ "lock_job (env_now e) j g"] exI [of _ j] exI [of _ r])
      (auto simp: claim_answer_def lock_job_def)
qed

theorem claim_earliest_due_witness:
  "\<exists>job g' j. ClaimDue (at_time due) (db_paid, []) = (Inr (Some job), (g', [])) \<and> j \<in> set (sync_jobs db_paid) \<and>
     job_ID job = j_id j \<and> job_Attempts job = j_attempts j + 1"
  using claim_earliest_due [OF sample_ok(2), of "at_time due"] job_claimed by auto

text \<open>C23: a claimed job stays with its worker for two minutes: it becomes claimable again exactly then, so that a job whose
  worker died is taken over.\<close>

theorem claim_expires_after_two_minutes:
  assumes "db_ok g" and "ClaimDue e (g, fs) = (Inr (Some job), (g', fs'))"
  shows "eligible t g' (job_ID job) \<longleftrightarrow> env_now e + 120 * second \<le> t"
proof -
  from ClaimDue_claimed [OF assms(2)] have "runs claim_work e g (Some job) g'" by simp
  then obtain j where j: "claim_candidate (env_locked e) (env_now e) g = Some j" "job_ID job = j_id j"
    and g': "g' = g\<lparr>sync_jobs := update_where (\<lambda>k. j_id k = j_id j) (lock_row (env_now e)) (sync_jobs g)\<rparr>"
    by (cases rule: runs_claim_work) auto
  then have mem: "j \<in> set (sync_jobs g)" by (auto dest: claim_candidate_Some)
  have uniq: "unique_on j_id (sync_jobs g)" using assms(1) by (simp add: db_ok_def outbox_ok_def)
  from assms(1) mem have live: "order_not_cancelled g j" by (rule job_order_paid)
  have lock: "claimable t g' (lock_row (env_now e) j) \<longleftrightarrow> env_now e + 120 * second \<le> t"
    using live g' by (auto simp: claimable_def scheduled_def lock_row_def order_not_cancelled_def stale_after_def)
  have same: "k = j" if "k \<in> set (sync_jobs g)" "j_id k = j_id j" for k using uniq mem that by (auto simp: unique_on_def distinct_map dest: inj_onD)
  show ?thesis
  proof
    assume "eligible t g' (job_ID job)"
    then show "env_now e + 120 * second \<le> t" unfolding eligible_def j(2) using same lock by (auto simp: g' set_update_where)
  next
    assume "env_now e + 120 * second \<le> t"
    moreover have "lock_row (env_now e) j \<in> set (sync_jobs g')" using mem by (simp add: g' update_where_mem)
    ultimately show "eligible t g' (job_ID job)" unfolding eligible_def j(2) using lock by (intro bexI [of _ "lock_row (env_now e) j"]) auto
  qed
qed

theorem claim_expires_after_two_minutes_witness:
  "\<not> eligible (due + 119 * second) db_claimed (job_ID sample_job) \<and> eligible (due + 120 * second) db_claimed (job_ID sample_job)"
  using claim_expires_after_two_minutes [OF sample_ok(2) job_claimed] by (simp add: at_time_def second_def)

text \<open>C24: two workers that claim at the same moment do not get in each other's way. A claim that runs while another is not yet
  committed passes over the row that one has locked; it gets a different job or none, precisely what it would have got after the
  other had committed, and the rows end up the same.\<close>

theorem overlapping_claims_serialize:
  assumes ok: "db_ok g" and first: "ClaimDue e (g, []) = (Inr (Some a), (g1, []))"
    and second: "ClaimDue (e'\<lparr>env_locked := job_ID a # env_locked e'\<rparr>) (g, []) = (Inr b, (g2, []))"
    and now: "env_now e' < env_now e + 120 * second"
  shows "\<exists>g'. ClaimDue e' (g1, []) = (Inr b, (g', [])) \<and>
    g' = g2\<lparr>sync_jobs := update_where (\<lambda>j. j_id j = job_ID a) (lock_row (env_now e)) (sync_jobs g2)\<rparr> \<and>
    (\<forall>x. b = Some x \<longrightarrow> job_ID x \<noteq> job_ID a)"
proof -
  let ?L = "e'\<lparr>env_locked := job_ID a # env_locked e'\<rparr>"
  from first ClaimDue_eval [OF ok, of e] obtain j where j: "claim_candidate (env_locked e) (env_now e) g = Some j"
    and a: "a = claim_answer e g j" and g1: "g1 = lock_job (env_now e) j g" by (auto split: option.splits)
  have "j \<in> set (sync_jobs g)" using j by (auto dest: claim_candidate_Some)
  with ok obtain r where "List.find (\<lambda>r. o_id r = j_order_id j) (orders g) = Some r" by (rule job_order_paid)
  then have id: "job_ID a = j_id j" by (simp add: a claim_answer_def)
  have cand: "claim_candidate (env_locked e') (env_now e') g1 = claim_candidate (env_locked ?L) (env_now ?L) g"
    using candidate_beside_lock [of "env_now e'" "env_now e" "env_locked e'" j g] now by (simp add: g1 id stale_after_def)
  have ok1: "db_ok g1" using ok by (simp add: g1 lock_job_ok)
  show ?thesis
  proof (cases "claim_candidate (env_locked ?L) (env_now ?L) g")
    case None
    then have "b = None" "g2 = g" using second ClaimDue_eval [OF ok, of ?L] by auto
    moreover have "ClaimDue e' (g1, []) = (Inr None, (g1, []))" using ClaimDue_eval [OF ok1, of e'] cand None by simp
    ultimately show ?thesis by (auto simp: g1 lock_job_def id)
  next
    case (Some k)
    then have k: "k \<in> set (sync_jobs g)" "j_id k \<noteq> j_id j" using claim_candidate_Some [OF Some] id by auto
    have b: "b = Some (claim_answer e' g k)" "g2 = lock_job (env_now e') k g"
      using second ClaimDue_eval [OF ok, of ?L] Some by (auto simp: claim_answer_def cong: option.case_cong)
    have "ClaimDue e' (g1, []) = (Inr b, (lock_job (env_now e') k g1, []))"
      using ClaimDue_eval [OF ok1, of e'] cand Some by (simp add: b(1) g1 claim_answer_beside_lock)
    moreover have "lock_job (env_now e') k g1 = lock_job (env_now e) j g2"
      using k(2) by (simp add: g1 b(2) lock_job_commute)
    moreover from ok k(1) obtain q where "List.find (\<lambda>r. o_id r = j_order_id k) (orders g) = Some q" by (rule job_order_paid)
    then have "job_ID (claim_answer e' g k) = j_id k" by (simp add: claim_answer_def)
    ultimately show ?thesis using k(2) by (auto simp: b(1) id lock_job_def)
  qed
qed

theorem overlapping_claims_serialize_witness:
  "\<exists>g'. ClaimDue (at_time due) (db_claimed, []) = (Inr None, (g', []))"
proof -
  have "ClaimDue ((at_time due)\<lparr>env_locked := job_ID sample_job # env_locked (at_time due)\<rparr>) (db_paid, []) = (Inr None, (db_paid, []))" by code_simp
  moreover have "env_now (at_time due) < env_now (at_time due) + 120 * second" by (simp add: second_def)
  ultimately show ?thesis using overlapping_claims_serialize [OF sample_ok(2) job_claimed] by blast
qed


text \<open>The time at which the worker wakes up next is right: it has come exactly when some job can be claimed.\<close>

theorem wake_up_exact:
  "\<exists>wake. SyncJobRepository_NextWake e (g, []) = (Inr wake, (g, [])) \<and>
     (\<forall>now. (\<exists>j. j \<in> set (sync_jobs g) \<and> claimable now g j) = (\<exists>t. wake = Some t \<and> t \<le> now))"
proof -
  obtain wake where wake: "NextWake (env_now e) g = Inr (wake, g)" by (auto simp: NextWake_def select_def)
  then have "SyncJobRepository_NextWake e (g, []) = (Inr wake, (g, []))"
    by (simp add: SyncJobRepository_NextWake_def wrapf_def statement_eval)
  then show ?thesis using NextWake_due [OF wake] by (auto simp: Bex_def)
qed

section \<open>Deliveries\<close>

text \<open>A delivery asks SAP exactly for a job that is not dead, whose recovery window is open and that has attempts left, and
  it then sends the order of the job under its order id as idempotency key.\<close>

theorem sap_called_iff:
  "CallSAP key order \<in> set (fst (deliver w cfg job e s)) \<longleftrightarrow>
     job_Status job \<noteq> SyncStatusDead \<and> \<not> recoveryWindowExpired cfg job (w_now w) \<and>
     job_Attempts job \<le> maxTotalAttempts cfg \<and> key = od_OrderID (job_Details job) \<and> order = job_Details job"
  by (metis deliver_calls surjective_pairing)

text \<open>C25: when SAP accepts an order, its job becomes SYNCED with the identifier SAP gave, is unlocked, and the order carries the
  identifier.\<close>

theorem delivery_success:
  assumes "j \<in> set (sync_jobs g)" and "job_ID job = j_id j" and "order_exists g (j_order_id j)" and "dispatched cfg job (w_now w)"
    and "w_sap w (od_OrderID (job_Details job)) (job_Details job) = Inr sap"
  shows "\<exists>g' j' r. snd (deliver w cfg job e (g, [])) = (g', []) \<and>
    j' \<in> set (sync_jobs g') \<and> j_id j' = j_id j \<and> j_status j' = SyncStatusSynced \<and> j_sap_internal_id j' = Some sap \<and>
    j_synced_at j' = Some (env_now e) \<and> j_locked_at j' = None \<and> j_last_error j' = None \<and>
    r \<in> set (orders g') \<and> o_id r = j_order_id j \<and> o_sap_id r = Some sap"
proof -
  let ?row = "synced_row sap (env_now e) j" and ?f = "\<lambda>r. r\<lparr>o_sap_id := Some sap, o_updated_at := env_now e\<rparr>"
  from assms(3) obtain r where r: "r \<in> set (orders g)" "o_id r = j_order_id j" by (auto simp: order_exists_def)
  obtain g' where g': "snd (deliver w cfg job e (g, [])) = (g', [])"
      "sync_jobs g' = update_where (\<lambda>j. j_id j = job_ID job) (synced_row sap (env_now e)) (sync_jobs g)"
      "orders g' = update_where (\<lambda>r. \<exists>j \<in> set (sync_jobs g). j_id j = job_ID job \<and> j_order_id j = o_id r) ?f (orders g)"
    using deliver_success_eval [OF assms(4,5), of e g] by simp
  have mem: "?row \<in> set (sync_jobs g')" "?f r \<in> set (orders g')"
    using assms(1,2) r unfolding g' by (auto intro!: update_where_mem)
  have "j_synced_at ?row = Some (env_now e)" "j_last_error ?row = None" "j_sap_internal_id ?row = Some sap" by (simp_all add: synced_row_def)
  with g'(1) mem r(2) show ?thesis
    by (intro exI [of _ g'] exI [of _ ?row] exI [of _ "?f r"]) simp
qed

theorem delivery_success_witness:
  "\<exists>g' j'. snd (deliver (sample_world (Inr ''sap-1'') due) sample_config sample_job (at_time due) (db_claimed, [])) = (g', []) \<and>
     j' \<in> set (sync_jobs g') \<and> j_status j' = SyncStatusSynced \<and> j_sap_internal_id j' = Some ''sap-1''"
proof -
  let ?j = "hd (sync_jobs db_claimed)" and ?w = "sample_world (Inr ''sap-1'') due"
  have hyps: "?j \<in> set (sync_jobs db_claimed)" "job_ID sample_job = j_id ?j" "order_exists db_claimed (j_order_id ?j)"
    "dispatched sample_config sample_job (w_now ?w)"
    by (code_simp, code_simp, code_simp, code_simp)
  have "w_sap ?w (od_OrderID (job_Details sample_job)) (job_Details sample_job) = Inr ''sap-1''" by (simp add: sample_world_def)
  from delivery_success [OF hyps this, of "at_time due"] show ?thesis by blast
qed

text \<open>C26: when SAP does not accept an order, its job is unlocked and becomes DEAD if the error is permanent or the attempts are used
  up, WAITING after the attempts before waiting, and PENDING before that. A job that stays alive is due again within a
  minute, and a waiting job keeps the time at which it began to wait.\<close>

theorem delivery_failure:
  assumes "j \<in> set (sync_jobs g)" and "job_ID job = j_id j" and "dispatched cfg job (w_now w)"
    and "w_sap w (od_OrderID (job_Details job)) (job_Details job) = Inl err"
    and rand: "\<And>n. 0 < n \<Longrightarrow> 0 \<le> w_int63n w n \<and> w_int63n w n < n"
  shows "\<exists>g' j'. snd (deliver w cfg job e (g, [])) = (g', []) \<and> j' \<in> set (sync_jobs g') \<and> j_id j' = j_id j \<and>
    j_locked_at j' = None \<and> j_last_error j' = Some (w_error_text w err) \<and> j_attempts j' = j_attempts j \<and>
    j_status j' = (if \<not> isRetryable err \<or> maxTotalAttempts cfg \<le> job_Attempts job then SyncStatusDead
      else if maxAttempts cfg \<le> job_Attempts job then SyncStatusWaiting else SyncStatusPending) \<and>
    timestamptz (w_now w) \<le> j_due_at j' \<and> j_due_at j' \<le> w_now w + 60 * second \<and>
    j_waiting_since j' = (if j_status j' = SyncStatusWaiting
      then (case j_waiting_since j of None \<Rightarrow> Some (env_now e) | Some t \<Rightarrow> Some t) else None)"
proof -
  obtain st d where fail: "failureState cfg (w_int63n w) job (w_now w) (isRetryable err) err = (st, d)" by (metis surj_pair)
  let ?row = "failed_row st d (w_error_text w err) (env_now e) j"
  have "0 \<le> retryDelay (w_int63n w) err (job_Attempts job) \<and> retryDelay (w_int63n w) err (job_Attempts job) \<le> maxRetryDelay"
    by (rule retryDelay_range [OF rand])
  with fail have d: "w_now w \<le> d" "d \<le> w_now w + 60 * second"
    by (auto simp: failureState_def maxRetryDelay_def second_def split: if_splits)
  have due: "timestamptz (w_now w) \<le> timestamptz d" "timestamptz d \<le> w_now w + 60 * second"
    using timestamptz_mono [OF d(1)] timestamptz_le [of d] d(2) by auto
  have st: "st = (if \<not> isRetryable err \<or> maxTotalAttempts cfg \<le> job_Attempts job then SyncStatusDead
      else if maxAttempts cfg \<le> job_Attempts job then SyncStatusWaiting else SyncStatusPending)"
    using fail by (auto simp: failureState_def split: if_splits)
  obtain g' where g': "snd (deliver w cfg job e (g, [])) = (g', [])"
      "sync_jobs g' = update_where (\<lambda>j. j_id j = job_ID job) (failed_row st d (w_error_text w err) (env_now e)) (sync_jobs g)"
    using deliver_failure_eval [OF assms(3,4) fail, of e g] by simp
  have mem: "?row \<in> set (sync_jobs g')" using assms(1,2) unfolding g' by (intro update_where_mem) auto
  have "j_waiting_since ?row = (if st = SyncStatusWaiting
      then (case j_waiting_since j of None \<Rightarrow> Some (env_now e) | Some t \<Rightarrow> Some t) else None)"
    by (auto simp: failed_row_def split: option.split)
  with g'(1) mem due st show ?thesis by (intro exI [of _ g'] exI [of _ ?row]) simp
qed

theorem delivery_failure_witness:
  "\<exists>g' j'. snd (deliver (sample_world (Inl (wrapError (Errorf ''SAP returned HTTP %d'' [ArgD 503]) True)) due) sample_config sample_job
       (at_time due) (db_claimed, [])) = (g', []) \<and>
     j' \<in> set (sync_jobs g') \<and> j_status j' = SyncStatusPending \<and> j_due_at j' \<le> due + 60 * second"
proof -
  let ?err = "wrapError (Errorf ''SAP returned HTTP %d'' [ArgD 503]) True"
  let ?j = "hd (sync_jobs db_claimed)" and ?w = "sample_world (Inl ?err) due"
  have hyps: "?j \<in> set (sync_jobs db_claimed)" "job_ID sample_job = j_id ?j" "dispatched sample_config sample_job (w_now ?w)"
    by (code_simp, code_simp, code_simp)
  have facts: "isRetryable ?err" "\<not> maxTotalAttempts sample_config \<le> job_Attempts sample_job"
    "\<not> maxAttempts sample_config \<le> job_Attempts sample_job"
    by (code_simp, code_simp, code_simp)
  have sap: "w_sap ?w (od_OrderID (job_Details sample_job)) (job_Details sample_job) = Inl ?err" by (simp add: sample_world_def)
  have now: "w_now ?w = due" by (simp add: sample_world_def)
  have rand: "0 \<le> w_int63n ?w n \<and> w_int63n ?w n < n" if "0 < n" for n using that by (simp add: sample_world_def)
  from delivery_failure [OF hyps sap rand, of "at_time due"] facts show ?thesis unfolding now by auto
qed

section \<open>Delays\<close>

text \<open>The base delay before attempt n+1 is a second doubled n-1 times, a minute at most.\<close>

theorem retry_delay_doubles:
  "RetryDelayMS attempt = min 60000 (1000 * 2 ^ nat (attempt - 1))"
  by (simp add: RetryDelayMS_def retry_loop_closed)

text \<open>C37: the delay before a retry is a random part of the base delay, or the delay of a Retry-After header, and in both cases
  a minute at most and never negative.\<close>

theorem retry_delay_bounds:
  assumes "\<And>n. 0 < n \<Longrightarrow> 0 \<le> int63n n \<and> int63n n < n"
  shows "0 \<le> retryDelay int63n err attempt \<and> retryDelay int63n err attempt \<le> 60 * second \<and>
    (case classification err of
       Some (r, d, True) \<Rightarrow> 0 \<le> d \<longrightarrow> retryDelay int63n err attempt = min d (60 * second)
     | _ \<Rightarrow> retryDelay int63n err attempt \<le> RetryDelayMS attempt * millisecond)"
proof -
  let ?b = "RetryDelayMS attempt * millisecond"
  have b: "0 < ?b" "?b \<le> 60 * second" "int64 ?b = ?b"
    using RetryDelayMS_range [of attempt] by (auto simp: millisecond_def second_def intro!: int64_id)
  have "0 \<le> jitteredDelay int63n ?b \<and> jitteredDelay int63n ?b \<le> ?b"
    using assms [of "?b + 1"] b by (auto simp: jitteredDelay_def)
  with b retryDelay_range [OF assms, of err attempt] show ?thesis
    by (auto simp: retryDelay_def Let_def maxRetryDelay_def split: option.splits prod.splits bool.splits)
qed

theorem retry_delay_bounds_witness:
  "retryDelay (\<lambda>n. n - 1) (RequestError (Errorf ''SAP returned HTTP %d'' [ArgD 429]) True (90 * second) True) 1 = 60 * second"
  using retry_delay_bounds [of "\<lambda>n. n - 1" "RequestError (Errorf ''SAP returned HTTP %d'' [ArgD 429]) True (90 * second) True" 1]
  by (simp add: second_def)

text \<open>A configured recovery window of up to 9223372036 seconds is what the worker applies: a waiting job expires exactly
  when it has waited that long.\<close>

theorem recovery_window_exact:
  assumes "0 < SAPRecoveryWindowSeconds cfg" and "SAPRecoveryWindowSeconds cfg \<le> 9223372036"
  shows "recoveryWindowExpired cfg job now \<longleftrightarrow>
    (\<exists>since. job_WaitingSince job = Some since \<and> SAPRecoveryWindowSeconds cfg * second \<le> now - since)"
proof -
  have "recoveryWindow cfg = SAPRecoveryWindowSeconds cfg * second"
    using assms by (simp add: recoveryWindow_def Let_def second_def int64_id)
  then show ?thesis by (auto simp: recoveryWindowExpired_def split: option.split)
qed

theorem recovery_window_exact_witness:
  "recoveryWindowExpired sample_config (sample_job\<lparr>job_WaitingSince := Some 0\<rparr>) (900 * second)"
  using recovery_window_exact [of sample_config "sample_job\<lparr>job_WaitingSince := Some 0\<rparr>" "900 * second"]
  by (simp add: sample_config_def)

text \<open>A second more and the window wraps around to a negative duration: every waiting job is declared dead at its next claim.\<close>

theorem recovery_window_overflow:
  "recoveryWindow (sample_config\<lparr>SAPRecoveryWindowSeconds := 9223372037\<rparr>) < 0"
  by code_simp

text \<open>Whatever the listener does, the delay before it reconnects stays positive and does not exceed the configured maximum
  or a quarter of a second, whichever is longer.\<close>

theorem reconnect_delay_bounded:
  assumes "(\<lambda>l l'. \<exists>w now wake ev drains. loop_select w cfg ev (loop_arm w now wake l) = Some (l', drains))\<^sup>*\<^sup>* l l'"
    and "lp_reconnectDelay l = listenerReconnectMinDelay" and "0 < SAPListenerReconnectMaxMS cfg" and "SAPListenerReconnectMaxMS cfg \<le> 4611686018427"
  shows "0 < lp_reconnectDelay l' \<and> lp_reconnectDelay l' \<le> max (250 * millisecond) (SAPListenerReconnectMaxMS cfg * millisecond)"
proof -
  have max: "listenerReconnectMaxDelay cfg = SAPListenerReconnectMaxMS cfg * millisecond"
    using assms(3,4) by (simp add: listenerReconnectMaxDelay_def Let_def millisecond_def int64_id)
  then have range: "0 < listenerReconnectMaxDelay cfg" "listenerReconnectMaxDelay cfg < 2 ^ 62"
    using assms(3,4) by (simp_all add: millisecond_def)
  from assms(1) have "reconnect_ok cfg l'"
  proof (induction rule: rtranclp_induct)
    case base
    show ?case using assms(2) by (simp add: reconnect_ok_def listenerReconnectMinDelay_def millisecond_def)
  next
    case (step l1 l2)
    then obtain w now wake ev drains where "loop_select w cfg ev (loop_arm w now wake l1) = Some (l2, drains)" by blast
    moreover have "reconnect_ok cfg (loop_arm w now wake l1)"
      using step.IH by (simp add: reconnect_ok_def loop_arm_def split: sum.split)
    ultimately show ?case using loop_select_reconnect range by blast
  qed
  then show ?thesis by (simp add: reconnect_ok_def max listenerReconnectMinDelay_def)
qed

theorem reconnect_delay_bounded_witness:
  "0 < (1000 * millisecond :: int) \<and>
   (\<lambda>l l'. \<exists>w now wake ev drains. loop_select w sample_config ev (loop_arm w now wake l) = Some (l', drains))\<^sup>*\<^sup>*
     \<lparr>lp_listening = False, lp_reconnectDelay = 250 * millisecond, lp_timer = None, lp_log = []\<rparr>
     \<lparr>lp_listening = False, lp_reconnectDelay = 500 * millisecond, lp_timer = Some (250 * millisecond),
       lp_log = [coded_record LevelError ''0010'' ''SAP worker listener reconnect failed'' [(''error'', LogString ''SAP returned HTTP 503'')]]\<rparr> \<and>
   500 * millisecond \<le> max (250 * millisecond) (1000 * millisecond)"
proof -
  let ?R = "\<lambda>l l'. \<exists>w now wake ev drains. loop_select w sample_config ev (loop_arm w now wake l) = Some (l', drains)"
  let ?l = "\<lparr>lp_listening = False, lp_reconnectDelay = 250 * millisecond, lp_timer = None, lp_log = []\<rparr>"
  let ?l' = "\<lparr>lp_listening = False, lp_reconnectDelay = 500 * millisecond, lp_timer = Some (250 * millisecond),
    lp_log = [coded_record LevelError ''0010'' ''SAP worker listener reconnect failed'' [(''error'', LogString ''SAP returned HTTP 503'')]]\<rparr>"
  have "loop_select (sample_world (Inr []) 0) sample_config (TimerFired (Some (Errorf ''refused'' []))) (loop_arm (sample_world (Inr []) 0) 0 (Inr None) ?l) =
      Some (?l', False)" by code_simp
  then have "?R\<^sup>*\<^sup>* ?l ?l'" by (intro r_into_rtranclp exI)
  with reconnect_delay_bounded [of sample_config ?l ?l'] show ?thesis
    by (simp add: sample_config_def listenerReconnectMinDelay_def millisecond_def)
qed

section \<open>The SAP client\<close>

text \<open>C30: at most one request per idempotency key is on its way to SAP, and a caller that waits for the request of another is never
  forgotten: that request is still being sent, or its result is there.\<close>

theorem sap_single_flight:
  assumes "sap_initial s0" and "(sap_step marshal)\<^sup>*\<^sup>* s0 s"
  shows "(sy_callers s t = Posting key a \<and> sy_callers s u = Posting key b \<longrightarrow> t = u \<and> a = b) \<and>
    (sy_callers s t = Waiting key a \<longrightarrow> call_done (cl_calls (sy_client s) ! a) \<or> (\<exists>u. sy_callers s u = Posting key a))"
proof -
  have inv: "sap_inv s" using assms by (rule sap.reachable_inv)
  show ?thesis
    using sap_invD(1) [OF inv, of t key a] sap_invD(1) [OF inv, of u key b] sap_invD(3) [OF inv, of t key a u b]
      sap_invD(5) [OF inv, of t key a] sap_invD(2) [OF inv, of key a] by auto
qed

theorem sap_single_flight_witness:
  "sy_callers flight 1 = Waiting ''k'' 0 \<and>
   (call_done (cl_calls (sy_client flight) ! 0) \<or> (\<exists>u. sy_callers flight u = Posting ''k'' 0))"
  using sap_single_flight [OF _ flight_run, of 1 "''k''" 0 1 0] by (simp add: sap_initial_def flight_def)

text \<open>C31: concurrent callers with the same key share one request. When a caller that waited for the request of another returns
  without its own context having ended, the caller that sent the request has returned, with the same result; and any other caller
  that waited for that request and returns without its context having ended returns that result too, at whatever time.\<close>

theorem sap_result_shared:
  assumes "sap_initial s0" and "(sap_step marshal)\<^sup>*\<^sup>* s0 s" and waits: "sy_callers s t = Waiting key a"
    and run: "(sap_step marshal)\<^sup>*\<^sup>* s s'" and res: "sy_callers s' t = Returned r"
  shows "(sy_callers s u = Posting key a \<longrightarrow> sy_callers s' u = Returned r) \<and>
    (\<forall>r'. sy_callers s u = Waiting key a \<and> sy_callers s' u = Returned r' \<longrightarrow> r' = r)"
proof -
  have inv: "sap_inv s" using assms(1,2) by (rule sap.reachable_inv)
  have "shares True a s t" using waits by (simp add: shares_def)
  from shares_run [OF run inv this] res have r: "call_done (cl_calls (sy_client s') ! a)" "r = call_result (cl_calls (sy_client s') ! a)"
    and inv': "sap_inv s'" by (auto simp: shares_def)
  have posting: "sy_callers s' u \<noteq> Posting key' a" for key' using r(1) sap_invD(1,2) [OF inv'] by blast
  have "sy_callers s' u = Returned r" if "sy_callers s u = Posting key a"
  proof -
    have "shares False a s u" using that by (simp add: shares_def)
    with shares_run [OF run inv this] posting r(2) show ?thesis by (auto simp: shares_def)
  qed
  moreover have "r' = r" if "sy_callers s u = Waiting key a" "sy_callers s' u = Returned r'" for r'
    using shares_run [OF run inv, of True a u] that r(2) by (auto simp: shares_def)
  ultimately show ?thesis by blast
qed

theorem sap_result_shared_witness:
  "sy_callers landed 1 = Returned (Inr ''sap-1'') \<and> sy_callers landed 0 = Returned (Inr ''sap-1'')"
proof -
  have "sy_callers flight 1 = Waiting ''k'' 0" "sy_callers flight 0 = Posting ''k'' 0" "sy_callers landed 1 = Returned (Inr ''sap-1'')"
    by (simp_all add: flight_def landed_def)
  with sap_result_shared [OF _ flight_run this(1) landed_run this(3), of 0] show ?thesis by (simp add: sap_initial_def)
qed

text \<open>An answer of SAP counts as accepted exactly when its status is 2xx and the first mebibyte of its body decodes to status
  success with an identifier, which is then the result.\<close>

theorem sap_response_exact:
  "parseResponse parse_http_time unmarshal now response order = Inr sapID \<longleftrightarrow>
     200 \<le> StatusCode response \<and> StatusCode response < 300 \<and> sapID \<noteq> [] \<and>
     (\<exists>bytes. ResponseBody response = Inr bytes \<and> unmarshal (take (2 ^ 20) bytes) = Inr (''success'', sapID))"
  by (auto simp: parseResponse_def Let_def max_response_def split: if_splits sum.splits prod.splits)

text \<open>C32: an attempt that failed is retried exactly in two cases. Either SAP answered 429, 500, 502, 503 or 504. Or the request or
  the reading of a 2xx answer broke off with a transport error that can pass: a deadline, or, if the context was not cancelled, an
  unexpected end of input, a failed network operation, a failed name lookup or a timeout. A request that could not be built and an
  answer that is malformed are not retried.\<close>

theorem sap_retry_classification:
  assumes "postOrder parse_http_time unmarshal now outcome order = Inl err"
  shows "isRetryable err \<longleftrightarrow>
    (\<exists>response. outcome = Responded response \<and> StatusCode response \<in> {429, 500, 502, 503, 504}) \<or>
    (\<exists>terr. (outcome = SendFailed terr \<or>
        (\<exists>response. outcome = Responded response \<and> 200 \<le> StatusCode response \<and> StatusCode response < 300 \<and>
          ResponseBody response = Inl terr)) \<and>
      (is_deadline_exceeded terr \<or>
       \<not> is_canceled terr \<and>
         (is_unexpected_eof terr \<or> is_op_error terr \<or> is_dns_error terr \<or> is_net_error terr \<and> net_timeout terr)))"
  using assms
  by (auto simp: postOrder_def parseResponse_def isRetryable_def wrapError_def wrapErrorWithRetryAfter_def retryableStatus_def
      retryableTransportError_def Let_def split: http_outcome.splits if_splits sum.splits prod.splits)

theorem sap_retry_classification_witness:
  "isRetryable (wrapError (Errorf ''SAP returned HTTP %d'' [ArgD 503]) True) \<and>
   isRetryable (wrapError (Wrapf ''send SAP request for order %q: %w'' [ArgS (od_OrderID (job_Details sample_job))] (Transport dns_failure))
     (retryableTransportError dns_failure))"
proof -
  let ?r = "\<lparr>StatusCode = 503, RetryAfterHeader = [], ResponseBody = Inr []\<rparr>"
  have "postOrder (\<lambda>_. None) (\<lambda>_. Inr ([], [])) 0 (Responded ?r) (job_Details sample_job) =
      Inl (wrapError (Errorf ''SAP returned HTTP %d'' [ArgD 503]) True)"
    by (simp add: postOrder_def parseResponse_def retryableStatus_def)
  from sap_retry_classification [OF this] have "isRetryable (wrapError (Errorf ''SAP returned HTTP %d'' [ArgD 503]) True)" by simp
  moreover have "postOrder (\<lambda>_. None) (\<lambda>_. Inr ([], [])) 0 (SendFailed dns_failure) (job_Details sample_job) =
      Inl (wrapError (Wrapf ''send SAP request for order %q: %w'' [ArgS (od_OrderID (job_Details sample_job))] (Transport dns_failure))
        (retryableTransportError dns_failure))"
    by (simp add: postOrder_def)
  from sap_retry_classification [OF this] have "isRetryable (wrapError (Wrapf ''send SAP request for order %q: %w''
      [ArgS (od_OrderID (job_Details sample_job))] (Transport dns_failure)) (retryableTransportError dns_failure))"
    by (simp add: dns_failure_def)
  ultimately show ?thesis ..
qed

section \<open>The loop and the notifications\<close>

text \<open>C21: the worker does not sleep through due work. Whenever its loop is blocked with a live listening connection and some job can be
  claimed, whatever the system did before, it can go on to drain: at once, or after the notification that is on its way has arrived,
  without any time passing, if the query for the next wake-up succeeded before the loop blocked; if that query failed, the
  timer that was armed instead fires within a quarter of a second.\<close>

theorem due_work_drained_at_once:
  assumes "wt_initial w0" and "(wt_step lib cfg)\<^sup>*\<^sup>* w0 w" and sel: "wt_phase w = Selecting r"
    and l: "wt_listener w = Some l" "\<not> ls_closed l"
    and due: "j \<in> set (sync_jobs (sys_db (wt_sys w)))" "claimable (sys_now (wt_sys w)) (sys_db (wt_sys w)) j"
  shows "\<exists>d w' w''. (w' = w \<or> wt_step lib cfg w w') \<and> wt_step lib cfg w' w'' \<and> wt_phase w'' = Draining \<and>
    wt_sys w'' = (wt_sys w)\<lparr>sys_now := sys_now (wt_sys w) + d\<rparr> \<and> 0 \<le> d \<and>
    (case r of Inr _ \<Rightarrow> d = 0 | Inl _ \<Rightarrow> d \<le> 250 * millisecond)"
proof (cases r)
  case (Inl err)
  with failed_reconciliation_drained [OF watch.reachable_inv [OF assms(1,2)] _ l, of err lib cfg] sel
  obtain d w' where "0 \<le> d" "d \<le> listenerReconnectMinDelay" "wt_step lib cfg w (wt_wait d w)" "wt_step lib cfg (wt_wait d w) w'"
    "wt_phase w' = Draining" "wt_sys w' = wt_sys (wt_wait d w)" by auto
  with Inl show ?thesis
    by (intro exI [of _ d] exI [of _ "wt_wait d w"] exI [of _ w']) (simp add: listenerReconnectMinDelay_def)
next
  case (Inr wake)
  with due_work_drained [OF watch.reachable_inv [OF assms(1,2)] _ l due, of wake lib cfg] sel
  obtain w' w'' where "w' = w \<or> wt_step lib cfg w w'" "wt_step lib cfg w' w''" "wt_phase w'' = Draining" "wt_sys w'' = wt_sys w" by auto
  with Inr show ?thesis by (intro exI [of _ "0 :: int"] exI [of _ w'] exI [of _ w'']) simp
qed

theorem due_work_drained_at_once_witness:
  "\<exists>w' w''. (w' = asleep due \<or> wt_step sample_lib sample_config (asleep due) w') \<and> wt_step sample_lib sample_config w' w'' \<and>
     wt_phase w'' = Draining"
proof -
  have "wt_initial (loop_start (sample_world (Inr []) 2000) (Watch True None None) (sample_system db_paid 2000 []))"
    unfolding wt_initial_def using sample_ok(2)
    by (intro exI [of _ "sample_world (Inr []) 2000"] exI [of _ True] exI [of _ None] exI [of _ "sample_system db_paid 2000 []"]) (simp add: sample_system_def)
  moreover have "claimable due db_paid (hd (sync_jobs db_paid))" "hd (sync_jobs db_paid) \<in> set (sync_jobs db_paid)"
    by (code_simp, code_simp)
  ultimately show ?thesis
    using due_work_drained_at_once [OF _ asleep_reached, of "Inr (Some due)" idle_listener "hd (sync_jobs db_paid)"]
    by (auto simp: asleep_def sample_system_def idle_listener_def)
qed

section \<open>Expired claims\<close>

text \<open>A claim that has expired is not taken back: the worker that held it can still write its result. When the second
  claimant has synchronized the order meanwhile, the first one's late failure makes the job PENDING again.\<close>

theorem expired_claim_overwrites:
  "map j_status (sync_jobs db_synced) = [SyncStatusSynced]"
  "map j_status (sync_jobs (fst (snd (deliver late_failure sample_config sample_job (at_time (due + 122 * second)) (db_synced, []))))) =
     [SyncStatusPending]"
  by (code_simp, code_simp)

end
