(* ===== verification/Boundary_Properties.thy ===== *)
theory Boundary_Properties
  imports Dispatch Samples
begin

text \<open>The properties of the HTTP boundary, the admin command and the configuration, each with a concrete instance.\<close>

section \<open>Webhook requests\<close>

text \<open>C27: the status of a webhook reply tells what became of the request, whatever faults the database shows: 400 and 401 mean that
  it was not touched, 409 that every table is as before, and 2xx that the payload in its body was valid, processed and committed, as
  the reply says. A shop order is answered 201 when it was stored by this request and 200 when it was there before; a payment event
  202 when it was recorded and waits for its order, and 200 otherwise.\<close>

theorem webhook_reply_truthful:
  assumes "NewRouter lib cfg r req e (g, fs) = (reply, (g', fs'))" and "r = ShopRoute \<or> r = PaymentRoute"
  shows "rp_status reply \<in> {200, 201, 202, 400, 401, 409, 500} \<and>
    (rp_status reply = 400 \<or> rp_status reply = 401 \<longrightarrow> g' = g) \<and> (rp_status reply = 409 \<longrightarrow> same_tables g' g) \<and>
    (rp_status reply < 400 \<longrightarrow> (\<exists>x. rp_body reply = ResultBody x \<and>
      ((\<exists>p. r = ShopRoute \<and> decode (lib_media lib) (lib_shop_decoder lib) req = Inr p \<and>
          ValidateShopWebhook (lib_address lib) (NormalizeShopWebhook p) = [] \<and>
          runs (processShop (NormalizeShopWebhook (NormalizeShopWebhook p)) cfg) e g x g' \<and>
          rp_status reply = (if wr_Duplicate x then 200 else 201) \<and>
          (db_ok g \<longrightarrow> (rp_status reply = 201 \<longleftrightarrow> find_order_row g (sw_OrderID (NormalizeShopWebhook (NormalizeShopWebhook p))) = None))) \<or>
       (\<exists>p. r = PaymentRoute \<and> decode (lib_media lib) (lib_payment_decoder lib) req = Inr p \<and>
          ValidatePaymentWebhook (lib_rfc3339 lib) (NormalizePaymentWebhook (lib_upper lib) p) = [] \<and>
          runs (processPayment (lib_upper lib) (lib_rfc3339 lib)
            (NormalizePaymentWebhook (lib_upper lib) (NormalizePaymentWebhook (lib_upper lib) p)) cfg) e g x g' \<and>
          rp_status reply = (if \<not> wr_Duplicate x \<and> wr_Message x = MessageAwaitingShopOrder then 202 else 200)))))"
proof (cases "WebhookSecret cfg \<noteq> [] \<and> rq_secret req \<noteq> WebhookSecret cfg")
  case True
  then have "rp_status reply = 401 \<and> g' = g" using assms by (auto simp: NewRouter_def webhookAuth_def JSON_def)
  then show ?thesis by simp
next
  case False
  from assms(2) show ?thesis
  proof
    assume r: "r = ShopRoute"
    then have "processWebhook (lib_logger lib) (rq_context req) ''0004'' (shop_Process cfg) NormalizeShopWebhook (ValidateShopWebhook (lib_address lib)) shop_status
        (decode (lib_media lib) (lib_shop_decoder lib) req) e (g, fs) = (reply, (g', fs'))"
      using assms(1) False by (auto simp: NewRouter_def webhookAuth_def shopWebhookHandler_def split: if_splits)
    then show ?thesis
    proof (cases rule: shop_endpoint.reply_meaning)
      case (committed p x)
      with r show ?thesis by (auto simp: shop_status_def shop_duplicate_iff intro!: exI [of _ p])
    qed simp_all
  next
    assume r: "r = PaymentRoute"
    then have "processWebhook (lib_logger lib) (rq_context req) ''0005'' (payment_Process (lib_upper lib) (lib_rfc3339 lib) cfg) (NormalizePaymentWebhook (lib_upper lib))
        (ValidatePaymentWebhook (lib_rfc3339 lib)) payment_reply_status
        (decode (lib_media lib) (lib_payment_decoder lib) req) e (g, fs) = (reply, (g', fs'))"
      using assms(1) False by (auto simp: NewRouter_def webhookAuth_def paymentWebhookHandler_def split: if_splits)
    then show ?thesis
    proof (cases rule: payment_endpoint.reply_meaning)
      case (committed p x)
      with r show ?thesis by (auto simp: payment_reply_status_def intro!: exI [of _ p])
    qed simp_all
  qed
qed

theorem webhook_reply_truthful_witness:
  "\<exists>x p. rp_body (fst (NewRouter sample_lib sample_config ShopRoute (sample_request []) (at_time 1000) (empty_pg, []))) = ResultBody x \<and>
     runs (processShop p sample_config) (at_time 1000) empty_pg x db_order \<and> \<not> wr_Duplicate x"
proof -
  have "rp_status (fst (NewRouter sample_lib sample_config ShopRoute (sample_request []) (at_time 1000) (empty_pg, []))) = 201" by code_simp
  with webhook_reply_truthful [OF shop_request] show ?thesis by (auto split: if_splits)
qed

text \<open>With a configured secret, a webhook request that does not carry it is answered 401 and reaches neither the services nor the
  database; one that carries it is handled as if no secret were configured.\<close>

theorem webhook_secret_enforced:
  assumes "WebhookSecret cfg \<noteq> []" and "r = ShopRoute \<or> r = PaymentRoute"
  shows "(rq_secret req \<noteq> WebhookSecret cfg \<longrightarrow>
      NewRouter lib cfg r req e s = (JSON 401 (ErrorBody (ErrorText ''Unauthorized'')), s)) \<and>
    (rq_secret req = WebhookSecret cfg \<longrightarrow> NewRouter lib cfg r req e s =
      (if r = ShopRoute then shopWebhookHandler lib cfg req e s else paymentWebhookHandler lib cfg req e s))"
  using assms by (auto simp: NewRouter_def webhookAuth_def)

theorem webhook_secret_enforced_witness:
  "NewRouter sample_lib sample_config PaymentRoute (sample_request []\<lparr>rq_secret := ''guess''\<rparr>) (at_time 1) (empty_pg, []) =
     (JSON 401 (ErrorBody (ErrorText ''Unauthorized'')), (empty_pg, []))"
  using webhook_secret_enforced [of sample_config PaymentRoute] by (simp add: sample_config_def sample_request_def)

section \<open>Order status\<close>

lemma payment_of_order_ref:
  assumes ok: "db_ok g" and r: "find_order_row g i = Some r"
  shows "payment_of_order g (o_id r) = find_payment_row g i"
proof -
  have mem: "r \<in> set (orders g)" "o_order_id r = i" using r by (auto dest!: find_order_row_Some)
  then have "p_order_id p = Some (o_id r) \<longleftrightarrow> p_reference_order_id p = i" if "p \<in> set (payments g)" for p
    using ok that by (auto simp: db_ok_def payments_ok_def)
  then show ?thesis unfolding payment_of_order_def find_payment_row_def by (intro find_cong) auto
qed

lemma paid_iff_job:
  assumes ok: "db_ok g" and r: "r \<in> set (orders g)"
  shows "o_payment_status r = OrderStatePaid \<longleftrightarrow> job_of_order g (o_id r) \<noteq> None"
proof
  assume "o_payment_status r = OrderStatePaid"
  then show "job_of_order g (o_id r) \<noteq> None" using ok r by (auto simp: db_ok_def outbox_ok_def job_of_order_def find_None_iff)
next
  assume "job_of_order g (o_id r) \<noteq> None"
  then obtain j where j: "j \<in> set (sync_jobs g)" "j_order_id j = o_id r" by (auto simp: job_of_order_def dest: find_SomeD)
  from ok j(1) obtain q t where "List.find (\<lambda>x. o_id x = j_order_id j) (orders g) = Some q" "o_payment_status q = OrderStatePaid"
    by (rule job_order_paid)
  moreover have "unique_on o_id (orders g)" using ok by (simp add: db_ok_def orders_wf_def)
  then have "List.find (\<lambda>x. o_id x = j_order_id j) (orders g) = Some r" using r j(2) by (metis find_unique)
  ultimately show "o_payment_status r = OrderStatePaid" by simp
qed

lemma job_status_named:
  assumes ok: "db_ok g" and j: "job_of_order g i = Some j"
  shows "j_status j \<noteq> ''NOT_SCHEDULED''"
proof -
  from j have "j \<in> set (sync_jobs g)" by (auto simp: job_of_order_def dest: find_SomeD)
  with ok have "job_row_ok j" by (auto simp: db_ok_def outbox_ok_def)
  then show ?thesis
    by (auto simp: job_row_ok_def SyncStatusPending_def SyncStatusProcessing_def SyncStatusSynced_def SyncStatusWaiting_def SyncStatusDead_def)
qed

text \<open>C33: the order status endpoint, without database faults, answers 500 exactly for an identifier that is not UTF-8 or has a zero
  byte, and 404 exactly for any other that is not stored. For a stored order it answers 200 with a consistent view: the payment status is that of the payment with this order id, and the order is PAID exactly when
  that is COMPLETED and exactly when a synchronization is scheduled.\<close>

theorem order_status_consistent:
  assumes ok: "db_ok g"
  shows "\<exists>reply. orderStatusHandler logger ctx i e (g, []) = (reply, (g, [])) \<and>
    (rp_status reply = 500 \<longleftrightarrow> \<not> text_ok i) \<and> (rp_status reply = 404 \<longleftrightarrow> text_ok i \<and> find_order_row g i = None) \<and>
    (text_ok i \<and> find_order_row g i \<noteq> None \<longrightarrow> rp_status reply = 200 \<and>
      (\<exists>st. rp_body reply = OrderBody st \<and> os_OrderID st = i \<and>
        os_PaymentStatus st = (case payment_status g i of None \<Rightarrow> ''NOT_RECEIVED'' | Some p \<Rightarrow> p) \<and>
        (os_Status st = OrderStatePaid \<longleftrightarrow> payment_status g i = Some PaymentStatusCompleted) \<and>
        (os_Status st = OrderStatePaid \<longleftrightarrow> os_SyncStatus st \<noteq> ''NOT_SCHEDULED'')))"
proof (cases "text_ok i")
  case False
  then show ?thesis
    by (simp add: orderStatusHandler_def GetOrderStatus_def OrderRepository_FindStatus_def FindStatus_def session_simps)
next
  case utf8: True
  have eval: "orderStatusHandler logger ctx i e (g, []) =
      (case find_order_row g i of None \<Rightarrow> JSON 404 (ErrorBody (ErrorText ''Order not found''))
        | Some r \<Rightarrow> JSON 200 (OrderBody (format_status e (status_of_order g r, o_paid_at r, map_option j_due_at (job_of_order g (o_id r))))), (g, []))"
    using utf8 by (simp add: orderStatusHandler_def GetOrderStatus_def OrderRepository_FindStatus_def FindStatus_def wrapf_def
        bind_op_def reader_def statement_eval split: option.split)
  show ?thesis
  proof (cases "find_order_row g i")
    case None
    with eval utf8 show ?thesis by (simp add: JSON_def)
  next
    case (Some r)
    then have r: "r \<in> set (orders g)" "o_order_id r = i" by (auto dest!: find_order_row_Some)
    have pay: "os_PaymentStatus (status_of_order g r) = (case payment_status g i of None \<Rightarrow> ''NOT_RECEIVED'' | Some p \<Rightarrow> p)"
      using payment_of_order_ref [OF ok Some] by (auto simp: status_of_order_def Let_def payment_status_def split: option.splits)
    have paid: "o_payment_status r = OrderStatePaid \<longleftrightarrow> payment_status g i = Some PaymentStatusCompleted"
      using ok r by (auto simp: db_ok_def reconciled_def order_state_for_def)
    note job = paid_iff_job [OF ok r(1)] and named = job_status_named [OF ok, of "o_id r"]
    have view: "os_OrderID (status_of_order g r) = i" "os_Status (status_of_order g r) = o_payment_status r"
      "os_SyncStatus (status_of_order g r) = (case job_of_order g (o_id r) of None \<Rightarrow> ''NOT_SCHEDULED'' | Some x \<Rightarrow> j_status x)"
      using r by (simp_all add: status_of_order_def Let_def)
    show ?thesis
      using eval utf8 Some pay paid job named view by (auto simp: JSON_def format_status_def split: option.splits)
  qed
qed

theorem order_status_consistent_witness:
  "\<exists>reply st. orderStatusHandler True None ''o1'' (at_time 9) (db_paid, []) = (reply, (db_paid, [])) \<and> rp_status reply = 200 \<and>
     rp_body reply = OrderBody st \<and> os_Status st = OrderStatePaid \<and> os_SyncStatus st \<noteq> ''NOT_SCHEDULED''"
proof -
  have "find_order_row db_paid ''o1'' \<noteq> None" "payment_status db_paid ''o1'' = Some PaymentStatusCompleted" "text_ok ''o1''"
    by (code_simp, code_simp, code_simp)
  with order_status_consistent [OF sample_ok(2), where logger = True and ctx = None and i = "''o1''" and e = "at_time 9"] show ?thesis by auto
qed

section \<open>The admin command\<close>

lemma replayDeadJob_exact:
  assumes ok: "db_ok g"
  obtains (replayed) g' where "\<exists>j \<in> set (sync_jobs g). j_id j = i \<and> j_status j = SyncStatusDead"
      "replayDeadJob i e (g, []) = (Inr (), (g', []))" "db_ok g'" "eligible (env_now e) g' i" "job_attempts g' i = 0"
      "g' = g\<lparr>sync_jobs := update_where (dead_job i) (replayed_row (env_now e)) (sync_jobs g)\<rparr>"
    | (refused) "\<not> (\<exists>j \<in> set (sync_jobs g). j_id j = i \<and> j_status j = SyncStatusDead)"
      "replayDeadJob i e (g, []) = (Inl (Errorf ''sync job %d does not exist or is not DEAD'' [ArgD i]), (g, []))"
proof -
  let ?g' = "g\<lparr>sync_jobs := update_where (dead_job i) (replayed_row (env_now e)) (sync_jobs g)\<rparr>"
  have uniq: "unique_on j_id (sync_jobs g)" using ok by (simp add: db_ok_def outbox_ok_def)
  have count: "length (filter (dead_job i) (sync_jobs g)) =
      (if \<exists>j \<in> set (sync_jobs g). j_id j = i \<and> j_status j = SyncStatusDead then 1 else 0)"
    using filter_unique_one [OF uniq, of i "\<lambda>j. j_status j = SyncStatusDead"] by (simp add: dead_job_def [abs_def])
  have eval: "replayDeadJob i e (g, []) =
      (if length (filter (dead_job i) (sync_jobs g)) \<noteq> 1
       then Inl (Errorf ''sync job %d does not exist or is not DEAD'' [ArgD i]) else Inr (), (?g', []))"
    by (simp add: replayDeadJob_def bind_op_def wrapf_def statement_eval ReplayDead_def throw_def ret_def)
  have ok': "db_ok ?g'" by (rule ReplayDead_ok [OF ok, of i "env_now e"]) (simp add: ReplayDead_def)
  show thesis
  proof (cases "\<exists>j \<in> set (sync_jobs g). j_id j = i \<and> j_status j = SyncStatusDead")
    case True
    then obtain j where j: "j \<in> set (sync_jobs g)" "j_id j = i" "j_status j = SyncStatusDead" by blast
    let ?row = "replayed_row (env_now e) j"
    have row: "?row \<in> set (sync_jobs ?g')" using j by (simp add: update_where_mem dead_job_def)
    with ok' have "order_not_cancelled ?g' ?row" by (rule job_order_paid)
    then have "claimable (env_now e) ?g' ?row" by (simp add: claimable_def scheduled_def)
    with row j(2) have "eligible (env_now e) ?g' i" unfolding eligible_def by (intro bexI [of _ ?row]) auto
    moreover have "unique_on j_id (sync_jobs ?g')" using ok' by (simp add: db_ok_def outbox_ok_def)
    then have "List.find (\<lambda>k. j_id k = i) (sync_jobs ?g') = Some ?row"
      using find_unique [of j_id "sync_jobs ?g'" ?row] row j(2) by simp
    then have "job_attempts ?g' i = 0" by (simp add: job_attempts_def)
    ultimately show ?thesis using replayed [of ?g'] eval count True ok' by simp
  next
    case False
    then have "?g' = g" by (simp add: update_where_none dead_job_def)
    with eval count False show ?thesis by (intro refused) simp_all
  qed
qed

lemma update_where_unique:
  assumes "unique_on k xs" and "x \<in> set xs" and "P x" and "\<And>y. P y \<Longrightarrow> k y = k x"
  shows "\<exists>before after. xs = before @ x # after \<and> update_where P f xs = before @ f x # after"
proof -
  from assms(2) obtain before after where xs: "xs = before @ x # after" by (auto simp: in_set_conv_decomp)
  with assms(1) have "k y \<noteq> k x" if "y \<in> set before \<union> set after" for y
    using that by (auto simp: unique_on_def xs) (metis image_eqI)+
  with assms(4) have "\<forall>y \<in> set before \<union> set after. \<not> P y" by blast
  with assms(3) have "update_where P f xs = before @ f x # after"
    unfolding xs by (simp add: update_where_def map_idI)
  with xs show ?thesis by blast
qed

text \<open>C35: the replay command, from the command line to the row. Given the number of a job, a database address and a server that
  answers, it exits with 0 exactly if that job is DEAD; then that job starts over as a new job would: PENDING, due at once, with no
  attempts, no lock, no beginning of a wait, no error, no SAP identifier and no time of synchronization. Every other row is
  untouched. For any other job it prints one error, exits with 1 and changes nothing.\<close>

theorem replay_only_dead:
  assumes ok: "db_ok g" and "0 < i" and "i < 2 ^ 63" and "databaseURL \<noteq> []"
  shows "\<exists>end g'. admin_main error_text [program, ''replay'', Itoa i] databaseURL None None tables e (g, []) = (end, (g', [])) \<and> db_ok g' \<and>
    (pe_status end = 0 \<longleftrightarrow> (\<exists>j. j \<in> set (sync_jobs g) \<and> j_id j = i \<and> j_status j = SyncStatusDead)) \<and>
    (if pe_status end = 0
     then pe_stdout end = [''DEAD sync job '' @ Itoa i @ '' reset to PENDING''] \<and> pe_stderr end = [] \<and>
       eligible (env_now e) g' i \<and> job_attempts g' i = 0 \<and>
       (\<exists>before j after. j_id j = i \<and> j_status j = SyncStatusDead \<and> sync_jobs g = before @ j # after \<and>
         g' = g\<lparr>sync_jobs := before @
           \<lparr>j_id = i, j_order_id = j_order_id j, j_status = ''PENDING'', j_due_at = env_now e, j_attempts = 0, j_locked_at = None,
             j_waiting_since = None, j_last_error = None, j_sap_internal_id = None, j_synced_at = None,
             j_created_at = j_created_at j, j_updated_at = env_now e\<rparr> # after\<rparr>)
     else pe_status end = 1 \<and> pe_stdout end = [] \<and> length (pe_stderr end) = 1 \<and> g' = g)"
proof -
  have "replayJobID [program, ''replay'', Itoa i] = Inr i" using assms(2,3) by (simp add: replayJobID_def ParseInt_Itoa)
  then have run: "admin_main error_text [program, ''replay'', Itoa i] databaseURL None None tables e (g, []) =
      (case replayDeadJob i e (g, []) of (Inl err, s') \<Rightarrow> (fatal [] err, s')
        | (Inr _, s') \<Rightarrow> (completed [''DEAD sync job '' @ Itoa i @ '' reset to PENDING''], s'))"
    using assms(4) by (simp add: admin_main_def)
  from ok show ?thesis
  proof (cases rule: replayDeadJob_exact [where i = i and e = e])
    case (replayed g')
    then obtain j where j: "j \<in> set (sync_jobs g)" "j_id j = i" "j_status j = SyncStatusDead" by blast
    have "unique_on j_id (sync_jobs g)" using ok by (simp add: db_ok_def outbox_ok_def)
    from update_where_unique [OF this j(1), of "dead_job i" "replayed_row (env_now e)"] j(2,3) obtain before after where
      "sync_jobs g = before @ j # after" "update_where (dead_job i) (replayed_row (env_now e)) (sync_jobs g) = before @ replayed_row (env_now e) j # after"
      by (auto simp: dead_job_def)
    moreover have "replayed_row (env_now e) j = \<lparr>j_id = i, j_order_id = j_order_id j, j_status = ''PENDING'', j_due_at = env_now e,
        j_attempts = 0, j_locked_at = None, j_waiting_since = None, j_last_error = None, j_sap_internal_id = None, j_synced_at = None,
        j_created_at = j_created_at j, j_updated_at = env_now e\<rparr>"
      using j(2) by (simp add: replayed_row_def SyncStatusPending_def)
    ultimately show ?thesis using run replayed j by (simp add: completed_def) blast
  next
    case refused
    with run ok show ?thesis by (auto simp: fatal_def)
  qed
qed

theorem replay_only_dead_witness:
  "\<exists>end g' j. admin_main (\<lambda>_. []) [[], ''replay'', Itoa 1] ''postgres://db'' None None [] (at_time (due + 9)) (db_dead, []) = (end, (g', [])) \<and>
     pe_status end = 0 \<and> sync_jobs g' = [j] \<and> j_status j = ''PENDING'' \<and> j_due_at j = due + 9 \<and> j_attempts j = 0 \<and> j_last_error j = None"
proof -
  have "hd (sync_jobs db_dead) \<in> set (sync_jobs db_dead)" "j_id (hd (sync_jobs db_dead)) = 1"
    "j_status (hd (sync_jobs db_dead)) = SyncStatusDead" "length (sync_jobs db_dead) = 1"
    by (code_simp, code_simp, code_simp, code_simp)
  then have "\<exists>j. j \<in> set (sync_jobs db_dead) \<and> j_id j = 1 \<and> j_status j = SyncStatusDead" "length (sync_jobs db_dead) = 1" by blast+
  with replay_only_dead [OF dead_ok, of 1 "''postgres://db''" "\<lambda>_. []" "[]" "[]" "at_time (due + 9)"] show ?thesis
    by (auto simp: at_time_def append_eq_Cons_conv)
qed

text \<open>A command line that is not understood never reaches the database: the process exits with 2.\<close>

theorem admin_usage:
  assumes "admin_main error_text args databaseURL new_pool ping tables e s = (end, s')"
  shows "pe_status end = 2 \<longleftrightarrow>
    1 < length args \<and> args ! 1 \<notin> {''migrate'', ''verify''} \<and> (args ! 1 = ''replay'' \<longrightarrow> (\<exists>err. replayJobID args = Inl err))"
    and "pe_status end = 2 \<Longrightarrow> s' = s"
  using assms
  by (auto simp: admin_main_def admin_verify_def fatal_def fatalUsage_def completed_def Let_def
      split: if_splits sum.splits option.splits prod.splits)

lemma fold_seed_distinct: "distinct (map fst rows) \<Longrightarrow> distinct (map fst (fold seed_sku seeds rows))"
  by (induction seeds arbitrary: rows) (auto simp: seed_sku_def)

lemma image_restrict: "A \<subseteq> f ` S \<Longrightarrow> f ` {x \<in> S. f x \<in> A} = A"
  by fast

text \<open>The migration can be run any number of times: a second run changes nothing, and after the first the schema check passes,
  whatever the catalogue of article numbers held before.\<close>

theorem migration_idempotent:
  assumes "distinct (map fst (sku_classifications g))"
  shows "\<exists>g'. Migrate e (g, []) = (Inr (), (g', [])) \<and> Migrate e' (g', []) = (Inr (), (g', [])) \<and>
    verifySchema error_text requiredTables e' (g', []) = (Inr (), (g', []))"
proof -
  let ?rows = "fold seed_sku seeded_skus (sku_classifications g)"
  let ?g' = "g\<lparr>sku_classifications := ?rows\<rparr>"
  have dist: "distinct (map fst ?rows)" using assms by (rule fold_seed_distinct)
  have keys: "fst ` set seeded_skus \<subseteq> fst ` set ?rows" by (simp add: fold_seed_keys)
  have again: "fold seed_sku seeded_skus ?rows = ?rows" using keys by (intro fold_seed_noop) auto
  have "length (filter (\<lambda>row. fst row \<in> set (map fst seeded_skus)) ?rows) = 3"
  proof -
    have "distinct (map fst (filter (\<lambda>row. fst row \<in> set (map fst seeded_skus)) ?rows))"
      using dist by (simp add: distinct_map_filter)
    moreover have "set (map fst (filter (\<lambda>row. fst row \<in> set (map fst seeded_skus)) ?rows)) = set (map fst seeded_skus)"
      using image_restrict [OF keys] by simp
    moreover have "distinct (map fst seeded_skus)" "length seeded_skus = 3" by (simp_all add: seeded_skus_def)
    ultimately show ?thesis by (metis distinct_card length_map)
  qed
  then have "verifySchema error_text requiredTables e' (?g', []) = (Inr (), (?g', []))"
    by (simp add: verifySchema_def requiredTables_def bind_op_def retelling_def statement_eval select_def ret_def)
  with again show ?thesis by (auto simp: Migrate_def wrapf_def statement_eval migration_sql_def)
qed

theorem migration_idempotent_witness:
  "\<exists>g'. Migrate (at_time 1) (empty_pg\<lparr>sku_classifications := [(''OTHER'', ''DIGITAL'')]\<rparr>, []) = (Inr (), (g', [])) \<and>
     verifySchema (\<lambda>_. []) requiredTables (at_time 2) (g', []) = (Inr (), (g', []))"
  using migration_idempotent [of "empty_pg\<lparr>sku_classifications := [(''OTHER'', ''DIGITAL'')]\<rparr>" "at_time 1" "at_time 2" "\<lambda>_. []"] by auto

section \<open>Configuration and identifiers\<close>

text \<open>C40: a configuration round trip. For numbers of 64 bits, \<open>Load\<close> accepts the environment that spells out a configuration exactly when it
  has the required texts, a SAP address with scheme and host, and numbers that are positive (a delay of zero is allowed),
  and then it returns that configuration.\<close>

theorem configuration_round_trip:
  assumes "int64_config c"
  shows "Load parse_uri (env_of c) = Inr c' \<longleftrightarrow> c' = c \<and> valid_config c \<and> uri_ok parse_uri (SAPAPIURL c)"
  using assms by (rule Load_env_of)

theorem configuration_round_trip_witness: "Load (\<lambda>_. Some (''http'', ''sap'')) (env_of sample_config) = Inr sample_config"
proof -
  have "int64_config sample_config" by (simp add: int64_config_def sample_config_def)
  then show ?thesis
    using configuration_round_trip [of sample_config "\<lambda>_. Some (''http'', ''sap'')" sample_config]
    by (simp add: valid_config_def sample_config_def uri_ok_def)
qed

text \<open>A configuration that loads has the required texts, a port, attempts, timeouts and windows that are positive and a delay
  that is not negative; a numeric variable that is not set has its default.\<close>

theorem configuration_checked:
  assumes "Load parse_uri getenv = Inr c"
  shows "DatabaseURL c \<noteq> [] \<and> SAPAPIURL c \<noteq> [] \<and> 0 < Port c \<and> 0 \<le> HardwareSyncDelaySeconds c \<and> 0 < SAPTimeoutMS c \<and>
    maxAttempts c = SAPMaxAttempts c \<and> maxTotalAttempts c = SAPMaxTotalAttempts c \<and> 0 < SAPRecoveryWindowSeconds c \<and>
    (getenv ''PORT'' = [] \<longrightarrow> Port c = 3000) \<and> (getenv ''HARDWARE_SYNC_DELAY_SECONDS'' = [] \<longrightarrow> HardwareSyncDelaySeconds c = 30)"
proof -
  have "valid_config c" using assms by (rule Load_valid)
  moreover have "intEnv getenv ''PORT'' 3000 = Inr (Port c)" "intEnv getenv ''HARDWARE_SYNC_DELAY_SECONDS'' 30 = Inr (HardwareSyncDelaySeconds c)"
    using assms by (auto simp: Load_def Let_def split: sum.splits if_splits)
  then have "(getenv ''PORT'' = [] \<longrightarrow> Port c = 3000) \<and> (getenv ''HARDWARE_SYNC_DELAY_SECONDS'' = [] \<longrightarrow> HardwareSyncDelaySeconds c = 30)"
    unfolding intEnv_cases by auto
  ultimately show ?thesis by (auto simp: valid_config_def maxAttempts_def maxTotalAttempts_def)
qed

theorem configuration_checked_witness:
  "Port (projr (Load (\<lambda>_. Some (''http'', ''sap''))
     (\<lambda>name. if name = ''DATABASE_URL'' \<or> name = ''SAP_API_URL'' then ''http://sap'' else []))) = 3000"
proof -
  let ?env = "\<lambda>name. if name = ''DATABASE_URL'' \<or> name = ''SAP_API_URL'' then ''http://sap'' else []"
  let ?load = "Load (\<lambda>_. Some (''http'', ''sap'')) ?env"
  have "\<not> isl ?load" by code_simp
  then have "?load = Inr (projr ?load)" by (cases ?load) simp_all
  from configuration_checked [OF this] show ?thesis by simp
qed

text \<open>Two requests that come without an identifier get different ones, as long as the process has handled fewer than two to the
  sixty-fourth of them.\<close>

theorem request_ids_distinct:
  assumes "TrimSpace (rq_request_id req) = []" and "TrimSpace (rq_request_id req') = []" and "m < 2 ^ 64" and "n < 2 ^ 64" and "m \<noteq> n"
  shows "fst (request_id t req m) \<noteq> fst (request_id t' req' n)"
proof
  assume "fst (request_id t req m) = fst (request_id t' req' n)"
  with assms(1,2) have "(m + 1) mod 2 ^ 64 = (n + 1) mod 2 ^ 64"
    by (simp add: request_id_def Let_def generated_id_counter)
  with assms(3-5) show False by (cases "m + 1 = 2 ^ 64"; cases "n + 1 = 2 ^ 64") auto
qed

theorem request_ids_distinct_witness:
  "fst (request_id 7 (sample_request []) 0) \<noteq> fst (request_id 7 (sample_request []) 1)"
  by (rule request_ids_distinct) (simp_all add: sample_request_def)

section \<open>Requests in the log\<close>

text \<open>C34: every request is logged and can be traced. The reply carries a request id, the caller's own if it sent one; the last
  record of the request has that id, the method, the path and the status of the reply; a conflict or an internal error has exactly
  one error record before it, with the same id, and no other reply has any.\<close>

theorem request_logged:
  assumes "ServeHTTP lib cfg call r req seq e s = ((reply, seq'), s')" and "lib_logger lib"
  shows "\<exists>i errs. rp_request_id reply = Some i \<and> i \<noteq> [] \<and> (TrimSpace (rq_request_id req) \<noteq> [] \<longrightarrow> i = TrimSpace (rq_request_id req)) \<and>
    rp_log reply = errs @ [coded_record LevelInfo ''0002'' ''HTTP request''
      [(''request_id'', LogString i), (''method'', LogString (route_method r)), (''path'', LogString (route_path r)),
       (''status'', LogInt (rp_status reply)), (''duration_ms'', LogInt (Milliseconds (hc_elapsed call)))]] \<and>
    length errs = (if rp_status reply = 409 \<or> rp_status reply = 500 then 1 else 0) \<and>
    (\<forall>x. x \<in> set errs \<longrightarrow> lr_level x = LevelError \<and> (''request_id'', LogString i) \<in> set (lr_attrs x))"
proof -
  obtain i n where i: "request_id (hc_now call) req seq = (i, n)" by (metis surj_pair)
  then have id: "i \<noteq> []" "TrimSpace (rq_request_id req) \<noteq> [] \<longrightarrow> i = TrimSpace (rq_request_id req)"
    by (auto simp: request_id_def generated_id_def Let_def split: if_splits)
  obtain inner s1 where run: "NewRouter lib cfg r (req\<lparr>rq_context := Some i\<rparr>) e s = (inner, s1)" by (metis surj_pair)
  from NewRouter_log [OF run assms(2)] have errs: "errors_logged (Some i) inner" by simp
  have "\<forall>x. x \<in> set (rp_log inner) \<longrightarrow> lr_level x = LevelError \<and> (''request_id'', LogString i) \<in> set (lr_attrs x)"
    "length (rp_log inner) = (if rp_status inner = 409 \<or> rp_status inner = 500 then 1 else 0)"
    using errs by (auto simp: errors_logged_def error_logged_def logError_record coded_record_def split: if_splits)
  with assms i run id show ?thesis
    by (intro exI [of _ i] exI [of _ "rp_log inner"]) (auto simp: ServeHTTP_def requestIDMiddleware_def logInfo_def)
qed

theorem request_logged_witness:
  "\<exists>i errs final. rp_log (fst (fst (ServeHTTP sample_lib sample_config \<lparr>hc_now = 7, hc_elapsed = 3000000\<rparr> (OrderRoute ''o9'')
        ((sample_request [])\<lparr>rq_request_id := '' r1 ''\<rparr>) 0 (at_time 9) (db_paid, [Fail ''gone''])))) = errs @ [final] \<and> length errs = 1 \<and>
     (\<forall>x. x \<in> set errs \<longrightarrow> lr_level x = LevelError \<and> (''request_id'', LogString i) \<in> set (lr_attrs x))"
proof -
  let ?r = "ServeHTTP sample_lib sample_config \<lparr>hc_now = 7, hc_elapsed = 3000000\<rparr> (OrderRoute ''o9'')
    ((sample_request [])\<lparr>rq_request_id := '' r1 ''\<rparr>) 0 (at_time 9) (db_paid, [Fail ''gone''])"
  have status: "rp_status (fst (fst ?r)) = 500" by code_simp
  obtain reply seq s where r: "?r = ((reply, seq), s)" by (metis surj_pair)
  have log: "lib_logger sample_lib" by (simp add: sample_lib_def)
  have "rp_status reply = 500" using status r by simp
  from request_logged [OF r log, unfolded this] show ?thesis
    unfolding r fst_conv by (simp only: simp_thms if_True) (elim exE conjE, intro exI conjI, assumption+)
qed

section \<open>Starting the service\<close>

text \<open>C36: the start of the service. The process comes up exactly when the configuration is accepted, the pool can be created, the
  migration runs and the port is free. Then it listens, its pool is open, its worker runs one loop and the catalogue is
  seeded; stopping it undoes all of that, whatever fails on the way. A start, successful or not, changes nothing but the
  catalogue, and nothing at all when the catalogue was seeded before.\<close>

theorem service_starts_exactly:
  assumes "order_sync_main parse_uri getenv parse_config new_pool listen e (g, fs) = (r, (g', fs'))"
  shows "((\<exists>x. r = Inr x) \<longleftrightarrow>
      (\<exists>cfg pool u. Load parse_uri getenv = Inr cfg \<and> NewPoolFromConfig parse_config new_pool cfg = Inr pool \<and>
        fst (Migrate e (g, fs)) = Inr u \<and> listen ('':'' @ Itoa (Port cfg)) = None)) \<and>
    (\<forall>cfg svc. r = Inr (cfg, svc) \<longrightarrow> 0 < Port cfg \<and> svc_listening svc \<and> svc_pool svc = Some True \<and>
      svc_worker svc = Some \<lparr>wk_started = True, wk_cancelled = False, wk_loops = 1\<rparr> \<and>
      fst ` set seeded_skus \<subseteq> fst ` set (sku_classifications g') \<and>
      (\<forall>stop shutdown. let svc' = snd (OnStop stop shutdown svc) in \<not> svc_listening svc' \<and> svc_pool svc' = Some False \<and>
         svc_worker svc' = Some \<lparr>wk_started = True, wk_cancelled = True, wk_loops = 1\<rparr>)) \<and>
    (\<exists>skus. g' = g\<lparr>sku_classifications := skus\<rparr>) \<and>
    (fst ` set seeded_skus \<subseteq> fst ` set (sku_classifications g) \<longrightarrow> g' = g)"
proof -
  obtain m h hs where mig: "Migrate e (g, fs) = (m, (h, hs))" by (metis surj_pair)
  have h: "h = g \<or> h = g\<lparr>sku_classifications := fold seed_sku seeded_skus (sku_classifications g)\<rparr>"
    "(\<exists>u. m = Inr u) \<Longrightarrow> fst ` set seeded_skus \<subseteq> fst ` set (sku_classifications h)"
    using mig by (cases rule: Migrate_cases; simp add: fold_seed_keys; fail)+
  have seeded: "h = g" if "fst ` set seeded_skus \<subseteq> fst ` set (sku_classifications g)"
  proof -
    have "fold seed_sku seeded_skus (sku_classifications g) = sku_classifications g" by (rule fold_seed_noop) (use that in auto)
    then show ?thesis using h(1) by auto
  qed
  have g': "g' = g \<or> g' = h"
    using assms mig by (auto simp: order_sync_main_def OnStart_def split: sum.splits option.splits)
  have ok: "(\<exists>x. r = Inr x) \<longleftrightarrow> (\<exists>cfg pool u. Load parse_uri getenv = Inr cfg \<and> NewPoolFromConfig parse_config new_pool cfg = Inr pool \<and>
        fst (Migrate e (g, fs)) = Inr u \<and> listen ('':'' @ Itoa (Port cfg)) = None)"
    using assms mig
    by (auto simp: order_sync_main_def OnStart_def startHTTPServer_def NewService_def NewHTTPServer_def split: sum.splits option.splits)
  have up: "Load parse_uri getenv = Inr cfg \<and> g' = h \<and> (\<exists>u. m = Inr u) \<and>
      svc = (NewService cfg)\<lparr>svc_listening := True, svc_worker := map_option Start (svc_worker (NewService cfg))\<rparr>" if "r = Inr (cfg, svc)" for cfg svc
    using assms mig that by (auto simp: order_sync_main_def OnStart_def split: sum.splits option.splits)
  have "0 < Port cfg \<and> svc_listening svc \<and> svc_pool svc = Some True \<and>
      svc_worker svc = Some \<lparr>wk_started = True, wk_cancelled = False, wk_loops = 1\<rparr> \<and>
      fst ` set seeded_skus \<subseteq> fst ` set (sku_classifications g') \<and>
      (\<forall>stop shutdown. let svc' = snd (OnStop stop shutdown svc) in \<not> svc_listening svc' \<and> svc_pool svc' = Some False \<and>
         svc_worker svc' = Some \<lparr>wk_started = True, wk_cancelled = True, wk_loops = 1\<rparr>)" if "r = Inr (cfg, svc)" for cfg svc
    using up [OF that] h(2) Load_valid [of parse_uri getenv cfg]
    by (auto simp: NewService_def NewWorker_def Start_def OnStop_def Stop_def close_pool_def valid_config_def split: option.split)
  moreover have "\<exists>skus. g' = g\<lparr>sku_classifications := skus\<rparr>" using g' h(1) by (auto intro: exI [of _ "sku_classifications g"])
  ultimately show ?thesis using ok g' seeded by blast
qed

theorem service_starts_exactly_witness:
  "\<exists>cfg svc g'. order_sync_main (\<lambda>_. Some (''http'', ''sap'')) (env_of sample_config) (\<lambda>url. Inr url) Inr (\<lambda>_. None) (at_time 0) (empty_pg, []) =
     (Inr (cfg, svc), (g', [])) \<and> svc_listening svc \<and> fst ` set seeded_skus \<subseteq> fst ` set (sku_classifications g')"
proof -
  let ?main = "order_sync_main (\<lambda>_. Some (''http'', ''sap'')) (env_of sample_config) (\<lambda>url. Inr url :: go_error + string) Inr (\<lambda>_. None) (at_time 0) (empty_pg, [])"
  have "int64_config sample_config" by (simp add: int64_config_def sample_config_def)
  then have load: "Load (\<lambda>_. Some (''http'', ''sap'')) (env_of sample_config) = Inr sample_config"
    using Load_env_of [of sample_config "\<lambda>_. Some (''http'', ''sap'')" sample_config] by (simp add: valid_config_def sample_config_def uri_ok_def)
  let ?svc = "(NewService sample_config)\<lparr>svc_listening := True, svc_worker := map_option Start (svc_worker (NewService sample_config))\<rparr>"
  let ?g = "empty_pg\<lparr>sku_classifications := fold seed_sku seeded_skus (sku_classifications empty_pg)\<rparr>"
  have "Migrate (at_time 0) (empty_pg, []) = (Inr (), (?g, []))" by (simp only: Migrate_def wrapf_def statement_eval migration_sql_def) simp
  then have run: "?main = (Inr (sample_config, ?svc), (?g, []))"
    by (simp add: order_sync_main_def load NewPoolFromConfig_def OnStart_def startHTTPServer_def)
  have "svc_listening ?svc" "fst ` set seeded_skus \<subseteq> fst ` set (sku_classifications ?g)"
    using service_starts_exactly [OF run] by simp_all
  with run show ?thesis by (intro exI conjI)
qed

text \<open>The list of constructors handed to fx is complete: in the order of the list every constructor finds its
  parameters, no part is provided twice, the start hook finds its parameters, and every part is needed by
  another one or by the hook.\<close>

theorem wiring_complete:
  "well_wired [FxLifecycle] main_provide \<and> set (pr_params main_invoke) \<subseteq> insert FxLifecycle (pr_result ` set main_provide) \<and>
   (\<forall>p \<in> set main_provide. \<exists>q \<in> insert main_invoke (set main_provide). pr_result p \<in> set (pr_params q))"
  using main_well_wired by (simp add: main_provide_def main_invoke_def)

end
