(* ===== verification/Spec2Isabelle.thy ===== *)
theory Spec2Isabelle
  imports Webhook_Properties Worker_Properties Boundary_Properties
begin

text \<open>
  A verification of order-sync, a Go service that receives order webhooks from a shop and
  payment webhooks from a payment provider, stores both in PostgreSQL, and delivers every
  paid order to SAP.

  \<^bold>\<open>How the program works.\<close> A webhook (\<open>internal/app/router.go\<close>) is decoded, normalized and
  validated, and then processed in one database transaction (\<open>internal/db/transaction.go\<close>) by
  the shop service (\<open>internal/shop\<close>) or the payment service (\<open>internal/payment\<close>). Either may
  come first: a payment for an unknown order waits in its table, and the order picks it up
  when it arrives. When both are there and the payment is COMPLETED, the same transaction marks
  the order PAID and inserts a row into \<open>sync_jobs\<close>, a transactional outbox. The worker
  (\<open>internal/sync/worker.go\<close>) claims due jobs one at a time, sends them with the SAP client
  (\<open>internal/infrastructure/sap\<close>) and records the outcome; failed jobs are retried with a
  growing delay, wait, and are declared DEAD in the end. An operator can replay a DEAD job
  (\<open>cmd/order-sync-admin\<close>). \<open>cmd/order-sync\<close> wires the parts together with fx; its start hook migrates the
  database, opens the port and starts the worker (\<open>internal/app/lifecycle.go\<close>).

  \<^bold>\<open>The theories.\<close>
  \<^item> \<open>Basis\<close>: lists as tables (\<open>update_where\<close>, \<open>unique_on\<close>), the locales \<open>invariant_system\<close> and
    \<open>refinement_system\<close>, and the collections of rules the proofs use. \<open>GoStd\<close>: the parts of
    \<open>strings\<close> and \<open>strconv\<close> the program calls.
  \<^item> \<open>Contracts\<close>, \<open>Config\<close>: \<open>internal/contracts\<close> and \<open>internal/config\<close>. Go errors are values of
    \<open>go_error\<close>, which keeps the chain of wrapped errors that \<open>errors.Is\<close> and \<open>errors.As\<close> walk. \<open>Logging\<close>: log records, the
    helpers that make them, and the lines the logger of \<open>internal/shared\<close> writes.
  \<^item> \<open>Database\<close>: the tables of \<open>migrations/001_initial.sql\<close> as one record \<open>pg\<close> of row lists and
    sequences, and each SQL statement of \<open>internal/infrastructure/postgres/queries\<close> as a function on
    it, with unique and check constraints, foreign keys, defaults and the rounding of column types.
  \<^item> \<open>Session\<close>: operations of a session. An operation is a function of the environment (\<open>NOW()\<close>, rows
    that others have locked, the text of a time) and of the database with a schedule of faults: a
    statement may fail before it takes effect, or take effect and lose its reply. \<open>in_transaction\<close> is
    begin, work, commit with the deferred rollback. \<open>runs\<close> is a successful run.
  \<^item> \<open>Ports\<close>: the interfaces of \<open>internal/contracts/ports.go\<close> and \<open>internal/sync/ports.go\<close> as locales:
    \<open>event_store\<close> (events are deduplicated per type), \<open>payment_store\<close> (a final payment stays),
    \<open>order_store\<close> (an order is stored once), \<open>job_queue\<close> (one claimant at a time). \<open>Repositories\<close> models
    \<open>internal/infrastructure/postgres/repositories\<close> and interprets them.
  \<^item> \<open>Transaction\<close>, \<open>Orders\<close>, \<open>Shop\<close>, \<open>Payment\<close>, \<open>SapClient\<close>, \<open>Worker\<close>, \<open>Router\<close>, \<open>Admin\<close>: the packages of the same
    names. A reply of \<open>Router\<close> and the actions of \<open>Worker\<close> carry the log records that were written. \<open>Router\<close> states the contract of a webhook
    endpoint as the locale \<open>webhook_endpoint\<close> and interprets it for both endpoints; \<open>SapClient\<close>
    has the step relation \<open>sap_step\<close> of concurrent callers. \<open>Startup\<close>: the constructors that \<open>main\<close> hands to fx with the parts
    they need and provide, the connection pool, and the hooks that start and stop the service.
  \<^item> \<open>Consistency\<close>, \<open>Settlement\<close>: the invariant \<open>db_ok\<close> of the tables (orders agree with payments, paid orders
    and jobs correspond, keys are unique) and its preservation by every operation. \<open>System\<close>: the step
    relation \<open>sys_step\<close> of the whole service, and the specification \<open>ledger_step\<close> it refines. \<open>Isolation\<close>: the account of an
    order id (its order, items, payment and jobs), and that no step touches two accounts. \<open>Shipments\<close>: the history of exchanges
    with SAP, which the state of the system keeps, and the invariants that tie it to the tables.
  \<^item> \<open>Redelivery\<close>, \<open>Progress\<close>, \<open>Dispatch\<close>: what a later redelivery finds, which webhooks succeed when the database
    does not fail (\<open>completes\<close>, with weakest-precondition rules), and what the worker then achieves.
  \<^item> \<open>Listener\<close>: the trigger on \<open>sync_jobs\<close>, the listening connection (\<open>Watch\<close>) with its goroutine and channels, and the
    loop of the worker, composed with the system as the step relation \<open>wt_step\<close>. \<open>Settling\<close>: rounds of that loop until
    every job is SYNCED or DEAD. \<open>Overlap\<close>: two transactions
    that overlap under READ COMMITTED.
  \<^item> \<open>Samples\<close>: a concrete run, computed by the model, from which the instances of the theorems
    are taken. \<open>Webhook_Properties\<close>, \<open>Worker_Properties\<close>, \<open>Boundary_Properties\<close> and this theory: the
    properties.

  \<^bold>\<open>What the theorems show.\<close> For the whole system: the tables stay consistent under every
  interleaving of requests, claims, deliveries, crashes of workers, replays and time, and under
  every fault (C1 to C3); it refines the ledger (C4), so final payments stay (C5); SAP only learns of paid orders, as
  they are stored (C6), an order counts as synchronized only if SAP accepted it (C7), SAP is asked a bounded number of times about it (C8); and a
  step concerns one order id only (C9).
  For the services: transactions are atomic, redeliveries are harmless, the order of arrival does
  not matter, new valid webhooks are accepted, and conflicting ones are refused without
  effect. For the worker: draining ends, leaves nothing due, hands out the earliest job to one
  worker for two minutes, also when claims overlap (C24); every job is settled in the end (C20); the loop never sleeps through due work while it listens (C21); deliveries end in
  the right state; delays are bounded. For the SAP client:
  one request per key, shared results, and an exact account of what is accepted and what is
  retried. For the boundary: a reply tells the truth about the database, the secret is enforced,
  the status view is consistent, every request can be traced in the log (C34), the replay command does what it says (C35), and the service comes up exactly when its
  configuration, pool, migration and port allow it (C36).

  \<^bold>\<open>Granularity.\<close> A step of \<open>sys_step\<close> is one request, claim or delivery with its whole transaction:
  transactions are taken to be serial. PostgreSQL runs them under READ COMMITTED, where the statements
  of two transactions may interleave; the theorems about reachable states do not cover that, and C17 shows that
  they cannot: an order and its payment whose transactions overlap are never reconciled. Within a step, faults may occur at every statement. Claims and deliveries of several
  workers interleave with everything else: a delivery may begin, and ask SAP, long before the step that writes its outcome. \<open>env_locked\<close>
  lets a claim pass over rows that another claim holds at that moment; C24 shows that such claims are serializable.

  \<^bold>\<open>Loops and bounds.\<close> The drain loop of the worker has no bound in the code; it is a
  \<open>partial_function\<close> whose result is \<open>None\<close> when it does not end, and its end is proved with the number of
  attempts the jobs have left as measure (\<open>potential\<close>). All other loops are recursive functions with
  a measure. No fuel is used. Durations are 64-bit integers that wrap around (\<open>int64\<close>); quantities and
  identifiers are checked against the widths of their columns.

  \<^bold>\<open>Arguments.\<close> Library functions whose source is elsewhere are arguments: the JSON decoder and encoder,
  \<open>mime.ParseMediaType\<close>, \<open>mail.ParseAddress\<close>, \<open>time.Parse\<close> and \<open>http.ParseTime\<close>, the Unicode case tables, \<open>rand.Int63n\<close>,
  \<open>pgxpool\<close>, \<open>net.Listen\<close>, the network and the clock. A price is a rational number, the decimal that the JSON text and the
  NUMERIC column denote; float64 keeps such decimals apart up to fifteen digits. The text a paid
  time is printed to before PostgreSQL reads it back is identified with the time.

  \<^bold>\<open>Not modelled.\<close> The recovery of panics by gin and the swagger route; the API documentation \<open>docs/docs.go\<close>, which is generated and
  only data; \<open>migrations/embed.go\<close>, a directive of the compiler. fx, gin, \<open>pgxpool\<close> and \<open>log/slog\<close> are libraries: the container is
  represented by what \<open>main\<close> gives to it, routing by the route that was chosen.
\<close>

section \<open>The system\<close>





text \<open>C3: the transactional outbox. In every reachable state a PAID order has exactly one synchronization
  job, any other order has none, and no job is ever CANCELLED.\<close>

theorem reachable_outbox:
  assumes "sys_initial s" and "(sys_step lib cfg)\<^sup>*\<^sup>* s t" and "r \<in> set (orders (sys_db t))"
  shows "length (filter (\<lambda>j. j_order_id j = o_id r) (sync_jobs (sys_db t))) = (if o_payment_status r = OrderStatePaid then 1 else 0) \<and>
    (\<forall>j. j \<in> set (sync_jobs (sys_db t)) \<longrightarrow> j_status j \<noteq> SyncStatusCancelled)"
proof -
  have ok: "db_ok (sys_db t)" using assms(1,2) by (rule order_sync.reachable_inv)
  then have out: "outbox_ok (sys_db t)" and wf: "orders_wf (sys_db t)" by (simp_all add: db_ok_def)
  have "(\<exists>j \<in> set (sync_jobs (sys_db t)). j_order_id j = o_id r) \<longleftrightarrow> o_payment_status r = OrderStatePaid"
    using out no_job_unless_paid [OF wf out assms(3)] assms(3) by (auto simp: outbox_ok_def)
  moreover have "unique_on j_order_id (sync_jobs (sys_db t))" using out by (simp add: outbox_ok_def)
  note filter_unique_one [OF this, where a = "o_id r" and P = "\<lambda>_. True"]
  moreover have "\<forall>j. j \<in> set (sync_jobs (sys_db t)) \<longrightarrow> j_status j \<noteq> SyncStatusCancelled"
    using out by (auto simp: outbox_ok_def job_row_ok_def)
  ultimately show ?thesis by simp
qed

theorem reachable_outbox_witness:
  "hd (orders db_paid) \<in> set (orders db_paid) \<and>
   length (filter (\<lambda>j. j_order_id j = o_id (hd (orders db_paid))) (sync_jobs db_paid)) = 1"
proof -
  have "hd (orders db_paid) \<in> set (orders db_paid)" "o_payment_status (hd (orders db_paid)) = OrderStatePaid"
    by (code_simp, code_simp)
  then show ?thesis
    using reachable_outbox [OF sample_initial sample_run, of "hd (orders db_paid)"] by (simp add: sample_system_def)
qed

text \<open>C4: refinement. Every run of the system is, seen through \<open>ledger_of\<close>, a run of the specification in
  which an order is stored once and a payment changes its status only until it is final.\<close>

theorem system_refines_ledger:
  assumes "sys_initial s" and "(sys_step lib cfg)\<^sup>*\<^sup>* s t"
  shows "ledger_step\<^sup>*\<^sup>* \<lparr>ld_orders = (\<lambda>_. None), ld_payments = (\<lambda>_. None)\<rparr> (ledger_of (sys_db t))"
proof -
  have "ledger_of (sys_db s) = \<lparr>ld_orders = (\<lambda>_. None), ld_payments = (\<lambda>_. None)\<rparr>"
    using assms(1) by (simp add: sys_initial_def ledger_of_def empty_pg_def find_order_row_def payment_status_def find_payment_row_def fun_eq_iff)
  moreover have "db_ok (sys_db s)" using assms(1) by (rule order_sync.initial_inv)
  ultimately show ?thesis using order_sync.run_refines [OF assms(2)] by simp
qed

theorem system_refines_ledger_witness:
  "ledger_step\<^sup>*\<^sup>* \<lparr>ld_orders = (\<lambda>_. None), ld_payments = (\<lambda>_. None)\<rparr> (ledger_of db_paid) \<and>
   ld_payments (ledger_of db_paid) ''o1'' = Some PaymentStatusCompleted"
proof -
  have "ld_payments (ledger_of db_paid) ''o1'' = Some PaymentStatusCompleted" by code_simp
  then show ?thesis using system_refines_ledger [OF sample_initial sample_run] by (simp add: sample_system_def)
qed

text \<open>C5: a COMPLETED or CANCELLED payment keeps its status in every continuation of the run.\<close>

theorem final_payment_stays:
  assumes "db_ok (sys_db s)" and "(sys_step lib cfg)\<^sup>*\<^sup>* s t"
    and "payment_status (sys_db s) ref = Some f" and "f = PaymentStatusCompleted \<or> f = PaymentStatusCancelled"
  shows "payment_status (sys_db t) ref = Some f"
  using ledger_steps_final [OF order_sync.run_refines [OF assms(2,1)], of ref f] assms(3,4)
  by (simp add: ledger_of_def finalized_def)

theorem final_payment_stays_witness:
  "payment_status db_claimed ''o1'' = Some PaymentStatusCompleted"
proof -
  have "payment_status db_paid ''o1'' = Some PaymentStatusCompleted" by code_simp
  then show ?thesis
    using final_payment_stays [OF _ sample_run_claimed, of "''o1''" PaymentStatusCompleted] sample_ok(2) by (simp add: sample_system_def)
qed

text \<open>A stored order keeps its e-mail address and its items in every continuation of the run.\<close>

theorem stored_order_stays:
  assumes "db_ok (sys_db s)" and "(sys_step lib cfg)\<^sup>*\<^sup>* s t" and "find_order_row (sys_db s) ref = Some w"
  shows "\<exists>w'. find_order_row (sys_db t) ref = Some w' \<and> o_customer_email w' = o_customer_email w \<and>
    mset (items_of_order (sys_db t) (o_id w')) = mset (items_of_order (sys_db s) (o_id w))"
  using ledger_steps_order [OF order_sync.run_refines [OF assms(2,1)], of ref] assms(3)
  by (cases "find_order_row (sys_db t) ref") (auto simp: ledger_of_def)

theorem stored_order_stays_witness:
  "\<exists>w'. find_order_row db_paid ''o1'' = Some w' \<and> o_customer_email w' = ''a@b.c'' \<and>
     mset (items_of_order db_paid (o_id w')) = {#sample_item#}"
proof -
  let ?w = "hd (orders db_order)"
  have "find_order_row db_order ''o1'' = Some ?w" "o_customer_email ?w = ''a@b.c''"
    "items_of_order db_order (o_id ?w) = [sample_item]" by (code_simp, code_simp, code_simp)
  then show ?thesis
    using stored_order_stays [OF _ sample_run_paid, of "''o1''" ?w] sample_ok(1) by (simp add: sample_system_def)
qed

text \<open>C9: orders do not interfere. One step of the system, whether a webhook, a claim, a delivery, a replay or a migration, and whatever
  fails in it, changes the order row, the items, the payment and the jobs of one order at most; everything the database holds about any
  other order is the same afterwards.\<close>

theorem orders_isolated:
  assumes "sys_initial s0" and "(sys_step lib cfg)\<^sup>*\<^sup>* s0 s" and "sys_step lib cfg s t"
  shows "\<exists>ref. \<forall>other. other \<noteq> ref \<longrightarrow> account_of (sys_db t) other = account_of (sys_db s) other"
  using sys_step_account [OF assms(3) order_sync.reachable_inv [OF assms(1,2)]] by (simp add: only_account_def)

theorem orders_isolated_witness:
  "\<exists>ref. \<forall>other. other \<noteq> ref \<longrightarrow> account_of db_paid other = account_of db_order other"
proof -
  let ?s = "sample_system db_order 2000 []"
  have run: "(sys_step sample_lib sample_config)\<^sup>*\<^sup>* (sample_system empty_pg 0 []) ?s"
    using sample_run_order sample_ticks [of 1000 2000 sample_lib sample_config db_order "[]"] by (simp add: rtranclp.rtrancl_into_rtrancl)
  have step: "sys_step sample_lib sample_config ?s (?s\<lparr>sys_db := db_paid\<rparr>)"
    using sys_step.request [of "at_time 2000" ?s sample_lib sample_config] payment_request by (simp add: sample_system_def at_time_def)
  from orders_isolated [OF sample_initial run step] show ?thesis by (simp add: sample_system_def)
qed

section \<open>What SAP is told\<close>

text \<open>C6: SAP only ever learns of paid orders, as they are stored. In every reachable state, whatever was sent to SAP in the past is
  about an order that is stored and PAID, whose payment is COMPLETED, under its own id as the key, with its customer and
  its items.\<close>

theorem only_paid_orders_sent:
  assumes "sys_initial s" and "(sys_step lib cfg)\<^sup>*\<^sup>* s t" and "x \<in> set (sys_sap t)"
  shows "ex_key x = od_OrderID (ex_order x) \<and> payment_status (sys_db t) (ex_key x) = Some PaymentStatusCompleted \<and>
    (\<exists>r. find_order_row (sys_db t) (ex_key x) = Some r \<and> o_payment_status r = OrderStatePaid \<and>
       o_customer_email r = od_CustomerEmail (ex_order x) \<and> items_of_order (sys_db t) (o_id r) = od_Items (ex_order x))"
proof -
  have inv: "shipments_ok t" using assms(1,2) by (rule shipments.reachable_inv)
  then have ok: "db_ok (sys_db t)" and "order_sent (sys_db t) x" using assms(3) by (auto simp: shipments_ok_def)
  then obtain r where r: "r \<in> set (orders (sys_db t))" "o_order_id r = ex_key x" "o_payment_status r = OrderStatePaid"
      "o_customer_email r = od_CustomerEmail (ex_order x)" "items_of_order (sys_db t) (o_id r) = od_Items (ex_order x)"
    and key: "ex_key x = od_OrderID (ex_order x)" by (auto simp: order_sent_def)
  have "order_state_for (payment_status (sys_db t) (ex_key x)) = OrderStatePaid" using ok r(1-3) by (auto simp: db_ok_def reconciled_def)
  then have "payment_status (sys_db t) (ex_key x) = Some PaymentStatusCompleted"
    by (auto simp: order_state_for_def OrderStatePaid_def OrderStatePending_def OrderStateCancelled_def split: if_splits)
  moreover have "unique_on o_order_id (orders (sys_db t))" using ok by (simp add: db_ok_def orders_wf_def)
  then have "find_order_row (sys_db t) (ex_key x) = Some r" using find_unique [of o_order_id _ r] r(1,2) by (simp add: find_order_row_def)
  ultimately show ?thesis using key r(3-5) by blast
qed

theorem only_paid_orders_sent_witness:
  "sample_exchange \<in> set (sys_sap delivered_system) \<and> payment_status db_settled (ex_key sample_exchange) = Some PaymentStatusCompleted"
proof -
  have "sample_exchange \<in> set (sys_sap delivered_system)" by (simp add: delivered_system_def)
  with only_paid_orders_sent [OF sample_initial sample_run_delivered this] show ?thesis
    by (auto simp: delivered_system_def sample_system_def)
qed

text \<open>C7: an order counts as synchronized only if SAP accepted it. In every reachable state the order of a SYNCED job carries a SAP
  id, the one in the job, and SAP gave this id in answer to a request about that order with its stored items.\<close>

theorem synced_means_accepted:
  assumes "sys_initial s" and "(sys_step lib cfg)\<^sup>*\<^sup>* s t"
    and "j \<in> set (sync_jobs (sys_db t))" and "j_status j = SyncStatusSynced"
  shows "\<exists>r x i. r \<in> set (orders (sys_db t)) \<and> o_id r = j_order_id j \<and> o_sap_id r = Some i \<and> j_sap_internal_id j = Some i \<and>
    x \<in> set (sys_sap t) \<and> ex_key x = o_order_id r \<and> ex_answer x = Inr i \<and> od_Items (ex_order x) = items_of_order (sys_db t) (o_id r)"
proof -
  have inv: "shipments_ok t" using assms(1,2) by (rule shipments.reachable_inv)
  then have ok: "db_ok (sys_db t)" and ids: "ids_given (sys_sap t) (sys_db t)" by (simp_all add: shipments_ok_def)
  obtain i where i: "j_sap_internal_id j = Some i" using ok assms(3,4) by (auto simp: db_ok_def outbox_ok_def job_row_ok_def)
  with ids assms(3,4) obtain r x where r: "r \<in> set (orders (sys_db t))" "o_id r = j_order_id j" "o_sap_id r = Some i"
    and x: "x \<in> set (sys_sap t)" "ex_key x = o_order_id r" "ex_answer x = Inr i" by (fastforce simp: ids_given_def)
  have "order_sent (sys_db t) x" using inv x(1) by (simp add: shipments_ok_def)
  then obtain q where q: "q \<in> set (orders (sys_db t))" "o_order_id q = ex_key x" "items_of_order (sys_db t) (o_id q) = od_Items (ex_order x)"
    by (auto simp: order_sent_def)
  have "unique_on o_order_id (orders (sys_db t))" using ok by (simp add: db_ok_def orders_wf_def)
  then have "q = r" using q(1,2) r(1) x(2) by (auto dest: unique_onD)
  with r x i q(3) show ?thesis by (intro exI [of _ r] exI [of _ x] exI [of _ i]) auto
qed

theorem synced_means_accepted_witness:
  "\<exists>r x. r \<in> set (orders db_settled) \<and> o_sap_id r = Some ''sap-1'' \<and> x \<in> set (sys_sap delivered_system) \<and> ex_answer x = Inr ''sap-1''"
proof -
  let ?j = "hd (sync_jobs db_settled)"
  have "?j \<in> set (sync_jobs db_settled)" "j_status ?j = SyncStatusSynced" "j_sap_internal_id ?j = Some ''sap-1''"
    by (code_simp, code_simp, code_simp)
  then show ?thesis
    using synced_means_accepted [OF sample_initial sample_run_delivered, of ?j] by (auto simp: delivered_system_def sample_system_def)
qed

text \<open>C8: SAP is asked about an order at most as often as it may be attempted, and as often again for every replay by the operator, however
  often workers crash, claims expire or updates are lost.\<close>

theorem sap_asked_bounded:
  assumes "sys_initial s" and "(sys_step lib cfg)\<^sup>*\<^sup>* s t"
  shows "int (length (filter (\<lambda>x. ex_key x = ref) (sys_sap t))) \<le> maxTotalAttempts cfg * (1 + int (sys_replays t))"
proof -
  have "askings cfg t ref \<le> nat (maxTotalAttempts cfg) * (1 + sys_replays t)"
    using askings.reachable_inv [OF assms] by blast
  then have "asked t ref \<le> nat (maxTotalAttempts cfg) * (1 + sys_replays t)" by (simp add: askings_def)
  then have "int (asked t ref) \<le> int (nat (maxTotalAttempts cfg) * (1 + sys_replays t))" by (simp only: of_nat_le_iff)
  then show ?thesis using maxTotalAttempts_pos [of cfg] by (simp add: asked_def algebra_simps)
qed

theorem sap_asked_bounded_witness:
  "length (filter (\<lambda>x. ex_key x = ''o1'') (sys_sap delivered_system)) = 1 \<and> (1 :: int) \<le> maxTotalAttempts sample_config * (1 + 0)"
  using sap_asked_bounded [OF sample_initial sample_run_delivered, of "''o1''"]
  by (simp add: delivered_system_def sample_system_def sample_exchange_def)

end
